(* ===== verification/Slurp_Prelude.thy ===== *)
theory Slurp_Prelude
  imports Main "HOL-Library.Word"
begin

text \<open>
  Shared vocabulary of the development: the machine integers of the Rust sources, the
  panics the program can raise, Rust's integer operations whose behaviour at the edges
  matters (\<open>saturating_sub\<close>, \<open>next_multiple_of\<close>), and the big-endian reading
  and writing of byte sequences together with its round trip.

  Arithmetic on \<open>'w word\<close> wraps around, as the integer operators of the release
  build do (\<^verbatim>\<open>Cargo.toml\<close> does not enable overflow checks in its release profile).
  A signed integer has the same bits as the unsigned one and is read with \<open>sint\<close>.
  The floating-point field values are kept as their IEEE bit patterns.
\<close>

section \<open>Machine integers\<close>

type_synonym u8 = "8 word"
type_synonym u16 = "16 word"
type_synonym u32 = "32 word"
type_synonym u64 = "64 word"
type_synonym i8 = "8 word"
type_synonym i16 = "16 word"
type_synonym i32 = "32 word"
type_synonym i64 = "64 word"
type_synonym f32 = "32 word"
type_synonym f64 = "64 word"
type_synonym usize = nat
type_synonym bytes = "u8 list"

section \<open>Panics\<close>

text \<open>One constructor for each place where the sources (or the standard library on their
  behalf) can abort a thread.\<close>

datatype panic =
    FieldTypeNotFound i8
  | UnsupportedIdSize u32
  | UnhandledRecordTag u8
  | UnhandledGcRecordTag u8
  | ObjectTypeInPrimitiveArray
  | DivideByZero
  | ProcessedBeyondFile usize usize
  | IncompleteWithUnknownSize
  | ParsingFailed
  | ReadBufferFailed
  | ChannelClosed
  | SliceOutOfRange
  | NotACharBoundary
  | EmptyResults
  | NextMultipleOfZero
  | MissingArgument
  | ClockBeforeEpoch

section \<open>Rust integer operations\<close>

definition saturating_sub :: "'w::len word \<Rightarrow> 'w word \<Rightarrow> 'w word" where
  "saturating_sub a b = (if a \<le> b then 0 else a - b)"

text \<open>Sequencing of computations that may panic.\<close>

definition try_then :: "'e + 'a \<Rightarrow> ('a \<Rightarrow> 'e + 'b) \<Rightarrow> 'e + 'b" where
  "try_then r f = (case r of Inl e \<Rightarrow> Inl e | Inr x \<Rightarrow> f x)"

text \<open>\<open>next_multiple_of\<close> panics on a zero divisor (remainder by zero); the addition wraps.\<close>

definition next_multiple_of :: "'w::len word \<Rightarrow> 'w word \<Rightarrow> panic + 'w word" where
  "next_multiple_of a b =
     (if b = 0 then Inl NextMultipleOfZero
      else if a mod b = 0 then Inr a else Inr (a + (b - a mod b)))"

text \<open>The least multiple of \<open>m\<close> that is not below \<open>a\<close>: what \<open>next_multiple_of\<close>
  promises where the result fits the width.\<close>

definition round_up :: "nat \<Rightarrow> nat \<Rightarrow> nat" where
  "round_up m a = (if a mod m = 0 then a else a + (m - a mod m))"

section \<open>Big-endian byte sequences\<close>

definition be_val :: "bytes \<Rightarrow> nat" where
  "be_val bs = foldl (\<lambda>a b. a * 256 + unat b) 0 bs"

fun be_enc :: "nat \<Rightarrow> nat \<Rightarrow> bytes" where
  "be_enc 0 n = []"
| "be_enc (Suc k) n = be_enc k (n div 256) @ [word_of_nat (n mod 256)]"

definition be_word :: "nat \<Rightarrow> 'w::len word \<Rightarrow> bytes" where
  "be_word k w = be_enc k (unat w)"

section \<open>Lemmas\<close>

named_theorems streaming_intros \<open>closure rules of the streaming-parser contract\<close>
named_theorems progress_intros \<open>closure rules of the parser-consumes-input contract\<close>
named_theorems roundtrip_simps \<open>parsing of encoded values\<close>
named_theorems code_defs \<open>definitions unfolded to evaluate the model\<close>

subsection \<open>Sequencing\<close>

lemma try_then_simps [simp]:
  "try_then (Inl e) f = Inl e" "try_then (Inr x) f = f x"
  by (simp_all add: try_then_def)

lemma try_then_Inr: "try_then r f = Inr y \<longleftrightarrow> (\<exists>x. r = Inr x \<and> f x = Inr y)"
  by (cases r) simp_all

lemma try_then_Inl: "try_then r f = Inl e \<longleftrightarrow> r = Inl e \<or> (\<exists>x. r = Inr x \<and> f x = Inl e)"
  by (cases r) simp_all

subsection \<open>Saturating subtraction\<close>

lemma unat_saturating_sub: "unat (saturating_sub a b) = unat a - unat b"
proof (cases "a \<le> b")
  case True
  then show ?thesis by (simp add: saturating_sub_def word_le_nat_alt)
next
  case False
  then have "b \<le> a" by simp
  with False show ?thesis by (simp add: saturating_sub_def unat_sub)
qed

subsection \<open>Rounding up to a multiple\<close>

lemma round_up_split:
  assumes "0 < m" and "a mod m \<noteq> 0"
  shows "round_up m a = m * Suc (a div m)"
proof -
  have "a mod m < m" using assms(1) by simp
  moreover have "a = m * (a div m) + a mod m" by simp
  ultimately have "a + (m - a mod m) = m * (a div m) + m" by linarith
  with assms(2) show ?thesis by (simp add: round_up_def)
qed

lemma round_up_dvd [simp]: "0 < m \<Longrightarrow> m dvd round_up m a"
  by (cases "a mod m = 0") (auto simp: round_up_split, simp add: round_up_def dvd_eq_mod_eq_0)

lemma round_up_ge: "a \<le> round_up m a"
  by (simp add: round_up_def)

lemma round_up_less: "0 < m \<Longrightarrow> round_up m a < a + m"
  by (auto simp: round_up_def)

lemma round_up_least:
  assumes "0 < m" and "a \<le> k" and "m dvd k"
  shows "round_up m a \<le> k"
proof (rule ccontr)
  assume "\<not> round_up m a \<le> k"
  then have lt: "k < round_up m a" by simp
  have "m dvd round_up m a - k" using assms by (simp add: dvd_diff_nat)
  moreover have "round_up m a - k < m" using round_up_less [OF assms(1), of a] assms(2) lt by simp
  moreover have "0 < round_up m a - k" using lt by simp
  ultimately show False using nat_dvd_not_less by blast
qed

lemma next_multiple_of_correct:
  assumes b: "b \<noteq> 0" and fits: "round_up (unat b) (unat a) < 2 ^ LENGTH('w)"
  shows "\<exists>c :: 'w::len word. next_multiple_of a b = Inr c \<and> unat c = round_up (unat b) (unat a)"
proof (cases "a mod b = 0")
  case True
  then have "unat a mod unat b = 0" by (metis unat_0 unat_mod)
  with True b show ?thesis by (simp add: next_multiple_of_def round_up_def)
next
  case False
  have pos: "0 < unat b" using b by (simp add: unat_gt_0)
  have ne: "unat a mod unat b \<noteq> 0" using False by (metis unat_eq_zero unat_mod)
  have "unat (a mod b) \<le> unat b" using pos by (simp add: unat_mod less_imp_le)
  then have "unat (b - a mod b) = unat b - unat a mod unat b"
    by (simp add: unat_sub word_le_nat_alt unat_mod)
  with fits ne have "unat (a + (b - a mod b)) = round_up (unat b) (unat a)"
    by (simp add: round_up_def unat_word_ariths)
  with False b show ?thesis by (simp add: next_multiple_of_def)
qed

subsection \<open>Sorted lists\<close>

lemma sorted_remdups_adj_distinct: "sorted xs \<Longrightarrow> distinct (remdups_adj xs)"
proof (induction xs rule: remdups_adj.induct)
  case (3 x y xs)
  then show ?case by (force simp: not_le)
qed auto

subsection \<open>Big-endian round trips\<close>

lemma be_val_Nil [simp]: "be_val [] = 0"
  by (simp add: be_val_def)

lemma be_val_snoc [simp]: "be_val (bs @ [b]) = be_val bs * 256 + unat b"
  by (simp add: be_val_def)

lemma be_val_bound: "be_val bs < 256 ^ length bs"
proof (induction bs rule: rev_induct)
  case (snoc b bs)
  have "unat b < 256" using unsigned_less [of b] by simp
  with snoc have "be_val bs * 256 + unat b < (be_val bs + 1) * 256" by simp
  also have "\<dots> \<le> 256 ^ length bs * 256" using snoc by (intro mult_le_mono) auto
  finally show ?case by (simp add: mult.commute)
qed simp

lemma length_be_enc [simp]: "length (be_enc k n) = k"
  by (induction k arbitrary: n) auto

lemma be_val_be_enc: "n < 256 ^ k \<Longrightarrow> be_val (be_enc k n) = n"
proof (induction k arbitrary: n)
  case (Suc k)
  then have "n div 256 < 256 ^ k" by (simp add: div_less_iff_less_mult mult.commute)
  with Suc.IH show ?case by (simp add: unat_of_nat)
qed simp

lemma be_enc_be_val: "be_enc (length bs) (be_val bs) = bs"
proof (induction bs rule: rev_induct)
  case (snoc b bs)
  have "unat b < 256" using unsigned_less [of b] by simp
  with snoc show ?case by simp
qed simp

lemma length_be_word [simp]: "length (be_word k w) = k"
  by (simp add: be_word_def)

lemma be_val_be_word:
  assumes "LENGTH('w) = 8 * k"
  shows "be_val (be_word k (w :: 'w::len word)) = unat w"
proof -
  have "unat w < 2 ^ LENGTH('w)" by (rule unsigned_less)
  then have "unat w < 256 ^ k" by (simp add: assms power_mult)
  then show ?thesis by (simp add: be_word_def be_val_be_enc)
qed

end
