(* ===== verification/Gc_Record.thy ===== *)
theory Gc_Record
  imports Slurp_Prelude
begin

text \<open>
  The data of \<^verbatim>\<open>src/parser/gc_record.rs\<close>: field types with their one-byte codes, field
  values, the sub-records of a heap dump segment and the contents of a class dump. The
  constructors of the three enums that share names in the source carry a prefix here
  (\<open>FT_\<close> for \<open>FieldType\<close>, \<open>FV_\<close> for \<open>FieldValue\<close>, \<open>AV_\<close> for \<open>ArrayValue\<close>),
  and record fields carry the initials of their struct.
\<close>

datatype field_type =
    FT_Object | FT_Bool | FT_Char | FT_Float | FT_Double | FT_Byte | FT_Short | FT_Int | FT_Long

text \<open>The discriminants of the enum.\<close>

fun field_type_value :: "field_type \<Rightarrow> i8" where
  "field_type_value FT_Object = 2"
| "field_type_value FT_Bool = 4"
| "field_type_value FT_Char = 5"
| "field_type_value FT_Float = 6"
| "field_type_value FT_Double = 7"
| "field_type_value FT_Byte = 8"
| "field_type_value FT_Short = 9"
| "field_type_value FT_Int = 10"
| "field_type_value FT_Long = 11"

definition from_value :: "i8 \<Rightarrow> panic + field_type" where
  "from_value v =
     (if v = 2 then Inr FT_Object
      else if v = 4 then Inr FT_Bool
      else if v = 5 then Inr FT_Char
      else if v = 6 then Inr FT_Float
      else if v = 7 then Inr FT_Double
      else if v = 8 then Inr FT_Byte
      else if v = 9 then Inr FT_Short
      else if v = 10 then Inr FT_Int
      else if v = 11 then Inr FT_Long
      else Inl (FieldTypeNotFound v))"

record const_field_info =
  cfi_const_pool_idx :: u16
  cfi_const_type :: field_type

record field_info =
  fi_name_id :: u64
  fi_field_type :: field_type

datatype field_value =
    FV_Bool bool
  | FV_Byte i8
  | FV_Char u16
  | FV_Short i16
  | FV_Int i32
  | FV_Long i64
  | FV_Float f32
  | FV_Double f64
  | FV_Object u64

datatype array_value =
    AV_Bool "bool list"
  | AV_Byte "i8 list"
  | AV_Char "u16 list"
  | AV_Short "i16 list"
  | AV_Int "i32 list"
  | AV_Long "i64 list"
  | AV_Float "f32 list"
  | AV_Double "f64 list"

record class_dump_fields =
  cdf_class_object_id :: u64
  cdf_stack_trace_serial_number :: u32
  cdf_super_class_object_id :: u64
  cdf_instance_size :: u32
  cdf_const_fields :: "(const_field_info \<times> field_value) list"
  cdf_static_fields :: "(field_info \<times> field_value) list"
  cdf_instance_fields :: "field_info list"

text \<open>The arguments of a constructor are the fields of the variant, in the order of the
  source.\<close>

datatype gc_record =
    RootUnknown u64
  | RootThreadObject u64 u32 u32
  | RootJniGlobal u64 u64
  | RootJniLocal u64 u32 u32
  | RootJavaFrame u64 u32 u32
  | RootNativeStack u64 u32
  | RootStickyClass u64
  | RootThreadBlock u64 u32
  | RootMonitorUsed u64
  | RootInternedString u64
  | RootFinalizing u64
  | RootDebugger u64
  | RootReferenceCleanup u64
  | RootVmInternal u64
  | RootJniMonitor u64 u32 u32
  | Unreachable u64
  | HeapDumpInfo u32 u64
  | PrimitiveArrayNoDataDump u64 u32 u32 field_type
  | InstanceDump u64 u32 u64 u32
  | ObjectArrayDump u64 u32 u32 u64
  | PrimitiveArrayDump u64 u32 u32 field_type
  | ClassDump class_dump_fields

definition class_dump_fields_new ::
  "u64 \<Rightarrow> u32 \<Rightarrow> u64 \<Rightarrow> u32 \<Rightarrow> (const_field_info \<times> field_value) list \<Rightarrow>
   (field_info \<times> field_value) list \<Rightarrow> field_info list \<Rightarrow> class_dump_fields" where
  "class_dump_fields_new cid sn super_id sz cfs sfs ifs =
     \<lparr>cdf_class_object_id = cid, cdf_stack_trace_serial_number = sn,
      cdf_super_class_object_id = super_id, cdf_instance_size = sz,
      cdf_const_fields = cfs, cdf_static_fields = sfs, cdf_instance_fields = ifs\<rparr>"

lemma from_value_field_type_value [simp]: "from_value (field_type_value t) = Inr t"
  by (cases t) (simp_all add: from_value_def)

lemma from_value_Inr: "from_value v = Inr t \<longleftrightarrow> v = field_type_value t"
  by (cases t) (auto simp: from_value_def split: if_splits)

lemma from_value_Inl: "from_value v = Inl e \<longleftrightarrow> e = FieldTypeNotFound v \<and> v \<notin> range field_type_value"
proof -
  have e: "from_value v = Inl e \<Longrightarrow> e = FieldTypeNotFound v" for e
    by (auto simp: from_value_def split: if_splits)
  have "(\<exists>e. from_value v = Inl e) \<longleftrightarrow> (\<nexists>t. from_value v = Inr t)"
    by (cases "from_value v") simp_all
  then show ?thesis using e by (auto simp: from_value_Inr)
qed

end
