(* ===== verification/Hprof_Record.thy ===== *)
theory Hprof_Record
  imports Gc_Record
begin

text \<open>The data of \<^verbatim>\<open>src/parser/record.rs\<close>: the top-level records of a dump. Record fields
  carry the initials of their struct. A Rust string is a \<open>string\<close> whose characters are its
  UTF-8 bytes.\<close>

record record_header =
  rh_timestamp :: u32
  rh_length :: u32

record allocation_site =
  as_is_array :: u8
  as_class_serial_number :: u32
  as_stack_trace_serial_number :: u32
  as_bytes_alive :: u32
  as_instances_alive :: u32
  as_bytes_allocated :: u32
  as_instances_allocated :: u32

record cpu_sample =
  cs_number_of_samples :: u32
  cs_stack_trace_serial_number :: u32

record stack_frame_data =
  sf_stack_frame_id :: u64
  sf_method_name_id :: u64
  sf_method_signature_id :: u64
  sf_source_file_name_id :: u64
  sf_class_serial_number :: u32
  sf_line_number :: i32

record stack_trace_data =
  st_serial_number :: u32
  st_thread_serial_number :: u32
  st_number_of_frames :: u32
  st_stack_frame_ids :: "u64 list"

record load_class_data =
  lc_serial_number :: u32
  lc_class_object_id :: u64
  lc_stack_trace_serial_number :: u32
  lc_class_name_id :: u64

text \<open>The arguments of a constructor are the fields of the variant, in the order of the
  source.\<close>

datatype hprof_record =
    Utf8String u64 string
  | LoadClass load_class_data
  | UnloadClass u32
  | StackFrame stack_frame_data
  | StackTrace stack_trace_data
  | AllocationSites u16 u32 u32 u32 u64 u64 u32 "allocation_site list"
  | StartThread u32 u64 u32 u64 u64 u64
  | EndThread u32
  | HeapSummary u32 u32 u64 u64
  | HeapDumpStart u32
  | HeapDumpEnd u32
  | ControlSettings u32 u16
  | CpuSamples u32 u32 "cpu_sample list"
  | GcSegment gc_record

end
