(* ===== verification/Nom_Interface.thy ===== *)
theory Nom_Interface
  imports Hprof_Record
begin

text \<open>
  The parser library \<^verbatim>\<open>nom\<close> is not part of the repository. Its result type \<open>IResult\<close> is
  written out here, its leaf parsers and its repetition combinator are the fields of a
  record \<open>nom\<close> that every parser of the model takes as an argument, and the locale
  \<open>nom_streaming\<close> states the documented behaviour of those fields that the program relies
  on. The combinators that only sequence two parsers (\<open>map\<close>, \<open>flat_map\<close>, \<open>preceded\<close>,
  \<open>terminated\<close>, tuples) and the \<open>?\<close>, \<open>and_then\<close> and \<open>map\<close> of Rust's
  \<open>Result\<close> are read as the sequencing of their results: the second parser runs on what
  the first one left, and anything but \<open>Ok\<close> ends the sequence.

  A panic inside a parser is a third kind of result, which no sequencing catches.

  The contract \<open>streaming\<close> is what makes incremental parsing sound: a success does not
  depend on the bytes after those it consumed, a panic does not depend on the bytes that
  follow, and an \<open>Incomplete\<close> result names a number of missing bytes below which the
  answer stays \<open>Incomplete\<close>.
\<close>

section \<open>Results\<close>

text \<open>\<open>nom::Needed\<close>, \<open>nom::error::ErrorKind\<close> (the one kind the sources name, and the
  others), \<open>nom::error::Error\<close> and \<open>nom::Err\<close>.\<close>

datatype needed = Unknown | Size usize

datatype error_kind = Many1 | OtherKind nat

datatype nom_error = NomError bytes error_kind

datatype nom_err = Incomplete needed | Error nom_error | Failure nom_error

datatype 'a iresult = Ok bytes 'a | Err nom_err | Panic panic

type_synonym 'a parser = "bytes \<Rightarrow> 'a iresult"

section \<open>Sequencing\<close>

definition p_return :: "'a \<Rightarrow> 'a parser" where
  "p_return x i = Ok i x"

definition p_panic :: "panic \<Rightarrow> 'a parser" where
  "p_panic e i = Panic e"

definition flat_map_p :: "'a parser \<Rightarrow> ('a \<Rightarrow> 'b parser) \<Rightarrow> 'b parser" where
  "flat_map_p p f i = (case p i of Ok r x \<Rightarrow> f x r | Err e \<Rightarrow> Err e | Panic e \<Rightarrow> Panic e)"

definition map_p :: "'a parser \<Rightarrow> ('a \<Rightarrow> 'b) \<Rightarrow> 'b parser" where
  "map_p p f i = (case p i of Ok r x \<Rightarrow> Ok r (f x) | Err e \<Rightarrow> Err e | Panic e \<Rightarrow> Panic e)"

text \<open>\<open>map\<close> with a function that may panic.\<close>

definition map_panicking_p :: "'a parser \<Rightarrow> ('a \<Rightarrow> panic + 'b) \<Rightarrow> 'b parser" where
  "map_panicking_p p f =
     flat_map_p p (\<lambda>x. case f x of Inl e \<Rightarrow> p_panic e | Inr y \<Rightarrow> p_return y)"

text \<open>A tuple of parsers is a nested pair: \<open>(p, q, r)\<close> is \<open>pair_p p (pair_p q r)\<close>.\<close>

definition pair_p :: "'a parser \<Rightarrow> 'b parser \<Rightarrow> ('a \<times> 'b) parser" where
  "pair_p p q = flat_map_p p (\<lambda>a. map_p q (\<lambda>b. (a, b)))"

definition preceded_p :: "'a parser \<Rightarrow> 'b parser \<Rightarrow> 'b parser" where
  "preceded_p p q = flat_map_p p (\<lambda>_. q)"

definition terminated_p :: "'a parser \<Rightarrow> 'b parser \<Rightarrow> 'a parser" where
  "terminated_p p q = flat_map_p p (\<lambda>a. map_p q (\<lambda>_. a))"

text \<open>Repetition as a specification, against which the \<open>count\<close> combinator is stated.\<close>

fun repeat_p :: "'a parser \<Rightarrow> nat \<Rightarrow> 'a list parser" where
  "repeat_p p 0 = p_return []"
| "repeat_p p (Suc n) = flat_map_p p (\<lambda>x. map_p (repeat_p p n) (\<lambda>xs. x # xs))"

section \<open>Contracts of parsers\<close>

definition streaming :: "'a parser \<Rightarrow> bool" where
  "streaming p \<longleftrightarrow> (\<forall>i. case p i of
       Ok r x \<Rightarrow> \<exists>c. i = c @ r \<and> (\<forall>j. p (c @ j) = Ok j x)
     | Err e \<Rightarrow> \<exists>n. 0 < n \<and> e = Incomplete (Size n) \<and>
         (\<forall>j. length j < n \<longrightarrow> p (i @ j) = Err (Incomplete (Size (n - length j))))
     | Panic e \<Rightarrow> \<forall>j. p (i @ j) = Panic e)"

text \<open>A successful run consumes at least \<open>k\<close> bytes.\<close>

definition consumes :: "nat \<Rightarrow> 'a parser \<Rightarrow> bool" where
  "consumes k p \<longleftrightarrow> (\<forall>i r x. p i = Ok r x \<longrightarrow> length r + k \<le> length i)"

text \<open>The only panics of a parser are in a given set.\<close>

definition panics_in :: "panic set \<Rightarrow> 'a parser \<Rightarrow> bool" where
  "panics_in E p \<longleftrightarrow> (\<forall>i e. p i = Panic e \<longrightarrow> e \<in> E)"

section \<open>Documented behaviour of the leaf parsers\<close>

definition fixed_width_be :: "nat \<Rightarrow> 'w::len word parser \<Rightarrow> bool" where
  "fixed_width_be k p \<longleftrightarrow> (\<forall>i. p i =
     (if length i < k then Err (Incomplete (Size (k - length i)))
      else Ok (drop k i) (word_of_nat (be_val (take k i)))))"

definition count_law :: "('a parser \<Rightarrow> nat \<Rightarrow> 'a list parser) \<Rightarrow> bool" where
  "count_law cnt \<longleftrightarrow> (\<forall>p n i. (\<nexists>e. repeat_p p n i = Err (Error e)) \<longrightarrow> cnt p n i = repeat_p p n i)"

section \<open>The library as a parameter\<close>

text \<open>The leaf parsers of \<open>nom::number::streaming\<close> and \<open>nom::bytes::streaming\<close>, the
  combinator \<open>nom::multi::count\<close> at the element types the sources use it at, and the two
  methods of the trait \<open>nom::error::ParseError\<close>.\<close>

record nom =
  be_u8 :: "u8 parser"
  be_u16 :: "u16 parser"
  be_u32 :: "u32 parser"
  be_u64 :: "u64 parser"
  be_i8 :: "i8 parser"
  be_i16 :: "i16 parser"
  be_i32 :: "i32 parser"
  be_i64 :: "i64 parser"
  be_f32 :: "f32 parser"
  be_f64 :: "f64 parser"
  nom_take :: "usize \<Rightarrow> bytes parser"
  nom_take_until :: "bytes \<Rightarrow> bytes parser"
  nom_tag :: "bytes \<Rightarrow> bytes parser"
  count_u8 :: "u8 parser \<Rightarrow> usize \<Rightarrow> u8 list parser"
  count_u16 :: "u16 parser \<Rightarrow> usize \<Rightarrow> u16 list parser"
  count_u32 :: "u32 parser \<Rightarrow> usize \<Rightarrow> u32 list parser"
  count_u64 :: "u64 parser \<Rightarrow> usize \<Rightarrow> u64 list parser"
  count_const :: "(const_field_info \<times> field_value) parser \<Rightarrow> usize \<Rightarrow> (const_field_info \<times> field_value) list parser"
  count_static :: "(field_info \<times> field_value) parser \<Rightarrow> usize \<Rightarrow> (field_info \<times> field_value) list parser"
  count_field :: "field_info parser \<Rightarrow> usize \<Rightarrow> field_info list parser"
  count_site :: "allocation_site parser \<Rightarrow> usize \<Rightarrow> allocation_site list parser"
  count_sample :: "cpu_sample parser \<Rightarrow> usize \<Rightarrow> cpu_sample list parser"
  error_append :: "bytes \<Rightarrow> error_kind \<Rightarrow> nom_error \<Rightarrow> nom_error"
  error_from_kind :: "bytes \<Rightarrow> error_kind \<Rightarrow> nom_error"

section \<open>Lemmas on sequencing\<close>

lemmas sequencing_defs =
  p_return_def p_panic_def flat_map_p_def map_p_def map_panicking_p_def pair_p_def
  preceded_p_def terminated_p_def

lemma map_p_flat_map: "map_p p f = flat_map_p p (\<lambda>x. p_return (f x))"
  by (rule ext) (simp add: map_p_def flat_map_p_def p_return_def split: iresult.split)

subsection \<open>The streaming contract\<close>

lemma streamingI [case_names Ok Err Panic]:
  assumes "\<And>i r x. p i = Ok r x \<Longrightarrow> \<exists>c. i = c @ r \<and> (\<forall>j. p (c @ j) = Ok j x)"
    and "\<And>i e. p i = Err e \<Longrightarrow> \<exists>n. 0 < n \<and> e = Incomplete (Size n) \<and>
         (\<forall>j. length j < n \<longrightarrow> p (i @ j) = Err (Incomplete (Size (n - length j))))"
    and "\<And>i e j. p i = Panic e \<Longrightarrow> p (i @ j) = Panic e"
  shows "streaming p"
  unfolding streaming_def using assms by (auto split: iresult.split)

lemma streaming_Ok:
  assumes "streaming p" and "p i = Ok r x"
  obtains c where "i = c @ r" and "\<And>j. p (c @ j) = Ok j x"
  using assms(1) [unfolded streaming_def, rule_format, of i] assms(2) by auto

lemma streaming_Err:
  assumes "streaming p" and "p i = Err e"
  obtains n where "0 < n" and "e = Incomplete (Size n)"
    and "\<And>j. length j < n \<Longrightarrow> p (i @ j) = Err (Incomplete (Size (n - length j)))"
  using assms(1) [unfolded streaming_def, rule_format, of i] assms(2) by auto

lemma streaming_Panic: "streaming p \<Longrightarrow> p i = Panic e \<Longrightarrow> p (i @ j) = Panic e"
  unfolding streaming_def by (auto dest!: spec [of _ i])

lemma streaming_Ok_append: "streaming p \<Longrightarrow> p i = Ok r x \<Longrightarrow> p (i @ j) = Ok (r @ j) x"
  by (erule streaming_Ok) auto

lemma streaming_Ok_length: "streaming p \<Longrightarrow> p i = Ok r x \<Longrightarrow> length r \<le> length i"
  by (erule streaming_Ok) auto

lemma streaming_return [streaming_intros, simp]: "streaming (p_return x)"
  by (rule streamingI) (auto simp: p_return_def)

lemma streaming_panic [streaming_intros, simp]: "streaming (p_panic e)"
  by (rule streamingI) (auto simp: p_panic_def)

lemma streaming_flat_map [streaming_intros]:
  assumes p: "streaming p" and f: "\<And>x. streaming (f x)"
  shows "streaming (flat_map_p p f)"
proof (rule streamingI)
  fix i r y
  assume "flat_map_p p f i = Ok r y"
  then obtain m x where m: "p i = Ok m x" and y: "f x m = Ok r y"
    by (auto simp: flat_map_p_def split: iresult.splits)
  obtain c where c: "i = c @ m" "\<And>j. p (c @ j) = Ok j x" using streaming_Ok [OF p m] by blast
  obtain d where d: "m = d @ r" "\<And>j. f x (d @ j) = Ok j y" using streaming_Ok [OF f y] by blast
  have "flat_map_p p f ((c @ d) @ j) = Ok j y" for j
    using c(2) [of "d @ j"] d(2) by (simp add: flat_map_p_def)
  with c(1) d(1) show "\<exists>c. i = c @ r \<and> (\<forall>j. flat_map_p p f (c @ j) = Ok j y)"
    by (intro exI [of _ "c @ d"]) simp
next
  fix i e
  assume err: "flat_map_p p f i = Err e"
  show "\<exists>n. 0 < n \<and> e = Incomplete (Size n) \<and>
    (\<forall>j. length j < n \<longrightarrow> flat_map_p p f (i @ j) = Err (Incomplete (Size (n - length j))))"
  proof (cases "p i")
    case (Ok m x)
    with err have "f x m = Err e" by (simp add: flat_map_p_def)
    from streaming_Err [OF f this] obtain n where "0 < n" "e = Incomplete (Size n)"
      "\<And>j. length j < n \<Longrightarrow> f x (m @ j) = Err (Incomplete (Size (n - length j)))"
      by blast
    then show ?thesis
      using streaming_Ok_append [OF p Ok] by (auto simp: flat_map_p_def intro!: exI [of _ n])
  next
    case (Err e')
    with err have "p i = Err e" by (simp add: flat_map_p_def)
    from streaming_Err [OF p this] obtain n where "0 < n" "e = Incomplete (Size n)"
      "\<And>j. length j < n \<Longrightarrow> p (i @ j) = Err (Incomplete (Size (n - length j)))"
      by blast
    then show ?thesis by (auto simp: flat_map_p_def intro!: exI [of _ n])
  next
    case (Panic e')
    with err show ?thesis by (simp add: flat_map_p_def)
  qed
next
  fix i e j
  assume pan: "flat_map_p p f i = Panic e"
  show "flat_map_p p f (i @ j) = Panic e"
  proof (cases "p i")
    case (Ok m x)
    with pan have "f x m = Panic e" by (simp add: flat_map_p_def)
    then show ?thesis
      using streaming_Ok_append [OF p Ok, of j] streaming_Panic [OF f]
      by (simp add: flat_map_p_def)
  next
    case (Panic e')
    with pan show ?thesis using streaming_Panic [OF p, of i e j] by (simp add: flat_map_p_def)
  qed (use pan in \<open>simp_all add: flat_map_p_def\<close>)
qed

lemma streaming_map [streaming_intros]: "streaming p \<Longrightarrow> streaming (map_p p f)"
  unfolding map_p_flat_map by (intro streaming_intros)

lemma streaming_pair [streaming_intros]: "streaming p \<Longrightarrow> streaming q \<Longrightarrow> streaming (pair_p p q)"
  unfolding pair_p_def by (intro streaming_intros)

lemma streaming_preceded [streaming_intros]:
  "streaming p \<Longrightarrow> streaming q \<Longrightarrow> streaming (preceded_p p q)"
  unfolding preceded_p_def by (intro streaming_intros)

lemma streaming_map_panicking [streaming_intros]: "streaming p \<Longrightarrow> streaming (map_panicking_p p f)"
  unfolding map_panicking_p_def
  by (intro streaming_intros) (auto split: sum.split intro: streaming_intros)

lemma streaming_repeat [streaming_intros]: "streaming p \<Longrightarrow> streaming (repeat_p p n)"
  by (induction n) (auto intro: streaming_intros)

lemma streaming_if [streaming_intros]:
  "(b \<Longrightarrow> streaming p) \<Longrightarrow> (\<not> b \<Longrightarrow> streaming q) \<Longrightarrow> streaming (if b then p else q)"
  by simp

lemma streaming_case_prod [streaming_intros]:
  "(\<And>a b. streaming (f a b)) \<Longrightarrow> streaming (case_prod f x)"
  by (cases x) simp

lemma streaming_no_error: "streaming p \<Longrightarrow> p i \<noteq> Err (Error e)"
  by (metis streaming_Err nom_err.distinct(1))

lemma count_law_streaming: "count_law cnt \<Longrightarrow> streaming p \<Longrightarrow> cnt p n = repeat_p p n"
  by (rule ext) (simp add: count_law_def streaming_no_error [OF streaming_repeat])

subsection \<open>Progress\<close>

lemma consumesD: "consumes k p \<Longrightarrow> p i = Ok r x \<Longrightarrow> length r + k \<le> length i"
  by (simp add: consumes_def)

lemma streaming_consumes_0 [progress_intros]: "streaming p \<Longrightarrow> consumes 0 p"
  by (simp add: consumes_def streaming_Ok_length)

lemma consumes_flat_map [progress_intros]:
  assumes "consumes k p" and "\<And>x. consumes l (f x)"
  shows "consumes (k + l) (flat_map_p p f)"
  unfolding consumes_def flat_map_p_def
  using assms by (fastforce simp: consumes_def split: iresult.splits)

subsection \<open>Panics\<close>

lemma panics_in_flat_map [progress_intros]:
  "panics_in E p \<Longrightarrow> (\<And>x. panics_in E (f x)) \<Longrightarrow> panics_in E (flat_map_p p f)"
  unfolding panics_in_def flat_map_p_def by (fastforce split: iresult.splits)

lemma panics_in_return [progress_intros, simp]: "panics_in E (p_return x)"
  by (simp add: panics_in_def p_return_def)

lemma panics_in_panic [progress_intros]: "e \<in> E \<Longrightarrow> panics_in E (p_panic e)"
  by (simp add: panics_in_def p_panic_def)

lemma panics_in_map [progress_intros]: "panics_in E p \<Longrightarrow> panics_in E (map_p p f)"
  unfolding map_p_flat_map by (intro progress_intros)

lemma panics_in_pair [progress_intros]:
  "panics_in E p \<Longrightarrow> panics_in E q \<Longrightarrow> panics_in E (pair_p p q)"
  unfolding pair_p_def by (intro progress_intros)

lemma panics_in_preceded [progress_intros]:
  "panics_in E p \<Longrightarrow> panics_in E q \<Longrightarrow> panics_in E (preceded_p p q)"
  unfolding preceded_p_def by (intro progress_intros)

lemma panics_in_if [progress_intros]:
  "(b \<Longrightarrow> panics_in E p) \<Longrightarrow> (\<not> b \<Longrightarrow> panics_in E q) \<Longrightarrow> panics_in E (if b then p else q)"
  by simp

lemma panics_in_case_prod [progress_intros]:
  "(\<And>a b. panics_in E (f a b)) \<Longrightarrow> panics_in E (case_prod f x)"
  by (cases x) simp

lemma panics_in_map_panicking [progress_intros]:
  "panics_in E p \<Longrightarrow> (\<And>x e. f x = Inl e \<Longrightarrow> e \<in> E) \<Longrightarrow> panics_in E (map_panicking_p p f)"
  unfolding map_panicking_p_def
  by (intro progress_intros) (auto split: sum.split intro: progress_intros)

lemma panics_in_repeat [progress_intros]: "panics_in E p \<Longrightarrow> panics_in E (repeat_p p n)"
  by (induction n) (auto intro!: progress_intros)

subsection \<open>Leaf parsers\<close>

lemma fixed_width_be_Ok:
  "fixed_width_be k p \<Longrightarrow> length c = k \<Longrightarrow> p (c @ j) = Ok j (word_of_nat (be_val c))"
  by (simp add: fixed_width_be_def)

lemma fixed_width_be_word [roundtrip_simps]:
  assumes "fixed_width_be k (p :: 'w::len word parser)" and "LENGTH('w) = 8 * k"
  shows "p (be_word k w @ j) = Ok j w"
  using fixed_width_be_Ok [OF assms(1), of "be_word k w" j] be_val_be_word [OF assms(2), of w]
  by simp

lemma streaming_fixed_width_be: "fixed_width_be k p \<Longrightarrow> streaming p"
proof (rule streamingI)
  fix i r x
  assume "fixed_width_be k p" "p i = Ok r x"
  then show "\<exists>c. i = c @ r \<and> (\<forall>j. p (c @ j) = Ok j x)"
    by (intro exI [of _ "take k i"]) (auto simp: fixed_width_be_def split: if_splits)
qed (auto simp: fixed_width_be_def split: if_splits)

lemma consumes_fixed_width_be: "fixed_width_be k p \<Longrightarrow> consumes k p"
  by (auto simp: consumes_def fixed_width_be_def split: if_splits)

lemma panics_in_fixed_width_be: "fixed_width_be k p \<Longrightarrow> panics_in E p"
  by (auto simp: panics_in_def fixed_width_be_def)

section \<open>The interface\<close>

text \<open>What the program relies on of the library. \<open>take\<close> and \<open>tag\<close> report how many bytes
  are missing; \<open>take_until\<close> cannot and answers \<open>Unknown\<close>. Its law is needed for one-byte
  patterns only.\<close>

definition take_law :: "(usize \<Rightarrow> bytes parser) \<Rightarrow> bool" where
  "take_law t \<longleftrightarrow> (\<forall>n i. t n i =
     (if length i < n then Err (Incomplete (Size (n - length i))) else Ok (drop n i) (take n i)))"

definition take_until_law :: "(bytes \<Rightarrow> bytes parser) \<Rightarrow> bool" where
  "take_until_law t \<longleftrightarrow> (\<forall>b i. t [b] i =
     (if b \<in> set i then Ok (dropWhile (\<lambda>c. c \<noteq> b) i) (takeWhile (\<lambda>c. c \<noteq> b) i)
      else Err (Incomplete Unknown)))"

definition tag_law :: "(bytes \<Rightarrow> bytes parser) \<Rightarrow> bool" where
  "tag_law t \<longleftrightarrow> (\<forall>b i. t [b] (b # i) = Ok i [b])"

locale nom_streaming =
  fixes N :: nom
  assumes u8_law: "fixed_width_be 1 (be_u8 N)"
    and u16_law: "fixed_width_be 2 (be_u16 N)"
    and u32_law: "fixed_width_be 4 (be_u32 N)"
    and u64_law: "fixed_width_be 8 (be_u64 N)"
    and i8_law: "fixed_width_be 1 (be_i8 N)"
    and i16_law: "fixed_width_be 2 (be_i16 N)"
    and i32_law: "fixed_width_be 4 (be_i32 N)"
    and i64_law: "fixed_width_be 8 (be_i64 N)"
    and f32_law: "fixed_width_be 4 (be_f32 N)"
    and f64_law: "fixed_width_be 8 (be_f64 N)"
    and take_ok: "take_law (nom_take N)"
    and take_until_ok: "take_until_law (nom_take_until N)"
    and tag_ok: "tag_law (nom_tag N)"
    and count_u8_law: "count_law (count_u8 N)"
    and count_u16_law: "count_law (count_u16 N)"
    and count_u32_law: "count_law (count_u32 N)"
    and count_u64_law: "count_law (count_u64 N)"
    and count_const_law: "count_law (count_const N)"
    and count_static_law: "count_law (count_static N)"
    and count_field_law: "count_law (count_field N)"
    and count_site_law: "count_law (count_site N)"
    and count_sample_law: "count_law (count_sample N)"
begin

lemmas be_laws = u8_law u16_law u32_law u64_law i8_law i16_law i32_law i64_law f32_law f64_law

lemmas count_laws = count_u8_law count_u16_law count_u32_law count_u64_law count_const_law
  count_static_law count_field_law count_site_law count_sample_law

lemmas streaming_be [streaming_intros] = be_laws [THEN streaming_fixed_width_be]

lemmas count_repeat = count_laws [THEN count_law_streaming]

lemma streaming_count [streaming_intros]:
  "streaming p1 \<Longrightarrow> streaming (count_u8 N p1 n)"
  "streaming p2 \<Longrightarrow> streaming (count_u16 N p2 n)"
  "streaming p3 \<Longrightarrow> streaming (count_u32 N p3 n)"
  "streaming p4 \<Longrightarrow> streaming (count_u64 N p4 n)"
  "streaming p5 \<Longrightarrow> streaming (count_const N p5 n)"
  "streaming p6 \<Longrightarrow> streaming (count_static N p6 n)"
  "streaming p7 \<Longrightarrow> streaming (count_field N p7 n)"
  "streaming p8 \<Longrightarrow> streaming (count_site N p8 n)"
  "streaming p9 \<Longrightarrow> streaming (count_sample N p9 n)"
  by (simp_all add: count_repeat streaming_repeat)

lemma panics_count [progress_intros]:
  "streaming p4 \<Longrightarrow> panics_in E p4 \<Longrightarrow> panics_in E (count_u64 N p4 n)"
  "streaming p5 \<Longrightarrow> panics_in E p5 \<Longrightarrow> panics_in E (count_const N p5 n)"
  "streaming p6 \<Longrightarrow> panics_in E p6 \<Longrightarrow> panics_in E (count_static N p6 n)"
  "streaming p7 \<Longrightarrow> panics_in E p7 \<Longrightarrow> panics_in E (count_field N p7 n)"
  "streaming p8 \<Longrightarrow> panics_in E p8 \<Longrightarrow> panics_in E (count_site N p8 n)"
  "streaming p9 \<Longrightarrow> panics_in E p9 \<Longrightarrow> panics_in E (count_sample N p9 n)"
  by (simp_all add: count_repeat panics_in_repeat)

lemma streaming_take [streaming_intros]: "streaming (nom_take N n)"
proof (rule streamingI)
  fix i r x
  assume "nom_take N n i = Ok r x"
  then show "\<exists>c. i = c @ r \<and> (\<forall>j. nom_take N n (c @ j) = Ok j x)"
    using take_ok by (intro exI [of _ "take n i"]) (auto simp: take_law_def split: if_splits)
qed (use take_ok in \<open>auto simp: take_law_def split: if_splits\<close>)

lemma take_append [roundtrip_simps]: "length c = n \<Longrightarrow> nom_take N n (c @ j) = Ok j c"
  using take_ok by (simp add: take_law_def)

end

section \<open>A library with the documented behaviour\<close>

text \<open>An implementation of the interface, on which the model can be evaluated.\<close>

definition ref_be :: "nat \<Rightarrow> 'w::len word parser" where
  "ref_be k i = (if length i < k then Err (Incomplete (Size (k - length i)))
     else Ok (drop k i) (word_of_nat (be_val (take k i))))"

definition ref_take :: "usize \<Rightarrow> bytes parser" where
  "ref_take n i =
     (if length i < n then Err (Incomplete (Size (n - length i))) else Ok (drop n i) (take n i))"

definition ref_take_until :: "bytes \<Rightarrow> bytes parser" where
  "ref_take_until pat i =
     (if hd pat \<in> set i
      then Ok (dropWhile (\<lambda>c. c \<noteq> hd pat) i) (takeWhile (\<lambda>c. c \<noteq> hd pat) i)
      else Err (Incomplete Unknown))"

definition ref_tag :: "bytes \<Rightarrow> bytes parser" where
  "ref_tag pat i =
     (if length i < length pat then Err (Incomplete (Size (length pat - length i)))
      else if take (length pat) i = pat then Ok (drop (length pat) i) pat
      else Err (Error (NomError i (OtherKind 0))))"

definition nom_ref :: nom where
  "nom_ref = \<lparr>be_u8 = ref_be 1, be_u16 = ref_be 2, be_u32 = ref_be 4, be_u64 = ref_be 8,
     be_i8 = ref_be 1, be_i16 = ref_be 2, be_i32 = ref_be 4, be_i64 = ref_be 8,
     be_f32 = ref_be 4, be_f64 = ref_be 8,
     nom_take = ref_take, nom_take_until = ref_take_until, nom_tag = ref_tag,
     count_u8 = repeat_p, count_u16 = repeat_p, count_u32 = repeat_p, count_u64 = repeat_p,
     count_const = repeat_p, count_static = repeat_p, count_field = repeat_p,
     count_site = repeat_p, count_sample = repeat_p,
     error_append = (\<lambda>i k e. e), error_from_kind = NomError\<rparr>"

lemma fixed_width_ref_be: "fixed_width_be k (ref_be k)"
  by (simp add: fixed_width_be_def ref_be_def)

lemma count_law_repeat: "count_law repeat_p"
  by (simp add: count_law_def)

interpretation ref: nom_streaming nom_ref
  by unfold_locales
    (simp_all add: nom_ref_def fixed_width_ref_be count_law_repeat take_law_def ref_take_def
      take_until_law_def ref_take_until_def tag_law_def ref_tag_def)

end
