(* ===== verification/Primitive_Parsers.thy ===== *)
theory Primitive_Parsers
  imports Nom_Interface
begin

text \<open>The wrappers of \<^verbatim>\<open>src/parser/primitive_parsers.rs\<close> around the library's streaming leaf
  parsers, with the contracts the record parsers build on.\<close>

definition parse_c_string :: "nom \<Rightarrow> bytes parser" where
  "parse_c_string N = terminated_p (nom_take_until N [0]) (nom_tag N [0])"

definition parse_i8 :: "nom \<Rightarrow> i8 parser" where
  "parse_i8 N = be_i8 N"

definition parse_i16 :: "nom \<Rightarrow> i16 parser" where
  "parse_i16 N = be_i16 N"

definition parse_i32 :: "nom \<Rightarrow> i32 parser" where
  "parse_i32 N = be_i32 N"

definition parse_i64 :: "nom \<Rightarrow> i64 parser" where
  "parse_i64 N = be_i64 N"

definition parse_u16 :: "nom \<Rightarrow> u16 parser" where
  "parse_u16 N = be_u16 N"

definition parse_u32 :: "nom \<Rightarrow> u32 parser" where
  "parse_u32 N = be_u32 N"

definition parse_u64 :: "nom \<Rightarrow> u64 parser" where
  "parse_u64 N = be_u64 N"

definition parse_f32 :: "nom \<Rightarrow> f32 parser" where
  "parse_f32 N = be_f32 N"

definition parse_f64 :: "nom \<Rightarrow> f64 parser" where
  "parse_f64 N = be_f64 N"

definition parse_u8 :: "nom \<Rightarrow> u8 parser" where
  "parse_u8 N = be_u8 N"

lemmas primitive_defs = parse_i8_def parse_i16_def parse_i32_def parse_i64_def parse_u16_def
  parse_u32_def parse_u64_def parse_f32_def parse_f64_def parse_u8_def

context nom_streaming
begin

lemma primitive_laws:
  "fixed_width_be 1 (parse_u8 N)" "fixed_width_be 2 (parse_u16 N)"
  "fixed_width_be 4 (parse_u32 N)" "fixed_width_be 8 (parse_u64 N)"
  "fixed_width_be 1 (parse_i8 N)" "fixed_width_be 2 (parse_i16 N)"
  "fixed_width_be 4 (parse_i32 N)" "fixed_width_be 8 (parse_i64 N)"
  "fixed_width_be 4 (parse_f32 N)" "fixed_width_be 8 (parse_f64 N)"
  by (simp_all only: primitive_defs be_laws)

lemmas streaming_primitives [streaming_intros] = primitive_laws [THEN streaming_fixed_width_be]

lemmas consumes_primitives = primitive_laws [THEN consumes_fixed_width_be]

lemmas panics_primitives [progress_intros] = primitive_laws [THEN panics_in_fixed_width_be]

lemma panics_take [progress_intros]: "panics_in E (nom_take N n)"
  using take_ok by (simp add: panics_in_def take_law_def)

lemma parse_primitive_word [roundtrip_simps]:
  "parse_u16 N (be_word 2 w16 @ j) = Ok j w16"
  "parse_u32 N (be_word 4 w32 @ j) = Ok j w32"
  "parse_u64 N (be_word 8 w64 @ j) = Ok j w64"
  "parse_i16 N (be_word 2 w16 @ j) = Ok j w16"
  "parse_i32 N (be_word 4 w32 @ j) = Ok j w32"
  "parse_i64 N (be_word 8 w64 @ j) = Ok j w64"
  "parse_f32 N (be_word 4 w32 @ j) = Ok j w32"
  "parse_f64 N (be_word 8 w64 @ j) = Ok j w64"
  by (rule fixed_width_be_word, rule primitive_laws, simp)+

lemma parse_byte [roundtrip_simps]:
  "parse_u8 N (w # j) = Ok j w" "parse_i8 N (w # j) = Ok j w"
  using primitive_laws(1,5) by (simp_all add: fixed_width_be_def be_val_def)

lemma parse_c_string_append [roundtrip_simps]:
  assumes "0 \<notin> set s"
  shows "parse_c_string N (s @ 0 # j) = Ok j s"
proof -
  have "takeWhile (\<lambda>c. c \<noteq> 0) (s @ 0 # j) = s" "dropWhile (\<lambda>c. c \<noteq> 0) (s @ 0 # j) = 0 # j"
    using assms by (auto simp: takeWhile_tail dropWhile_append3)
  then have "nom_take_until N [0] (s @ 0 # j) = Ok (0 # j) s"
    using take_until_ok by (simp add: take_until_law_def)
  moreover have "nom_tag N [0] (0 # j) = Ok j [0]" using tag_ok by (simp add: tag_law_def)
  ultimately show ?thesis by (simp add: parse_c_string_def terminated_p_def flat_map_p_def map_p_def)
qed

text \<open>The result of a successful run splits the input at its first zero byte.\<close>

lemma parse_c_string_Ok:
  assumes "parse_c_string N i = Ok r s"
  shows "i = s @ 0 # r \<and> 0 \<notin> set s"
proof -
  have z: "0 \<in> set i"
    using assms take_until_ok
    by (auto simp: parse_c_string_def terminated_p_def flat_map_p_def take_until_law_def
        split: if_splits iresult.splits)
  then obtain s' r' where i: "i = s' @ 0 # r'" and "0 \<notin> set s'" by (metis split_list_first)
  with parse_c_string_append [of s' r'] assms show ?thesis by simp
qed

end

end
