(* ===== verification/Rust_Strings.thy ===== *)
theory Rust_Strings
  imports Slurp_Prelude
begin

text \<open>
  The parts of Rust's string library the program uses, on strings that are lists of UTF-8
  bytes: the lossy decoding of \<open>String::from_utf8_lossy\<close>, the number of characters
  (\<open>chars().count()\<close>), byte-range slicing with its two panics, replacement of one character,
  and the decimal and hexadecimal renderings of integers.
\<close>

unbundle bit_operations_syntax

section \<open>UTF-8\<close>

text \<open>The chunk scanner of the standard library: on a non-empty input, whether the first
  bytes form a character, and how many bytes it or the maximal invalid prefix has. Reading
  behind the end gives the byte 0.\<close>

definition byte_at :: "bytes \<Rightarrow> nat \<Rightarrow> u8" where
  "byte_at bs k = (if k < length bs then bs ! k else 0)"

definition is_cont :: "u8 \<Rightarrow> bool" where
  "is_cont b \<longleftrightarrow> b AND 192 = 128"

definition utf8_char_width :: "u8 \<Rightarrow> nat" where
  "utf8_char_width b =
     (if b < 0x80 then 1
      else if 0xC2 \<le> b \<and> b \<le> 0xDF then 2
      else if 0xE0 \<le> b \<and> b \<le> 0xEF then 3
      else if 0xF0 \<le> b \<and> b \<le> 0xF4 then 4
      else 0)"

definition second_of_3 :: "u8 \<Rightarrow> u8 \<Rightarrow> bool" where
  "second_of_3 b c \<longleftrightarrow>
     b = 0xE0 \<and> 0xA0 \<le> c \<and> c \<le> 0xBF \<or>
     0xE1 \<le> b \<and> b \<le> 0xEC \<and> 0x80 \<le> c \<and> c \<le> 0xBF \<or>
     b = 0xED \<and> 0x80 \<le> c \<and> c \<le> 0x9F \<or>
     0xEE \<le> b \<and> b \<le> 0xEF \<and> 0x80 \<le> c \<and> c \<le> 0xBF"

definition second_of_4 :: "u8 \<Rightarrow> u8 \<Rightarrow> bool" where
  "second_of_4 b c \<longleftrightarrow>
     b = 0xF0 \<and> 0x90 \<le> c \<and> c \<le> 0xBF \<or>
     0xF1 \<le> b \<and> b \<le> 0xF3 \<and> 0x80 \<le> c \<and> c \<le> 0xBF \<or>
     b = 0xF4 \<and> 0x80 \<le> c \<and> c \<le> 0x8F"

definition utf8_step :: "bytes \<Rightarrow> bool \<times> nat" where
  "utf8_step bs =
     (let b = byte_at bs 0; w = utf8_char_width b in
      if w = 1 then (True, 1)
      else if w = 2 then
        (if is_cont (byte_at bs 1) then (True, 2) else (False, 1))
      else if w = 3 then
        (if \<not> second_of_3 b (byte_at bs 1) then (False, 1)
         else if \<not> is_cont (byte_at bs 2) then (False, 2) else (True, 3))
      else if w = 4 then
        (if \<not> second_of_4 b (byte_at bs 1) then (False, 1)
         else if \<not> is_cont (byte_at bs 2) then (False, 2)
         else if \<not> is_cont (byte_at bs 3) then (False, 3) else (True, 4))
      else (False, 1))"

definition replacement_character :: bytes where
  "replacement_character = [0xEF, 0xBF, 0xBD]"

lemma utf8_step_pos: "0 < snd (utf8_step bs)"
  by (simp add: utf8_step_def Let_def)

lemma utf8_step_decreases: "(ok, n) = utf8_step bs \<Longrightarrow> 0 < n"
  using utf8_step_pos [of bs] by (metis snd_conv)

function utf8_lossy :: "bytes \<Rightarrow> bytes" where
  "utf8_lossy bs =
     (if bs = [] then []
      else (case utf8_step bs of (ok, n) \<Rightarrow>
        (if ok then take n bs else replacement_character) @ utf8_lossy (drop n bs)))"
  by pat_completeness auto
termination
  by (relation "measure length") (auto dest: utf8_step_decreases)

function valid_utf8 :: "bytes \<Rightarrow> bool" where
  "valid_utf8 bs =
     (if bs = [] then True
      else (case utf8_step bs of (ok, n) \<Rightarrow> if ok then valid_utf8 (drop n bs) else False))"
  by pat_completeness auto
termination
  by (relation "measure length") (auto dest: utf8_step_decreases)

declare utf8_lossy.simps [simp del] valid_utf8.simps [simp del]

text \<open>Strings and their bytes.\<close>

definition bytes_of_string :: "string \<Rightarrow> bytes" where
  "bytes_of_string s = map of_char s"

definition string_of_bytes :: "bytes \<Rightarrow> string" where
  "string_of_bytes bs = map (\<lambda>b. char_of (unat b)) bs"

definition from_utf8_lossy :: "bytes \<Rightarrow> string" where
  "from_utf8_lossy bs = string_of_bytes (utf8_lossy bs)"

section \<open>Slices and characters\<close>

definition is_char_boundary :: "string \<Rightarrow> nat \<Rightarrow> bool" where
  "is_char_boundary s k \<longleftrightarrow>
     k = length s \<or> k < length s \<and> \<not> is_cont (of_char (s ! k))"

text \<open>\<open>s[a..b]\<close>\<close>

definition str_slice :: "string \<Rightarrow> nat \<Rightarrow> nat \<Rightarrow> panic + string" where
  "str_slice s a b =
     (if b < a \<or> length s < b then Inl SliceOutOfRange
      else if \<not> is_char_boundary s a \<or> \<not> is_char_boundary s b then Inl NotACharBoundary
      else Inr (take (b - a) (drop a s)))"

text \<open>\<open>s.chars().count()\<close> on a valid string: the bytes that start a character.\<close>

definition char_count :: "string \<Rightarrow> nat" where
  "char_count s = length (filter (\<lambda>c. \<not> is_cont (of_char c)) s)"

text \<open>\<open>s.replace(c, "d")\<close> for two ASCII characters.\<close>

definition str_replace :: "char \<Rightarrow> char \<Rightarrow> string \<Rightarrow> string" where
  "str_replace c d s = map (\<lambda>x. if x = c then d else x) s"

section \<open>Integers\<close>

definition digit_char :: "nat \<Rightarrow> char" where
  "digit_char d = (if d < 10 then char_of (48 + d) else char_of (87 + d))"

fun digits_in :: "nat \<Rightarrow> nat \<Rightarrow> string" where
  "digits_in b n = (if n < b \<or> b < 2 then [digit_char n] else digits_in b (n div b) @ [digit_char (n mod b)])"

declare digits_in.simps [simp del]

definition fmt_nat :: "nat \<Rightarrow> string" where
  "fmt_nat n = digits_in 10 n"

definition fmt_hex :: "nat \<Rightarrow> string" where
  "fmt_hex n = digits_in 16 n"

definition fmt_int :: "int \<Rightarrow> string" where
  "fmt_int z = (if z < 0 then ''-'' @ fmt_nat (nat (- z)) else fmt_nat (nat z))"

text \<open>\<open>{:0w}\<close> and \<open>{:>w}\<close>: padding on the left up to a number of characters.\<close>

definition pad_left :: "char \<Rightarrow> nat \<Rightarrow> string \<Rightarrow> string" where
  "pad_left c w s = replicate (w - char_count s) c @ s"

section \<open>Lemmas\<close>

subsection \<open>Lossy decoding\<close>

lemma unat_of_char: "unat (of_char c :: u8) = of_char c"
proof -
  have "unat (of_nat (of_char c) :: u8) = of_char c mod 256" by (simp add: unat_of_nat)
  moreover have "(of_char c :: nat) < 256" by (rule nat_of_char_less_256)
  ultimately show ?thesis by (simp add: of_nat_of_char)
qed

lemma string_bytes_inverse [simp]: "string_of_bytes (bytes_of_string s) = s"
  by (induction s) (simp_all add: string_of_bytes_def bytes_of_string_def unat_of_char)

lemma utf8_step_ascii: "b < 0x80 \<Longrightarrow> utf8_step (b # bs) = (True, 1)"
  by (simp add: utf8_step_def byte_at_def utf8_char_width_def)

lemma valid_utf8_Nil [simp]: "valid_utf8 []"
  by (subst valid_utf8.simps) simp

lemma utf8_lossy_Nil [simp]: "utf8_lossy [] = []"
  by (subst utf8_lossy.simps) simp

lemma utf8_lossy_valid: "valid_utf8 bs \<Longrightarrow> utf8_lossy bs = bs"
proof (induction bs rule: valid_utf8.induct)
  case (1 bs)
  show ?case
  proof (cases "bs = []")
    case False
    obtain ok n where st: "utf8_step bs = (ok, n)" by fastforce
    with 1 False have "ok" "utf8_lossy (drop n bs) = drop n bs"
      by (auto simp: valid_utf8.simps [of bs] split: if_splits)
    with st show ?thesis by (simp add: utf8_lossy.simps [of bs])
  qed simp
qed

lemma valid_utf8_ascii: "(\<And>b. b \<in> set bs \<Longrightarrow> b < 0x80) \<Longrightarrow> valid_utf8 bs"
  by (induction bs) (simp_all add: valid_utf8.simps [of "_ # _"] utf8_step_ascii)

text \<open>A character that the scanner accepts is there in full, and the scanner's answer does not
  depend on what follows it.\<close>

lemma not_is_cont_0 [simp]: "\<not> is_cont 0"
  by (simp add: is_cont_def)

lemma not_second_0 [simp]: "\<not> second_of_3 b 0" "\<not> second_of_4 b 0"
  by (auto simp: second_of_3_def second_of_4_def)

lemma utf8_step_True:
  assumes "utf8_step bs = (True, n)" and "bs \<noteq> []"
  shows "n \<le> length bs" and "utf8_step (take n bs @ cs) = (True, n)"
proof -
  have at: "byte_at (take n bs @ cs) k = byte_at bs k" if "k < n" "n \<le> length bs" for k
    using that by (simp add: byte_at_def nth_append)
  show n: "n \<le> length bs"
    using assms
    by (cases bs) (auto simp: utf8_step_def Let_def byte_at_def not_less Suc_le_eq split: if_splits)
  show "utf8_step (take n bs @ cs) = (True, n)"
    using assms at [OF _ n]
    by (auto simp: utf8_step_def Let_def split: if_splits)
qed

lemma utf8_step_replacement: "utf8_step (replacement_character @ cs) = (True, 3)"
  by (simp add: utf8_step_def replacement_character_def byte_at_def utf8_char_width_def
      second_of_3_def is_cont_def)

lemma valid_utf8_append:
  assumes "utf8_step (c @ bs) = (True, length c)" and "c \<noteq> []" and "valid_utf8 bs"
  shows "valid_utf8 (c @ bs)"
  using assms by (subst valid_utf8.simps) simp

lemma valid_utf8_lossy: "valid_utf8 (utf8_lossy bs)"
proof (induction bs rule: utf8_lossy.induct)
  case (1 bs)
  show ?case
  proof (cases "bs = []")
    case False
    obtain ok n where st: "utf8_step bs = (ok, n)" by fastforce
    with 1 False have IH: "valid_utf8 (utf8_lossy (drop n bs))" by simp
    show ?thesis
    proof (cases ok)
      case True
      with st have t: "utf8_step bs = (True, n)" by simp
      have "0 < n" using utf8_step_pos [of bs] st by simp
      moreover have "length (take n bs) = n" using utf8_step_True(1) [OF t False] by simp
      ultimately show ?thesis
        using utf8_step_True(2) [OF t False] False IH t
        by (subst utf8_lossy.simps) (auto intro!: valid_utf8_append)
    next
      case f: False
      have "length replacement_character = 3" "replacement_character \<noteq> []"
        by (simp_all add: replacement_character_def)
      with f False st IH utf8_step_replacement show ?thesis
        by (subst utf8_lossy.simps) (auto intro!: valid_utf8_append)
    qed
  qed simp
qed

end
