(* ===== verification/Record_Parser.thy ===== *)
theory Record_Parser
  imports Primitive_Parsers Rust_Strings
begin

text \<open>
  The parsers of \<^verbatim>\<open>src/parser/record_parser.rs\<close>: one definition for each parser function, in
  the order of the source, over the library parameter of \<open>Nom_Interface\<close>. The mutable parser
  of the source is a record that each call takes and returns. \<open>lazy_many1\<close> is a loop
  without a bound of its own, so it is a partial function whose value \<open>None\<close> means that it
  does not return. The debug output is in \<open>Debug_Mode\<close>.
\<close>

section \<open>Tags\<close>

definition TAG_STRING :: u8 where
  "TAG_STRING = 0x01"

definition TAG_LOAD_CLASS :: u8 where
  "TAG_LOAD_CLASS = 0x02"

definition TAG_UNLOAD_CLASS :: u8 where
  "TAG_UNLOAD_CLASS = 0x03"

definition TAG_STACK_FRAME :: u8 where
  "TAG_STACK_FRAME = 0x04"

definition TAG_STACK_TRACE :: u8 where
  "TAG_STACK_TRACE = 0x05"

definition TAG_ALLOC_SITES :: u8 where
  "TAG_ALLOC_SITES = 0x06"

definition TAG_HEAP_SUMMARY :: u8 where
  "TAG_HEAP_SUMMARY = 0x07"

definition TAG_START_THREAD :: u8 where
  "TAG_START_THREAD = 0x0A"

definition TAG_END_THREAD :: u8 where
  "TAG_END_THREAD = 0x0B"

definition TAG_HEAP_DUMP :: u8 where
  "TAG_HEAP_DUMP = 0x0C"

definition TAG_HEAP_DUMP_SEGMENT :: u8 where
  "TAG_HEAP_DUMP_SEGMENT = 0x1C"

definition TAG_HEAP_DUMP_END :: u8 where
  "TAG_HEAP_DUMP_END = 0x2C"

definition TAG_CONTROL_SETTING :: u8 where
  "TAG_CONTROL_SETTING = 0x0E"

definition TAG_CPU_SAMPLES :: u8 where
  "TAG_CPU_SAMPLES = 0x0D"

definition TAG_GC_ROOT_UNKNOWN :: u8 where
  "TAG_GC_ROOT_UNKNOWN = 0xFF"

definition TAG_GC_ROOT_JNI_GLOBAL :: u8 where
  "TAG_GC_ROOT_JNI_GLOBAL = 0x01"

definition TAG_GC_ROOT_JNI_LOCAL :: u8 where
  "TAG_GC_ROOT_JNI_LOCAL = 0x02"

definition TAG_GC_ROOT_JAVA_FRAME :: u8 where
  "TAG_GC_ROOT_JAVA_FRAME = 0x03"

definition TAG_GC_ROOT_NATIVE_STACK :: u8 where
  "TAG_GC_ROOT_NATIVE_STACK = 0x04"

definition TAG_GC_ROOT_STICKY_CLASS :: u8 where
  "TAG_GC_ROOT_STICKY_CLASS = 0x05"

definition TAG_GC_ROOT_THREAD_BLOCK :: u8 where
  "TAG_GC_ROOT_THREAD_BLOCK = 0x06"

definition TAG_GC_ROOT_MONITOR_USED :: u8 where
  "TAG_GC_ROOT_MONITOR_USED = 0x07"

definition TAG_GC_ROOT_THREAD_OBJ :: u8 where
  "TAG_GC_ROOT_THREAD_OBJ = 0x08"

definition TAG_GC_CLASS_DUMP :: u8 where
  "TAG_GC_CLASS_DUMP = 0x20"

definition TAG_GC_INSTANCE_DUMP :: u8 where
  "TAG_GC_INSTANCE_DUMP = 0x21"

definition TAG_GC_OBJ_ARRAY_DUMP :: u8 where
  "TAG_GC_OBJ_ARRAY_DUMP = 0x22"

definition TAG_GC_PRIM_ARRAY_DUMP :: u8 where
  "TAG_GC_PRIM_ARRAY_DUMP = 0x23"

definition TAG_GC_ROOT_INTERNED_STRING :: u8 where
  "TAG_GC_ROOT_INTERNED_STRING = 0x89"

definition TAG_GC_ROOT_FINALIZING :: u8 where
  "TAG_GC_ROOT_FINALIZING = 0x8A"

definition TAG_GC_ROOT_DEBUGGER :: u8 where
  "TAG_GC_ROOT_DEBUGGER = 0x8B"

definition TAG_GC_ROOT_REFERENCE_CLEANUP :: u8 where
  "TAG_GC_ROOT_REFERENCE_CLEANUP = 0x8C"

definition TAG_GC_ROOT_VM_INTERNAL :: u8 where
  "TAG_GC_ROOT_VM_INTERNAL = 0x8D"

definition TAG_GC_ROOT_JNI_MONITOR :: u8 where
  "TAG_GC_ROOT_JNI_MONITOR = 0x8E"

definition TAG_GC_UNREACHABLE :: u8 where
  "TAG_GC_UNREACHABLE = 0x90"

definition TAG_GC_PRIM_ARRAY_NODATA_DUMP :: u8 where
  "TAG_GC_PRIM_ARRAY_NODATA_DUMP = 0xC3"

definition TAG_GC_HEAP_DUMP_INFO :: u8 where
  "TAG_GC_HEAP_DUMP_INFO = 0xFE"

lemmas tag_defs =
  TAG_STRING_def
  TAG_LOAD_CLASS_def
  TAG_UNLOAD_CLASS_def
  TAG_STACK_FRAME_def
  TAG_STACK_TRACE_def
  TAG_ALLOC_SITES_def
  TAG_HEAP_SUMMARY_def
  TAG_START_THREAD_def
  TAG_END_THREAD_def
  TAG_HEAP_DUMP_def
  TAG_HEAP_DUMP_SEGMENT_def
  TAG_HEAP_DUMP_END_def
  TAG_CONTROL_SETTING_def
  TAG_CPU_SAMPLES_def
  TAG_GC_ROOT_UNKNOWN_def
  TAG_GC_ROOT_JNI_GLOBAL_def
  TAG_GC_ROOT_JNI_LOCAL_def
  TAG_GC_ROOT_JAVA_FRAME_def
  TAG_GC_ROOT_NATIVE_STACK_def
  TAG_GC_ROOT_STICKY_CLASS_def
  TAG_GC_ROOT_THREAD_BLOCK_def
  TAG_GC_ROOT_MONITOR_USED_def
  TAG_GC_ROOT_THREAD_OBJ_def
  TAG_GC_CLASS_DUMP_def
  TAG_GC_INSTANCE_DUMP_def
  TAG_GC_OBJ_ARRAY_DUMP_def
  TAG_GC_PRIM_ARRAY_DUMP_def
  TAG_GC_ROOT_INTERNED_STRING_def
  TAG_GC_ROOT_FINALIZING_def
  TAG_GC_ROOT_DEBUGGER_def
  TAG_GC_ROOT_REFERENCE_CLEANUP_def
  TAG_GC_ROOT_VM_INTERNAL_def
  TAG_GC_ROOT_JNI_MONITOR_def
  TAG_GC_UNREACHABLE_def
  TAG_GC_PRIM_ARRAY_NODATA_DUMP_def
  TAG_GC_HEAP_DUMP_INFO_def

section \<open>Identifiers\<close>

definition parse_id :: "nom \<Rightarrow> u32 \<Rightarrow> u64 parser" where
  "parse_id N id_size =
     (if id_size = 4 then map_p (parse_u32 N) ucast
      else if id_size = 8 then parse_u64 N
      else p_panic (UnsupportedIdSize id_size))"

definition id_p :: "nom \<Rightarrow> u32 \<Rightarrow> u64 parser" where
  "id_p N id_size = parse_id N id_size"

section \<open>Repetition with partial results\<close>

text \<open>The loop of \<open>lazy_many1\<close>, on a stateful parser \<open>f\<close>. It returns the parser's state, the
  vector with the values pushed so far, and the result of the call.\<close>

partial_function (option) lazy_many1_loop ::
  "nom \<Rightarrow> ('s \<Rightarrow> bytes \<Rightarrow> 's \<times> 'o iresult) \<Rightarrow> 's \<Rightarrow> 'o list \<Rightarrow> bytes \<Rightarrow>
   ('s \<times> 'o list \<times> unit iresult) option" where
  "lazy_many1_loop N f s pooled_vec i =
     (case f s i of (s', res) \<Rightarrow>
       (case res of
          Err (Error _) \<Rightarrow> Some (s', pooled_vec, Ok i ())
        | Err (Incomplete _) \<Rightarrow> Some (s', pooled_vec, Ok i ())
        | Err (Failure e) \<Rightarrow> Some (s', pooled_vec, Err (Failure e))
        | Panic e \<Rightarrow> Some (s', pooled_vec, Panic e)
        | Ok i1 x \<Rightarrow>
            if i1 = i then Some (s', pooled_vec, Err (Error (error_from_kind N i Many1)))
            else lazy_many1_loop N f s' (pooled_vec @ [x]) i1))"

definition lazy_many1 ::
  "nom \<Rightarrow> ('s \<Rightarrow> bytes \<Rightarrow> 's \<times> 'o iresult) \<Rightarrow> 's \<Rightarrow> 'o list \<Rightarrow> bytes \<Rightarrow>
   ('s \<times> 'o list \<times> unit iresult) option" where
  "lazy_many1 N f s pooled_vec i =
     (case f s i of (s', res) \<Rightarrow>
       (case res of
          Err (Error err) \<Rightarrow> Some (s', pooled_vec, Err (Error (error_append N i Many1 err)))
        | Err e \<Rightarrow> Some (s', pooled_vec, Err e)
        | Panic e \<Rightarrow> Some (s', pooled_vec, Panic e)
        | Ok i1 x \<Rightarrow> lazy_many1_loop N f s' (pooled_vec @ [x]) i1))"

section \<open>Roots\<close>

definition parse_gc_root_unknown :: "nom \<Rightarrow> u32 \<Rightarrow> gc_record parser" where
  "parse_gc_root_unknown N id_size =
     map_p (id_p N id_size) (\<lambda>object_id. RootUnknown object_id)"

definition parse_gc_root_thread_object :: "nom \<Rightarrow> u32 \<Rightarrow> gc_record parser" where
  "parse_gc_root_thread_object N id_size =
     map_p (pair_p (id_p N id_size) (pair_p (parse_u32 N) (parse_u32 N)))
       (\<lambda>(a, b, c). RootThreadObject a b c)"

definition parse_gc_root_jni_global :: "nom \<Rightarrow> u32 \<Rightarrow> gc_record parser" where
  "parse_gc_root_jni_global N id_size =
     map_p (pair_p (id_p N id_size) (id_p N id_size)) (\<lambda>(a, b). RootJniGlobal a b)"

definition parse_gc_root_jni_local :: "nom \<Rightarrow> u32 \<Rightarrow> gc_record parser" where
  "parse_gc_root_jni_local N id_size =
     map_p (pair_p (id_p N id_size) (pair_p (parse_u32 N) (parse_u32 N)))
       (\<lambda>(a, b, c). RootJniLocal a b c)"

definition parse_gc_root_java_frame :: "nom \<Rightarrow> u32 \<Rightarrow> gc_record parser" where
  "parse_gc_root_java_frame N id_size =
     map_p (pair_p (id_p N id_size) (pair_p (parse_u32 N) (parse_u32 N)))
       (\<lambda>(a, b, c). RootJavaFrame a b c)"

definition parse_gc_root_native_stack :: "nom \<Rightarrow> u32 \<Rightarrow> gc_record parser" where
  "parse_gc_root_native_stack N id_size =
     map_p (pair_p (id_p N id_size) (parse_u32 N)) (\<lambda>(a, b). RootNativeStack a b)"

definition parse_gc_root_sticky_class :: "nom \<Rightarrow> u32 \<Rightarrow> gc_record parser" where
  "parse_gc_root_sticky_class N id_size =
     map_p (id_p N id_size) (\<lambda>object_id. RootStickyClass object_id)"

definition parse_gc_root_thread_block :: "nom \<Rightarrow> u32 \<Rightarrow> gc_record parser" where
  "parse_gc_root_thread_block N id_size =
     map_p (pair_p (id_p N id_size) (parse_u32 N)) (\<lambda>(a, b). RootThreadBlock a b)"

definition parse_gc_root_monitor_used :: "nom \<Rightarrow> u32 \<Rightarrow> gc_record parser" where
  "parse_gc_root_monitor_used N id_size =
     map_p (id_p N id_size) (\<lambda>object_id. RootMonitorUsed object_id)"

text \<open>Android HPROF 1.0.3 extensions.\<close>

definition parse_gc_root_interned_string :: "nom \<Rightarrow> u32 \<Rightarrow> gc_record parser" where
  "parse_gc_root_interned_string N id_size =
     map_p (id_p N id_size) (\<lambda>object_id. RootInternedString object_id)"

definition parse_gc_root_finalizing :: "nom \<Rightarrow> u32 \<Rightarrow> gc_record parser" where
  "parse_gc_root_finalizing N id_size =
     map_p (id_p N id_size) (\<lambda>object_id. RootFinalizing object_id)"

definition parse_gc_root_debugger :: "nom \<Rightarrow> u32 \<Rightarrow> gc_record parser" where
  "parse_gc_root_debugger N id_size =
     map_p (id_p N id_size) (\<lambda>object_id. RootDebugger object_id)"

definition parse_gc_root_reference_cleanup :: "nom \<Rightarrow> u32 \<Rightarrow> gc_record parser" where
  "parse_gc_root_reference_cleanup N id_size =
     map_p (id_p N id_size) (\<lambda>object_id. RootReferenceCleanup object_id)"

definition parse_gc_root_vm_internal :: "nom \<Rightarrow> u32 \<Rightarrow> gc_record parser" where
  "parse_gc_root_vm_internal N id_size =
     map_p (id_p N id_size) (\<lambda>object_id. RootVmInternal object_id)"

definition parse_gc_root_jni_monitor :: "nom \<Rightarrow> u32 \<Rightarrow> gc_record parser" where
  "parse_gc_root_jni_monitor N id_size =
     map_p (pair_p (id_p N id_size) (pair_p (parse_u32 N) (parse_u32 N)))
       (\<lambda>(a, b, c). RootJniMonitor a b c)"

definition parse_gc_unreachable :: "nom \<Rightarrow> u32 \<Rightarrow> gc_record parser" where
  "parse_gc_unreachable N id_size =
     map_p (id_p N id_size) (\<lambda>object_id. Unreachable object_id)"

definition parse_field_type :: "nom \<Rightarrow> field_type parser" where
  "parse_field_type N = map_panicking_p (parse_i8 N) from_value"

definition parse_gc_primitive_array_nodata_dump :: "nom \<Rightarrow> u32 \<Rightarrow> gc_record parser" where
  "parse_gc_primitive_array_nodata_dump N id_size =
     map_p (pair_p (id_p N id_size) (pair_p (parse_u32 N) (pair_p (parse_u32 N) (parse_field_type N))))
       (\<lambda>(object_id, stack_trace_serial_number, number_of_elements, element_type).
          PrimitiveArrayNoDataDump object_id stack_trace_serial_number number_of_elements element_type)"

definition parse_gc_heap_dump_info :: "nom \<Rightarrow> u32 \<Rightarrow> gc_record parser" where
  "parse_gc_heap_dump_info N id_size =
     map_p (pair_p (parse_u32 N) (id_p N id_size))
       (\<lambda>(heap_type, heap_name_id). HeapDumpInfo heap_type heap_name_id)"

section \<open>Values\<close>

definition parse_field_value :: "nom \<Rightarrow> field_type \<Rightarrow> u32 \<Rightarrow> field_value parser" where
  "parse_field_value N ty id_size =
     (case ty of
        FT_Object \<Rightarrow> map_p (id_p N id_size) FV_Object
      | FT_Bool \<Rightarrow> map_p (parse_u8 N) (\<lambda>bu8. FV_Bool (bu8 \<noteq> 0))
      | FT_Char \<Rightarrow> map_p (parse_u16 N) FV_Char
      | FT_Float \<Rightarrow> map_p (parse_f32 N) FV_Float
      | FT_Double \<Rightarrow> map_p (parse_f64 N) FV_Double
      | FT_Byte \<Rightarrow> map_p (parse_i8 N) FV_Byte
      | FT_Short \<Rightarrow> map_p (parse_i16 N) FV_Short
      | FT_Int \<Rightarrow> map_p (parse_i32 N) FV_Int
      | FT_Long \<Rightarrow> map_p (parse_i64 N) FV_Long)"

definition parse_array_value :: "nom \<Rightarrow> field_type \<Rightarrow> u32 \<Rightarrow> array_value parser" where
  "parse_array_value N element_type number_of_elements =
     (let n = unat number_of_elements in
      case element_type of
        FT_Object \<Rightarrow> p_panic ObjectTypeInPrimitiveArray
      | FT_Bool \<Rightarrow> map_p (count_u8 N (parse_u8 N) n) (\<lambda>res. AV_Bool (map (\<lambda>b. b \<noteq> 0) res))
      | FT_Char \<Rightarrow> map_p (count_u16 N (parse_u16 N) n) AV_Char
      | FT_Float \<Rightarrow> map_p (count_u32 N (parse_f32 N) n) AV_Float
      | FT_Double \<Rightarrow> map_p (count_u64 N (parse_f64 N) n) AV_Double
      | FT_Byte \<Rightarrow> map_p (count_u8 N (parse_i8 N) n) AV_Byte
      | FT_Short \<Rightarrow> map_p (count_u16 N (parse_i16 N) n) AV_Short
      | FT_Int \<Rightarrow> map_p (count_u32 N (parse_i32 N) n) AV_Int
      | FT_Long \<Rightarrow> map_p (count_u64 N (parse_i64 N) n) AV_Long)"

definition skip_array_value :: "nom \<Rightarrow> field_type \<Rightarrow> u32 \<Rightarrow> bytes parser" where
  "skip_array_value N element_type number_of_elements =
     (let n = (ucast number_of_elements :: u64) in
      case element_type of
        FT_Object \<Rightarrow> p_panic ObjectTypeInPrimitiveArray
      | FT_Bool \<Rightarrow> nom_take N (unat n)
      | FT_Char \<Rightarrow> nom_take N (unat (n * 2))
      | FT_Float \<Rightarrow> nom_take N (unat (n * 4))
      | FT_Double \<Rightarrow> nom_take N (unat (n * 8))
      | FT_Byte \<Rightarrow> nom_take N (unat n)
      | FT_Short \<Rightarrow> nom_take N (unat (n * 2))
      | FT_Int \<Rightarrow> nom_take N (unat (n * 4))
      | FT_Long \<Rightarrow> nom_take N (unat (n * 8)))"

section \<open>Class dumps\<close>

definition parse_const_pool_item :: "nom \<Rightarrow> u32 \<Rightarrow> (const_field_info \<times> field_value) parser" where
  "parse_const_pool_item N id_size =
     flat_map_p (pair_p (parse_u16 N) (parse_field_type N))
       (\<lambda>(const_pool_idx, const_type).
          map_p (parse_field_value N const_type id_size)
            (\<lambda>fv. (\<lparr>cfi_const_pool_idx = const_pool_idx, cfi_const_type = const_type\<rparr>, fv)))"

definition parse_static_field_item :: "nom \<Rightarrow> u32 \<Rightarrow> (field_info \<times> field_value) parser" where
  "parse_static_field_item N id_size =
     flat_map_p (pair_p (id_p N id_size) (parse_field_type N))
       (\<lambda>(name_id, field_type).
          map_p (parse_field_value N field_type id_size)
            (\<lambda>fv. (\<lparr>fi_name_id = name_id, fi_field_type = field_type\<rparr>, fv)))"

definition parse_instance_field_item :: "nom \<Rightarrow> u32 \<Rightarrow> field_info parser" where
  "parse_instance_field_item N id_size =
     map_p (pair_p (id_p N id_size) (parse_field_type N))
       (\<lambda>(name_id, field_type). \<lparr>fi_name_id = name_id, fi_field_type = field_type\<rparr>)"

definition parse_gc_class_dump :: "nom \<Rightarrow> u32 \<Rightarrow> gc_record parser" where
  "parse_gc_class_dump N id_size =
     flat_map_p
       (pair_p (id_p N id_size) (pair_p (parse_u32 N) (pair_p (id_p N id_size)
         (pair_p (id_p N id_size) (pair_p (id_p N id_size) (pair_p (id_p N id_size)
         (pair_p (id_p N id_size) (pair_p (id_p N id_size)
         (pair_p (parse_u32 N) (parse_u16 N))))))))))
       (\<lambda>(class_object_id, stack_trace_serial_number, super_class_object_id,
          class_loader_object_id, signers_object_id, protection_domain_object_id,
          reserved_1, reserved_2, instance_size, constant_pool_size).
        flat_map_p (count_const N (parse_const_pool_item N id_size) (unat constant_pool_size))
          (\<lambda>const_fields.
        flat_map_p (parse_u16 N)
          (\<lambda>static_fields_number.
        flat_map_p (count_static N (parse_static_field_item N id_size) (unat static_fields_number))
          (\<lambda>static_fields.
        flat_map_p (parse_u16 N)
          (\<lambda>instance_field_number.
        map_p (count_field N (parse_instance_field_item N id_size) (unat instance_field_number))
          (\<lambda>instance_fields.
             ClassDump (class_dump_fields_new class_object_id stack_trace_serial_number
               super_class_object_id instance_size const_fields static_fields
               instance_fields)))))))"

section \<open>Objects\<close>

definition parse_gc_instance_dump :: "nom \<Rightarrow> u32 \<Rightarrow> gc_record parser" where
  "parse_gc_instance_dump N id_size =
     flat_map_p (pair_p (id_p N id_size) (pair_p (parse_u32 N) (pair_p (id_p N id_size) (parse_u32 N))))
       (\<lambda>(object_id, stack_trace_serial_number, class_object_id, data_size).
          map_p (nom_take N (unat data_size))
            (\<lambda>_. InstanceDump object_id stack_trace_serial_number class_object_id data_size))"

definition parse_gc_object_array_dump :: "nom \<Rightarrow> u32 \<Rightarrow> gc_record parser" where
  "parse_gc_object_array_dump N id_size =
     flat_map_p (pair_p (id_p N id_size) (pair_p (parse_u32 N) (pair_p (parse_u32 N) (id_p N id_size))))
       (\<lambda>(object_id, stack_trace_serial_number, number_of_elements, array_class_id).
          map_p (nom_take N (unat ((ucast number_of_elements :: u64) * ucast id_size)))
            (\<lambda>_. ObjectArrayDump object_id stack_trace_serial_number number_of_elements array_class_id))"

definition parse_gc_primitive_array_dump :: "nom \<Rightarrow> u32 \<Rightarrow> gc_record parser" where
  "parse_gc_primitive_array_dump N id_size =
     flat_map_p (pair_p (id_p N id_size) (pair_p (parse_u32 N) (pair_p (parse_u32 N) (parse_field_type N))))
       (\<lambda>(object_id, stack_trace_serial_number, number_of_elements, element_type).
          map_p (skip_array_value N element_type number_of_elements)
            (\<lambda>_. PrimitiveArrayDump object_id stack_trace_serial_number number_of_elements element_type))"

definition parse_gc_record :: "nom \<Rightarrow> u32 \<Rightarrow> gc_record parser" where
  "parse_gc_record N id_size =
     flat_map_p (parse_u8 N) (\<lambda>tag.
       if tag = TAG_GC_ROOT_UNKNOWN then parse_gc_root_unknown N id_size
       else if tag = TAG_GC_ROOT_JNI_GLOBAL then parse_gc_root_jni_global N id_size
       else if tag = TAG_GC_ROOT_JNI_LOCAL then parse_gc_root_jni_local N id_size
       else if tag = TAG_GC_ROOT_JAVA_FRAME then parse_gc_root_java_frame N id_size
       else if tag = TAG_GC_ROOT_NATIVE_STACK then parse_gc_root_native_stack N id_size
       else if tag = TAG_GC_ROOT_STICKY_CLASS then parse_gc_root_sticky_class N id_size
       else if tag = TAG_GC_ROOT_THREAD_BLOCK then parse_gc_root_thread_block N id_size
       else if tag = TAG_GC_ROOT_MONITOR_USED then parse_gc_root_monitor_used N id_size
       else if tag = TAG_GC_ROOT_THREAD_OBJ then parse_gc_root_thread_object N id_size
       else if tag = TAG_GC_CLASS_DUMP then parse_gc_class_dump N id_size
       else if tag = TAG_GC_INSTANCE_DUMP then parse_gc_instance_dump N id_size
       else if tag = TAG_GC_OBJ_ARRAY_DUMP then parse_gc_object_array_dump N id_size
       else if tag = TAG_GC_PRIM_ARRAY_DUMP then parse_gc_primitive_array_dump N id_size
       else if tag = TAG_GC_ROOT_INTERNED_STRING then parse_gc_root_interned_string N id_size
       else if tag = TAG_GC_ROOT_FINALIZING then parse_gc_root_finalizing N id_size
       else if tag = TAG_GC_ROOT_DEBUGGER then parse_gc_root_debugger N id_size
       else if tag = TAG_GC_ROOT_REFERENCE_CLEANUP then parse_gc_root_reference_cleanup N id_size
       else if tag = TAG_GC_ROOT_VM_INTERNAL then parse_gc_root_vm_internal N id_size
       else if tag = TAG_GC_ROOT_JNI_MONITOR then parse_gc_root_jni_monitor N id_size
       else if tag = TAG_GC_UNREACHABLE then parse_gc_unreachable N id_size
       else if tag = TAG_GC_PRIM_ARRAY_NODATA_DUMP then parse_gc_primitive_array_nodata_dump N id_size
       else if tag = TAG_GC_HEAP_DUMP_INFO then parse_gc_heap_dump_info N id_size
       else p_panic (UnhandledGcRecordTag tag))"

section \<open>Top-level records\<close>

definition parse_header_record :: "nom \<Rightarrow> record_header parser" where
  "parse_header_record N =
     map_p (pair_p (parse_u32 N) (parse_u32 N))
       (\<lambda>(timestamp, len). \<lparr>rh_timestamp = timestamp, rh_length = len\<rparr>)"

definition parse_utf8_string :: "nom \<Rightarrow> u32 \<Rightarrow> hprof_record parser" where
  "parse_utf8_string N id_size =
     flat_map_p (parse_header_record N) (\<lambda>header_record.
       map_p (pair_p (id_p N id_size)
                     (nom_take N (unat (saturating_sub (rh_length header_record) id_size))))
         (\<lambda>(sid, b). Utf8String sid (from_utf8_lossy b)))"

definition parse_load_class :: "nom \<Rightarrow> u32 \<Rightarrow> hprof_record parser" where
  "parse_load_class N id_size =
     preceded_p (parse_header_record N)
       (map_p (pair_p (parse_u32 N) (pair_p (id_p N id_size) (pair_p (parse_u32 N) (id_p N id_size))))
         (\<lambda>(serial_number, class_object_id, stack_trace_serial_number, class_name_id).
            LoadClass \<lparr>lc_serial_number = serial_number, lc_class_object_id = class_object_id,
              lc_stack_trace_serial_number = stack_trace_serial_number,
              lc_class_name_id = class_name_id\<rparr>))"

definition parse_unload_class :: "nom \<Rightarrow> hprof_record parser" where
  "parse_unload_class N =
     preceded_p (parse_header_record N) (map_p (parse_u32 N) (\<lambda>serial_number. UnloadClass serial_number))"

definition parse_stack_frame :: "nom \<Rightarrow> u32 \<Rightarrow> hprof_record parser" where
  "parse_stack_frame N id_size =
     preceded_p (parse_header_record N)
       (map_p (pair_p (id_p N id_size) (pair_p (id_p N id_size) (pair_p (id_p N id_size)
                (pair_p (id_p N id_size) (pair_p (parse_u32 N) (parse_i32 N))))))
         (\<lambda>(stack_frame_id, method_name_id, method_signature_id, source_file_name_id,
            class_serial_number, line_number).
            StackFrame \<lparr>sf_stack_frame_id = stack_frame_id, sf_method_name_id = method_name_id,
              sf_method_signature_id = method_signature_id,
              sf_source_file_name_id = source_file_name_id,
              sf_class_serial_number = class_serial_number, sf_line_number = line_number\<rparr>))"

definition parse_stack_trace :: "nom \<Rightarrow> u32 \<Rightarrow> hprof_record parser" where
  "parse_stack_trace N id_size =
     flat_map_p (parse_header_record N) (\<lambda>header_record.
       if id_size = 0 then p_panic DivideByZero
       else (let stack_frame_ids_len = saturating_sub (rh_length header_record) 12 div id_size in
         map_p (pair_p (parse_u32 N) (pair_p (parse_u32 N) (pair_p (parse_u32 N)
                  (count_u64 N (id_p N id_size) (unat stack_frame_ids_len)))))
           (\<lambda>(serial_number, thread_serial_number, number_of_frames, stack_frame_ids).
              StackTrace \<lparr>st_serial_number = serial_number,
                st_thread_serial_number = thread_serial_number,
                st_number_of_frames = number_of_frames,
                st_stack_frame_ids = stack_frame_ids\<rparr>)))"

definition parse_start_thread :: "nom \<Rightarrow> u32 \<Rightarrow> hprof_record parser" where
  "parse_start_thread N id_size =
     preceded_p (parse_header_record N)
       (map_p (pair_p (parse_u32 N) (pair_p (id_p N id_size) (pair_p (parse_u32 N)
                (pair_p (id_p N id_size) (pair_p (id_p N id_size) (id_p N id_size))))))
         (\<lambda>(thread_serial_number, thread_object_id, stack_trace_serial_number, thread_name_id,
            thread_group_name_id, thread_group_parent_name_id).
            StartThread thread_serial_number thread_object_id stack_trace_serial_number
              thread_name_id thread_group_name_id thread_group_parent_name_id))"

definition parse_heap_summary :: "nom \<Rightarrow> hprof_record parser" where
  "parse_heap_summary N =
     preceded_p (parse_header_record N)
       (map_p (pair_p (parse_u32 N) (pair_p (parse_u32 N) (pair_p (parse_u64 N) (parse_u64 N))))
         (\<lambda>(total_live_bytes, total_live_instances, total_bytes_allocated, total_instances_allocated).
            HeapSummary total_live_bytes total_live_instances total_bytes_allocated
              total_instances_allocated))"

definition parse_end_thread :: "nom \<Rightarrow> hprof_record parser" where
  "parse_end_thread N =
     preceded_p (parse_header_record N)
       (map_p (parse_u32 N) (\<lambda>thread_serial_number. EndThread thread_serial_number))"

definition parse_allocation_site :: "nom \<Rightarrow> allocation_site parser" where
  "parse_allocation_site N =
     map_p (pair_p (parse_u8 N) (pair_p (parse_u32 N) (pair_p (parse_u32 N) (pair_p (parse_u32 N)
              (pair_p (parse_u32 N) (pair_p (parse_u32 N) (parse_u32 N)))))))
       (\<lambda>(is_array, class_serial_number, stack_trace_serial_number, bytes_alive, instances_alive,
          bytes_allocated, instances_allocated).
          \<lparr>as_is_array = is_array, as_class_serial_number = class_serial_number,
           as_stack_trace_serial_number = stack_trace_serial_number, as_bytes_alive = bytes_alive,
           as_instances_alive = instances_alive, as_bytes_allocated = bytes_allocated,
           as_instances_allocated = instances_allocated\<rparr>)"

definition parse_allocation_sites :: "nom \<Rightarrow> hprof_record parser" where
  "parse_allocation_sites N =
     flat_map_p
       (preceded_p (parse_header_record N)
         (pair_p (parse_u16 N) (pair_p (parse_u32 N) (pair_p (parse_u32 N) (pair_p (parse_u32 N)
           (pair_p (parse_u64 N) (pair_p (parse_u64 N) (parse_u32 N))))))))
       (\<lambda>(flags, cutoff_ratio, total_live_bytes, total_live_instances, total_bytes_allocated,
          total_instances_allocated, number_of_sites).
          map_p (count_site N (parse_allocation_site N) (unat number_of_sites))
            (\<lambda>allocation_sites. AllocationSites flags cutoff_ratio total_live_bytes
               total_live_instances total_bytes_allocated total_instances_allocated
               number_of_sites allocation_sites))"

definition parse_heap_dump_end :: "nom \<Rightarrow> hprof_record parser" where
  "parse_heap_dump_end N = map_p (parse_header_record N) (\<lambda>rb. HeapDumpEnd (rh_length rb))"

definition parse_control_settings :: "nom \<Rightarrow> hprof_record parser" where
  "parse_control_settings N =
     preceded_p (parse_header_record N)
       (map_p (pair_p (parse_u32 N) (parse_u16 N))
         (\<lambda>(flags, stack_trace_depth). ControlSettings flags stack_trace_depth))"

definition parse_cpu_sample :: "nom \<Rightarrow> cpu_sample parser" where
  "parse_cpu_sample N =
     map_p (pair_p (parse_u32 N) (parse_u32 N))
       (\<lambda>(number_of_samples, stack_trace_serial_number).
          \<lparr>cs_number_of_samples = number_of_samples,
           cs_stack_trace_serial_number = stack_trace_serial_number\<rparr>)"

definition parse_cpu_samples :: "nom \<Rightarrow> hprof_record parser" where
  "parse_cpu_samples N =
     flat_map_p (preceded_p (parse_header_record N) (pair_p (parse_u32 N) (parse_u32 N)))
       (\<lambda>(total_number_of_samples, number_of_traces).
          map_p (count_sample N (parse_cpu_sample N) (unat total_number_of_samples))
            (\<lambda>cpu_samples. CpuSamples total_number_of_samples number_of_traces cpu_samples))"

section \<open>The record parser\<close>

record hprof_record_parser =
  hp_debug_mode :: bool
  hp_id_size :: u32
  hp_heap_dump_remaining_len :: u32

definition hprof_record_parser_new :: "bool \<Rightarrow> u32 \<Rightarrow> hprof_record_parser" where
  "hprof_record_parser_new debug_mode id_size =
     \<lparr>hp_debug_mode = debug_mode, hp_id_size = id_size, hp_heap_dump_remaining_len = 0\<rparr>"

definition parse_hprof_record ::
  "nom \<Rightarrow> hprof_record_parser \<Rightarrow> bytes \<Rightarrow> hprof_record_parser \<times> hprof_record iresult" where
  "parse_hprof_record N self i =
     (let id_size = hp_id_size self in
      if hp_heap_dump_remaining_len self = 0 then
        (case parse_u8 N i of
           Err e \<Rightarrow> (self, Err e)
         | Panic e \<Rightarrow> (self, Panic e)
         | Ok r1 tag \<Rightarrow>
             if tag = TAG_STRING then (self, parse_utf8_string N id_size r1)
             else if tag = TAG_LOAD_CLASS then (self, parse_load_class N id_size r1)
             else if tag = TAG_UNLOAD_CLASS then (self, parse_unload_class N r1)
             else if tag = TAG_STACK_FRAME then (self, parse_stack_frame N id_size r1)
             else if tag = TAG_STACK_TRACE then (self, parse_stack_trace N id_size r1)
             else if tag = TAG_ALLOC_SITES then (self, parse_allocation_sites N r1)
             else if tag = TAG_HEAP_SUMMARY then (self, parse_heap_summary N r1)
             else if tag = TAG_START_THREAD then (self, parse_start_thread N id_size r1)
             else if tag = TAG_END_THREAD then (self, parse_end_thread N r1)
             else if tag = TAG_CONTROL_SETTING then (self, parse_control_settings N r1)
             else if tag = TAG_CPU_SAMPLES then (self, parse_cpu_samples N r1)
             else if tag = TAG_HEAP_DUMP_END then (self, parse_heap_dump_end N r1)
             else if tag = TAG_HEAP_DUMP \<or> tag = TAG_HEAP_DUMP_SEGMENT then
               (case parse_header_record N r1 of
                  Err e \<Rightarrow> (self, Err e)
                | Panic e \<Rightarrow> (self, Panic e)
                | Ok r2 hr \<Rightarrow> (self\<lparr>hp_heap_dump_remaining_len := rh_length hr\<rparr>,
                                Ok r2 (HeapDumpStart (rh_length hr))))
             else (self, Panic (UnhandledRecordTag tag)))
      else
        (case parse_gc_record N id_size i of
           Err e \<Rightarrow> (self, Err e)
         | Panic e \<Rightarrow> (self, Panic e)
         | Ok r1 gc_sub \<Rightarrow>
             (self\<lparr>hp_heap_dump_remaining_len :=
                saturating_sub (hp_heap_dump_remaining_len self)
                  (word_of_nat (length i - length r1))\<rparr>,
              Ok r1 (GcSegment gc_sub))))"

definition parse_streaming ::
  "nom \<Rightarrow> hprof_record_parser \<Rightarrow> hprof_record list \<Rightarrow> bytes \<Rightarrow>
   (hprof_record_parser \<times> hprof_record list \<times> unit iresult) option" where
  "parse_streaming N self pooled_vec i = lazy_many1 N (parse_hprof_record N) self pooled_vec i"

end
