(* ===== verification/Incremental_Parsing.thy ===== *)
theory Incremental_Parsing
  imports Record_Parser
begin

text \<open>
  What it means to parse a byte sequence as a sequence of values with a parser that carries a
  state, and what \<open>lazy_many1\<close> computes. The relation \<open>parses\<close> is the specification: it
  reads values from the front of the input until the parser asks for more bytes or panics.
  The locale \<open>incremental_parser\<close> states the contract of such a parser; in it the relation is
  total and deterministic, parsing can be resumed when more bytes arrive, and \<open>lazy_many1\<close>
  returns and computes exactly this relation.
\<close>

section \<open>Specification\<close>

datatype 's stop = Waiting 's bytes | Panicked panic

inductive parses ::
  "('s \<Rightarrow> bytes \<Rightarrow> 's \<times> 'o iresult) \<Rightarrow> 's \<Rightarrow> bytes \<Rightarrow> 'o list \<Rightarrow> 's stop \<Rightarrow> bool"
  for step where
  wait: "step s i = (s', Err e) \<Longrightarrow> parses step s i [] (Waiting s i)"
| panic: "step s i = (s', Panic e) \<Longrightarrow> parses step s i [] (Panicked e)"
| more: "step s i = (s', Ok r x) \<Longrightarrow> parses step s' r xs out \<Longrightarrow> parses step s i (x # xs) out"

inductive_cases parses_NilE: "parses step s i [] out"
inductive_cases parses_ConsE: "parses step s i (x # xs) out"

lemma parses_step_simps:
  "step s i = (s', Ok r x) \<Longrightarrow> parses step s i ys out \<longleftrightarrow> (\<exists>xs. ys = x # xs \<and> parses step s' r xs out)"
  "step s i = (s', Err e) \<Longrightarrow> parses step s i ys out \<longleftrightarrow> ys = [] \<and> out = Waiting s i"
  "step s i = (s', Panic p) \<Longrightarrow> parses step s i ys out \<longleftrightarrow> ys = [] \<and> out = Panicked p"
  by (auto intro: parses.intros elim: parses.cases)

section \<open>Contract\<close>

locale incremental_parser =
  fixes step :: "'s \<Rightarrow> bytes \<Rightarrow> 's \<times> 'o iresult"
  assumes step_Ok: "step s i = (s', Ok r x) \<Longrightarrow>
      \<exists>c. c \<noteq> [] \<and> i = c @ r \<and> (\<forall>j. step s (c @ j) = (s', Ok j x))"
    and step_Err: "step s i = (s', Err e) \<Longrightarrow>
      s' = s \<and> (\<exists>n. 0 < n \<and> e = Incomplete (Size n) \<and>
        (\<forall>j. length j < n \<longrightarrow> step s (i @ j) = (s, Err (Incomplete (Size (n - length j))))))"
    and step_Panic: "step s i = (s', Panic p) \<Longrightarrow> step s (i @ j) = (s', Panic p)"
begin

lemma step_Ok_append: "step s i = (s', Ok r x) \<Longrightarrow> step s (i @ j) = (s', Ok (r @ j) x)"
  by (auto dest!: step_Ok)

lemma step_Ok_shorter: "step s i = (s', Ok r x) \<Longrightarrow> length r < length i"
  by (auto dest!: step_Ok)

lemmas step_simps = parses_step_simps [where step = step]

subsection \<open>Totality and determinism\<close>

lemma parses_total: "\<exists>xs out. parses step s i xs out"
proof (induction "length i" arbitrary: s i rule: less_induct)
  case less
  obtain s' res where st: "step s i = (s', res)" by fastforce
  show ?case
  proof (cases res)
    case (Ok r x)
    with st have s: "step s i = (s', Ok r x)" by simp
    from less [OF step_Ok_shorter [OF s]] obtain xs out where "parses step s' r xs out" by blast
    with s show ?thesis by (blast intro: parses.more)
  next
    case (Err e)
    with st parses.wait [of step s i s' e] show ?thesis by blast
  next
    case (Panic e)
    with st parses.panic [of step s i s' e] show ?thesis by blast
  qed
qed

lemma parses_deterministic:
  "parses step s i xs out \<Longrightarrow> parses step s i ys out' \<Longrightarrow> ys = xs \<and> out' = out"
proof (induction arbitrary: ys out' rule: parses.induct)
  case (wait s i s' e)
  then show ?case by (simp add: step_simps(2) [OF wait.hyps])
next
  case (panic s i s' e)
  then show ?case by (simp add: step_simps(3) [OF panic.hyps])
next
  case (more s i s' r x xs out)
  then show ?case unfolding step_simps(1) [OF more.hyps(1)] by blast
qed

subsection \<open>Resuming\<close>

lemma parses_resume:
  "parses step s i xs (Waiting s' r) \<Longrightarrow> parses step s' (r @ j) ys out \<Longrightarrow>
   parses step s (i @ j) (xs @ ys) out"
proof (induction s i xs "Waiting s' r" rule: parses.induct)
  case (more s i s1 r1 x xs)
  then show ?case using step_Ok_append by (auto intro: parses.more)
qed auto

lemma parses_panic_append:
  "parses step s i xs (Panicked e) \<Longrightarrow> parses step s (i @ j) xs (Panicked e)"
proof (induction s i xs "Panicked e :: 's stop" rule: parses.induct)
  case (panic s i s')
  then show ?case using step_Panic by (auto intro: parses.panic)
next
  case (more s i s1 r1 x xs)
  then show ?case using step_Ok_append by (auto intro: parses.more)
qed

lemma parses_Waiting_suffix:
  "parses step s i xs (Waiting s' r) \<Longrightarrow> \<exists>c. i = c @ r"
proof (induction s i xs "Waiting s' r" rule: parses.induct)
  case (more s i s1 r1 x xs)
  then show ?case by (auto dest!: step_Ok)
qed auto

subsection \<open>What \<open>lazy_many1\<close> computes\<close>

lemma lazy_many1_loop_parses:
  "parses step s i xs out \<Longrightarrow>
   \<exists>s'. lazy_many1_loop N step s pv i =
     Some (s', pv @ xs, case out of Waiting t r \<Rightarrow> Ok r () | Panicked e \<Rightarrow> Panic e) \<and>
     (\<forall>t r. out = Waiting t r \<longrightarrow> s' = t)"
proof (induction arbitrary: pv rule: parses.induct)
  case (wait s i s' e)
  with step_Err [OF wait] show ?case by (auto simp: lazy_many1_loop.simps)
next
  case (panic s i s' e)
  then show ?case by (auto simp: lazy_many1_loop.simps)
next
  case (more s i s' r x xs out)
  then have "r \<noteq> i" using step_Ok_shorter by fastforce
  with more.hyps(1) have "lazy_many1_loop N step s pv i = lazy_many1_loop N step s' (pv @ [x]) r"
    by (simp add: lazy_many1_loop.simps [of N step s])
  with more.IH [of "pv @ [x]"] show ?case by simp
qed

lemma lazy_many1_parses_Cons:
  assumes "parses step s i (x # xs) out"
  shows "\<exists>s'. lazy_many1 N step s pv i =
     Some (s', pv @ x # xs, case out of Waiting t r \<Rightarrow> Ok r () | Panicked e \<Rightarrow> Panic e) \<and>
     (\<forall>t r. out = Waiting t r \<longrightarrow> s' = t)"
proof -
  from assms obtain s1 r1 where st: "step s i = (s1, Ok r1 x)" and p: "parses step s1 r1 xs out"
    by (auto elim: parses_ConsE)
  show ?thesis using lazy_many1_loop_parses [OF p, of N "pv @ [x]"] st by (simp add: lazy_many1_def)
qed

lemma lazy_many1_parses_Nil:
  assumes "parses step s i [] (Waiting t r)"
  shows "t = s \<and> r = i \<and> (\<exists>n. 0 < n \<and> step s i = (s, Err (Incomplete (Size n))) \<and>
     lazy_many1 N step s pv i = Some (s, pv, Err (Incomplete (Size n))))"
  using assms
proof (cases rule: parses.cases)
  case (wait s' e)
  from step_Err [OF wait(3)] wait show ?thesis by (auto simp: lazy_many1_def)
qed

lemma lazy_many1_parses_panic:
  assumes "parses step s i xs (Panicked e)"
  shows "\<exists>s' pv'. lazy_many1 N step s pv i = Some (s', pv', Panic e)"
  using assms
proof (cases rule: parses.cases)
  case (panic s')
  then show ?thesis by (simp add: lazy_many1_def)
next
  case (more s' r x xs')
  then show ?thesis using lazy_many1_parses_Cons [of s i x xs' "Panicked e" N pv] assms by auto
qed

end

end
