(* ===== verification/Record_Contract.thy ===== *)
theory Record_Contract
  imports Incremental_Parsing
begin

text \<open>
  The contracts of the record parsers, for any library with the documented behaviour: every
  parser is streaming, the record parser with its state is an incremental parser in the sense
  of \<open>Incremental_Parsing\<close>, it never reports an error other than missing bytes, and with a
  supported identifier size it panics only on an unknown tag, an unknown field type or a
  primitive array of objects.
\<close>

definition format_panics :: "panic set" where
  "format_panics = {ObjectTypeInPrimitiveArray} \<union> range FieldTypeNotFound
     \<union> range UnhandledRecordTag \<union> range UnhandledGcRecordTag"

definition supported_id_size :: "u32 \<Rightarrow> bool" where
  "supported_id_size id_size \<longleftrightarrow> id_size = 4 \<or> id_size = 8"

text \<open>The two modes of the record parser as stateless parsers: at the top level the value carries
  the new segment length where one is read.\<close>

definition record_mode :: "nom \<Rightarrow> u32 \<Rightarrow> (u32 option \<times> hprof_record) parser" where
  "record_mode N id_size =
     flat_map_p (parse_u8 N) (\<lambda>tag.
       if tag = TAG_STRING then map_p (parse_utf8_string N id_size) (Pair None)
       else if tag = TAG_LOAD_CLASS then map_p (parse_load_class N id_size) (Pair None)
       else if tag = TAG_UNLOAD_CLASS then map_p (parse_unload_class N) (Pair None)
       else if tag = TAG_STACK_FRAME then map_p (parse_stack_frame N id_size) (Pair None)
       else if tag = TAG_STACK_TRACE then map_p (parse_stack_trace N id_size) (Pair None)
       else if tag = TAG_ALLOC_SITES then map_p (parse_allocation_sites N) (Pair None)
       else if tag = TAG_HEAP_SUMMARY then map_p (parse_heap_summary N) (Pair None)
       else if tag = TAG_START_THREAD then map_p (parse_start_thread N id_size) (Pair None)
       else if tag = TAG_END_THREAD then map_p (parse_end_thread N) (Pair None)
       else if tag = TAG_CONTROL_SETTING then map_p (parse_control_settings N) (Pair None)
       else if tag = TAG_CPU_SAMPLES then map_p (parse_cpu_samples N) (Pair None)
       else if tag = TAG_HEAP_DUMP_END then map_p (parse_heap_dump_end N) (Pair None)
       else if tag = TAG_HEAP_DUMP \<or> tag = TAG_HEAP_DUMP_SEGMENT then
         map_p (parse_header_record N) (\<lambda>hr. (Some (rh_length hr), HeapDumpStart (rh_length hr)))
       else p_panic (UnhandledRecordTag tag))"

definition enter_segment :: "hprof_record_parser \<Rightarrow> u32 option \<Rightarrow> hprof_record_parser" where
  "enter_segment self l =
     (case l of None \<Rightarrow> self | Some n \<Rightarrow> self\<lparr>hp_heap_dump_remaining_len := n\<rparr>)"

definition leave_bytes :: "hprof_record_parser \<Rightarrow> nat \<Rightarrow> hprof_record_parser" where
  "leave_bytes self n = self\<lparr>hp_heap_dump_remaining_len :=
     saturating_sub (hp_heap_dump_remaining_len self) (word_of_nat n)\<rparr>"

definition top_result ::
  "hprof_record_parser \<Rightarrow> (u32 option \<times> hprof_record) iresult \<Rightarrow>
   hprof_record_parser \<times> hprof_record iresult" where
  "top_result self res =
    (case res of
       Ok r lx \<Rightarrow> (enter_segment self (fst lx), Ok r (snd lx))
     | Err e \<Rightarrow> (self, Err e) | Panic e \<Rightarrow> (self, Panic e))"

lemma top_result_simps:
  "top_result self (Ok r lx) = (enter_segment self (fst lx), Ok r (snd lx))"
  "top_result self (Err e) = (self, Err e)"
  "top_result self (Panic p) = (self, Panic p)"
  "top_result self (map_p q (Pair None) i) = (self, q i)"
  "top_result self (p_panic p i) = (self, Panic p)"
  "top_result self (map_p h (\<lambda>hr. (Some (rh_length hr), HeapDumpStart (rh_length hr))) i) =
    (case h i of
       Err e \<Rightarrow> (self, Err e)
     | Panic e \<Rightarrow> (self, Panic e)
     | Ok r2 hr \<Rightarrow> (self\<lparr>hp_heap_dump_remaining_len := rh_length hr\<rparr>,
                     Ok r2 (HeapDumpStart (rh_length hr))))"
  by (simp_all add: top_result_def enter_segment_def map_p_def p_panic_def split: iresult.split)

lemma parse_hprof_record_top:
  assumes "hp_heap_dump_remaining_len self = 0"
  shows "parse_hprof_record N self i = top_result self (record_mode N (hp_id_size self) i)"
proof (cases "parse_u8 N i")
  case (Ok r tag)
  then show ?thesis
    unfolding parse_hprof_record_def record_mode_def flat_map_p_def Let_def
    by (simp only: assms refl if_True iresult.case if_distribR if_distrib [of "top_result self"]
        top_result_simps)
qed (simp_all add: assms parse_hprof_record_def record_mode_def flat_map_p_def top_result_simps)

lemma parse_hprof_record_segment:
  assumes "hp_heap_dump_remaining_len self \<noteq> 0"
  shows "parse_hprof_record N self i =
    (case parse_gc_record N (hp_id_size self) i of
       Ok r x \<Rightarrow> (leave_bytes self (length i - length r), Ok r (GcSegment x))
     | Err e \<Rightarrow> (self, Err e) | Panic e \<Rightarrow> (self, Panic e))"
  using assms by (simp add: parse_hprof_record_def leave_bytes_def split: iresult.split)

lemmas root_parser_defs =
  parse_gc_root_unknown_def parse_gc_root_thread_object_def parse_gc_root_jni_global_def
  parse_gc_root_jni_local_def parse_gc_root_java_frame_def parse_gc_root_native_stack_def
  parse_gc_root_sticky_class_def parse_gc_root_thread_block_def parse_gc_root_monitor_used_def
  parse_gc_root_interned_string_def parse_gc_root_finalizing_def parse_gc_root_debugger_def
  parse_gc_root_reference_cleanup_def parse_gc_root_vm_internal_def parse_gc_root_jni_monitor_def
  parse_gc_unreachable_def parse_gc_heap_dump_info_def parse_gc_primitive_array_nodata_dump_def

lemmas object_parser_defs =
  parse_gc_instance_dump_def parse_gc_object_array_dump_def parse_gc_primitive_array_dump_def

lemmas top_parser_defs =
  parse_utf8_string_def parse_load_class_def parse_unload_class_def parse_stack_frame_def
  parse_stack_trace_def parse_start_thread_def parse_heap_summary_def parse_end_thread_def
  parse_allocation_sites_def parse_heap_dump_end_def parse_control_settings_def
  parse_cpu_samples_def

context nom_streaming
begin

subsection \<open>Streaming\<close>

lemma streaming_id [streaming_intros]: "streaming (id_p N id_size)"
  unfolding id_p_def parse_id_def by (intro streaming_intros)

lemma streaming_field_type [streaming_intros]: "streaming (parse_field_type N)"
  unfolding parse_field_type_def by (intro streaming_intros)

lemma streaming_field_value [streaming_intros]: "streaming (parse_field_value N ty id_size)"
  unfolding parse_field_value_def by (cases ty) (auto intro!: streaming_intros)

lemma streaming_skip_array_value [streaming_intros]: "streaming (skip_array_value N ty n)"
  unfolding skip_array_value_def Let_def by (cases ty) (auto intro!: streaming_intros)

lemma streaming_array_value [streaming_intros]: "streaming (parse_array_value N ty n)"
  unfolding parse_array_value_def Let_def by (cases ty) (auto intro!: streaming_intros)

lemma streaming_const_pool_item [streaming_intros]: "streaming (parse_const_pool_item N id_size)"
  unfolding parse_const_pool_item_def by (intro streaming_intros)

lemma streaming_static_field_item [streaming_intros]: "streaming (parse_static_field_item N id_size)"
  unfolding parse_static_field_item_def by (intro streaming_intros)

lemma streaming_instance_field_item [streaming_intros]:
  "streaming (parse_instance_field_item N id_size)"
  unfolding parse_instance_field_item_def by (intro streaming_intros)

lemma streaming_class_dump [streaming_intros]: "streaming (parse_gc_class_dump N id_size)"
  unfolding parse_gc_class_dump_def by (intro streaming_intros)

lemma streaming_gc_record [streaming_intros]: "streaming (parse_gc_record N id_size)"
  unfolding parse_gc_record_def root_parser_defs object_parser_defs by (intro streaming_intros)

lemma streaming_header_record [streaming_intros]: "streaming (parse_header_record N)"
  unfolding parse_header_record_def by (intro streaming_intros)

lemma streaming_allocation_site [streaming_intros]: "streaming (parse_allocation_site N)"
  unfolding parse_allocation_site_def by (intro streaming_intros)

lemma streaming_cpu_sample [streaming_intros]: "streaming (parse_cpu_sample N)"
  unfolding parse_cpu_sample_def by (intro streaming_intros)

lemma streaming_top [streaming_intros]:
  "streaming (parse_utf8_string N id_size)" "streaming (parse_load_class N id_size)"
  "streaming (parse_unload_class N)" "streaming (parse_stack_frame N id_size)"
  "streaming (parse_stack_trace N id_size)" "streaming (parse_start_thread N id_size)"
  "streaming (parse_heap_summary N)" "streaming (parse_end_thread N)"
  "streaming (parse_allocation_sites N)" "streaming (parse_heap_dump_end N)"
  "streaming (parse_control_settings N)" "streaming (parse_cpu_samples N)"
  unfolding top_parser_defs Let_def by (intro streaming_intros)+

subsection \<open>Panics\<close>

lemma panics_id [progress_intros]: "supported_id_size id_size \<Longrightarrow> panics_in E (id_p N id_size)"
  unfolding id_p_def parse_id_def supported_id_size_def by (auto intro!: progress_intros)

lemma format_panics_members:
  "ObjectTypeInPrimitiveArray \<in> format_panics" "FieldTypeNotFound v \<in> format_panics"
  "UnhandledRecordTag t \<in> format_panics" "UnhandledGcRecordTag t \<in> format_panics"
  by (simp_all add: format_panics_def)

lemma panics_field_type [progress_intros]: "panics_in format_panics (parse_field_type N)"
  unfolding parse_field_type_def
  by (intro progress_intros) (simp add: from_value_Inl format_panics_members)

lemma panics_field_value [progress_intros]:
  "supported_id_size id_size \<Longrightarrow> panics_in format_panics (parse_field_value N ty id_size)"
  unfolding parse_field_value_def by (cases ty) (auto intro!: progress_intros)

lemma panics_skip_array_value [progress_intros]:
  "panics_in format_panics (skip_array_value N ty n)"
  unfolding skip_array_value_def Let_def
  by (cases ty) (auto intro!: progress_intros simp: format_panics_members)

lemma panics_items [progress_intros]:
  assumes "supported_id_size id_size"
  shows "panics_in format_panics (parse_const_pool_item N id_size)"
    and "panics_in format_panics (parse_static_field_item N id_size)"
    and "panics_in format_panics (parse_instance_field_item N id_size)"
  unfolding parse_const_pool_item_def parse_static_field_item_def parse_instance_field_item_def
  by (intro progress_intros assms)+

lemma panics_class_dump [progress_intros]:
  "supported_id_size id_size \<Longrightarrow> panics_in format_panics (parse_gc_class_dump N id_size)"
  unfolding parse_gc_class_dump_def by (intro progress_intros streaming_intros)

lemma panics_gc_record [progress_intros]:
  "supported_id_size id_size \<Longrightarrow> panics_in format_panics (parse_gc_record N id_size)"
  unfolding parse_gc_record_def root_parser_defs object_parser_defs
  by (intro progress_intros) (simp_all add: format_panics_members)

lemma panics_header [progress_intros]: "panics_in E (parse_header_record N)"
  unfolding parse_header_record_def by (intro progress_intros)

lemma panics_rows [progress_intros]:
  "panics_in E (parse_allocation_site N)" "panics_in E (parse_cpu_sample N)"
  unfolding parse_allocation_site_def parse_cpu_sample_def by (intro progress_intros)+

lemma panics_top [progress_intros]:
  assumes "supported_id_size id_size"
  shows "panics_in format_panics (parse_utf8_string N id_size)"
    "panics_in format_panics (parse_load_class N id_size)"
    "panics_in format_panics (parse_unload_class N)"
    "panics_in format_panics (parse_stack_frame N id_size)"
    "panics_in format_panics (parse_stack_trace N id_size)"
    "panics_in format_panics (parse_start_thread N id_size)"
    "panics_in format_panics (parse_heap_summary N)" "panics_in format_panics (parse_end_thread N)"
    "panics_in format_panics (parse_allocation_sites N)"
    "panics_in format_panics (parse_heap_dump_end N)"
    "panics_in format_panics (parse_control_settings N)"
    "panics_in format_panics (parse_cpu_samples N)"
  using assms unfolding top_parser_defs Let_def
  by (auto intro!: progress_intros streaming_intros simp: supported_id_size_def)

subsection \<open>The record parser\<close>

lemma streaming_record_mode: "streaming (record_mode N id_size)"
  unfolding record_mode_def by (intro streaming_intros)

lemma consumes_first_byte:
  assumes "\<And>t. streaming (f t)"
  shows "consumes 1 (flat_map_p (parse_u8 N) f)"
  using consumes_flat_map [OF consumes_primitives(1) streaming_consumes_0 [OF assms]] by simp

lemma consumes_record_mode: "consumes 1 (record_mode N id_size)"
  unfolding record_mode_def by (rule consumes_first_byte) (intro streaming_intros)

lemma consumes_gc_record: "consumes 1 (parse_gc_record N id_size)"
  unfolding parse_gc_record_def root_parser_defs object_parser_defs
  by (rule consumes_first_byte) (intro streaming_intros)

lemma panics_record_mode:
  "supported_id_size id_size \<Longrightarrow> panics_in format_panics (record_mode N id_size)"
  unfolding record_mode_def by (intro progress_intros) (simp_all add: format_panics_members)

lemma parse_hprof_record_Ok:
  assumes "parse_hprof_record N self i = (self', Ok r x)"
  shows "\<exists>c. c \<noteq> [] \<and> i = c @ r \<and> (\<forall>j. parse_hprof_record N self (c @ j) = (self', Ok j x))"
proof (cases "hp_heap_dump_remaining_len self = 0")
  case True
  with assms obtain l where p: "record_mode N (hp_id_size self) i = Ok r (l, x)"
    and s: "self' = enter_segment self l"
    by (auto simp: parse_hprof_record_top top_result_def split: iresult.splits)
  obtain c where "i = c @ r" "\<And>j. record_mode N (hp_id_size self) (c @ j) = Ok j (l, x)"
    using streaming_Ok [OF streaming_record_mode p] by blast
  moreover have "length r < length i" using consumesD [OF consumes_record_mode p] by simp
  ultimately show ?thesis using True s by (auto simp: parse_hprof_record_top top_result_def intro!: exI [of _ c])
next
  case False
  with assms obtain g where p: "parse_gc_record N (hp_id_size self) i = Ok r g"
    and s: "self' = leave_bytes self (length i - length r)" and x: "x = GcSegment g"
    by (auto simp: parse_hprof_record_segment split: iresult.splits)
  obtain c where "i = c @ r" "\<And>j. parse_gc_record N (hp_id_size self) (c @ j) = Ok j g"
    using streaming_Ok [OF streaming_gc_record p] by blast
  moreover have "length r < length i" using consumesD [OF consumes_gc_record p] by simp
  ultimately show ?thesis using False s x
    by (auto simp: parse_hprof_record_segment intro!: exI [of _ c])
qed

lemma parse_hprof_record_Err:
  assumes "parse_hprof_record N self i = (self', Err e)"
  shows "self' = self \<and> (\<exists>n. 0 < n \<and> e = Incomplete (Size n) \<and> (\<forall>j. length j < n \<longrightarrow>
     parse_hprof_record N self (i @ j) = (self, Err (Incomplete (Size (n - length j))))))"
proof (cases "hp_heap_dump_remaining_len self = 0")
  case True
  with assms have p: "record_mode N (hp_id_size self) i = Err e" and "self' = self"
    by (auto simp: parse_hprof_record_top top_result_def split: iresult.splits)
  with streaming_Err [OF streaming_record_mode p] True show ?thesis
    by (metis (mono_tags, lifting) iresult.case(2) parse_hprof_record_top top_result_simps(2))
next
  case False
  with assms have p: "parse_gc_record N (hp_id_size self) i = Err e" and "self' = self"
    by (auto simp: parse_hprof_record_segment split: iresult.splits)
  with streaming_Err [OF streaming_gc_record p] False show ?thesis
    by (metis (mono_tags, lifting) iresult.case(2) parse_hprof_record_segment)
qed

lemma parse_hprof_record_Panic:
  assumes "parse_hprof_record N self i = (self', Panic e)"
  shows "parse_hprof_record N self (i @ j) = (self', Panic e)"
proof (cases "hp_heap_dump_remaining_len self = 0")
  case True
  with assms have "record_mode N (hp_id_size self) i = Panic e" and "self' = self"
    by (auto simp: parse_hprof_record_top top_result_def split: iresult.splits)
  with True streaming_Panic [OF streaming_record_mode, of "hp_id_size self" i e j] show ?thesis
    by (simp add: parse_hprof_record_top top_result_def)
next
  case False
  with assms have "parse_gc_record N (hp_id_size self) i = Panic e" and "self' = self"
    by (auto simp: parse_hprof_record_segment split: iresult.splits)
  with False streaming_Panic [OF streaming_gc_record, of "hp_id_size self" i e j] show ?thesis
    by (simp add: parse_hprof_record_segment)
qed

lemma parse_hprof_record_panics:
  assumes "supported_id_size (hp_id_size self)" and "parse_hprof_record N self i = (self', Panic e)"
  shows "e \<in> format_panics"
  using assms panics_record_mode [OF assms(1)] panics_gc_record [OF assms(1)]
  by (cases "hp_heap_dump_remaining_len self = 0")
    (auto simp: parse_hprof_record_top top_result_def parse_hprof_record_segment panics_in_def split: iresult.splits)

end

sublocale nom_streaming \<subseteq> hprof: incremental_parser "parse_hprof_record N"
  using parse_hprof_record_Ok parse_hprof_record_Err parse_hprof_record_Panic
  by unfold_locales

context nom_streaming
begin

lemma whole_parse_total: "\<exists>xs out. parses (parse_hprof_record N) self i xs out"
  by (rule hprof.parses_total)

lemma parse_streaming_total: "\<exists>res. parse_streaming N self pv i = Some res"
proof -
  obtain xs out where p: "parses (parse_hprof_record N) self i xs out"
    using whole_parse_total by blast
  show ?thesis
  proof (cases out)
    case (Panicked e)
    with p hprof.lazy_many1_parses_panic [of self i xs e N pv] show ?thesis
      by (auto simp: parse_streaming_def)
  next
    case (Waiting t r)
    with p hprof.lazy_many1_parses_Nil [of self i t r N pv]
      hprof.lazy_many1_parses_Cons [of self i "hd xs" "tl xs" out N pv] show ?thesis
      by (cases xs) (auto simp: parse_streaming_def)
  qed
qed

end

context nom_streaming
begin

lemma parse_hprof_record_Nil: "parse_hprof_record N s [] = (s, Err (Incomplete (Size 1)))"
proof -
  have "parse_u8 N [] = Err (Incomplete (Size 1))"
    using primitive_laws(1) by (simp add: fixed_width_be_def)
  then show ?thesis by (simp add: parse_hprof_record_def parse_gc_record_def flat_map_p_def Let_def)
qed

end

section \<open>Properties\<close>

text \<open>Property C23: outside of panics the record parser has two answers only: a record, for which it
  consumed at least one byte and whose reading does not depend on the bytes that follow, or a
  request for a positive number of missing bytes, which leaves its state as it was. It never
  reports any other error, so the branches of the parser thread for parse errors and for an
  unknown number of missing bytes are never taken.\<close>

theorem parse_hprof_record_answers:
  assumes "nom_streaming N"
  shows "case parse_hprof_record N self i of
      (self', Ok r x) \<Rightarrow>
        \<exists>c. c \<noteq> [] \<and> i = c @ r \<and> (\<forall>j. parse_hprof_record N self (c @ j) = (self', Ok j x))
    | (self', Err e) \<Rightarrow> self' = self \<and> (\<exists>n > 0. e = Incomplete (Size n))
    | (self', Panic e) \<Rightarrow> \<forall>j. parse_hprof_record N self (i @ j) = (self', Panic e)"
proof -
  obtain self' res where r: "parse_hprof_record N self i = (self', res)" by fastforce
  show ?thesis
  proof (cases res)
    case (Ok rest x)
    with r nom_streaming.parse_hprof_record_Ok [OF assms, of self i] show ?thesis by simp
  next
    case (Err e)
    with r nom_streaming.parse_hprof_record_Err [OF assms, of self i self' e] show ?thesis by auto
  next
    case (Panic e)
    with r nom_streaming.parse_hprof_record_Panic [OF assms, of self i self' e] show ?thesis by simp
  qed
qed

theorem parse_hprof_record_answers_witness:
  "case parse_hprof_record nom_ref (hprof_record_parser_new False 8) [0x2C, 0, 0] of
      (self', Ok r x) \<Rightarrow>
        \<exists>c. c \<noteq> [] \<and> [0x2C, 0, 0] = c @ r \<and>
          (\<forall>j. parse_hprof_record nom_ref (hprof_record_parser_new False 8) (c @ j) = (self', Ok j x))
    | (self', Err e) \<Rightarrow> self' = hprof_record_parser_new False 8 \<and> (\<exists>n > 0. e = Incomplete (Size n))
    | (self', Panic e) \<Rightarrow>
        \<forall>j. parse_hprof_record nom_ref (hprof_record_parser_new False 8) ([0x2C, 0, 0] @ j) = (self', Panic e)"
  by (rule parse_hprof_record_answers [OF ref.nom_streaming_axioms])

text \<open>Property C24: the number of missing bytes is sound. After an incomplete answer that asks for
  \<open>n\<close> bytes, no extension of the input by fewer bytes can be parsed: the parser thread loses
  nothing when it waits for the buffer to grow by \<open>n\<close>.\<close>

theorem incomplete_size_is_sound:
  assumes "nom_streaming N" and "parse_hprof_record N self i = (self', Err (Incomplete (Size n)))"
    and "length j < n"
  shows "parse_hprof_record N self (i @ j) = (self, Err (Incomplete (Size (n - length j))))"
  using nom_streaming.parse_hprof_record_Err [OF assms(1,2)] assms(3) by simp

theorem incomplete_size_is_sound_witness:
  "parse_hprof_record nom_ref (hprof_record_parser_new False 8) ([0x2C, 0, 0] @ [7]) =
     (hprof_record_parser_new False 8, Err (Incomplete (Size (2 - 1))))"
proof -
  have "parse_hprof_record nom_ref (hprof_record_parser_new False 8) [0x2C, 0, 0] =
      (hprof_record_parser_new False 8, Err (Incomplete (Size 2)))"
    by code_simp
  from incomplete_size_is_sound [OF ref.nom_streaming_axioms this, of "[7]"] show ?thesis by simp
qed

text \<open>Property C25: with an identifier size of 4 or 8 (what the header check admits) the record
  parser panics only because of the dump's contents: an unknown record tag or sub-record tag, an
  unknown field type, or a primitive array of objects. Neither an unsupported identifier size nor
  a division by zero can occur.\<close>

theorem parser_panics_only_on_format:
  assumes "nom_streaming N" and "supported_id_size (hp_id_size self)"
    and "parse_hprof_record N self i = (self', Panic e)"
  shows "e \<in> format_panics"
  using nom_streaming.parse_hprof_record_panics [OF assms(1)] assms(2,3) by blast

theorem parser_panics_only_on_format_witness: "UnhandledRecordTag 0x99 \<in> format_panics"
proof -
  have "parse_hprof_record nom_ref (hprof_record_parser_new False 8) [0x99] =
      (hprof_record_parser_new False 8, Panic (UnhandledRecordTag 0x99))"
    by code_simp
  moreover have "supported_id_size (hp_id_size (hprof_record_parser_new False 8))"
    by (simp add: supported_id_size_def hprof_record_parser_new_def)
  ultimately show ?thesis using parser_panics_only_on_format [OF ref.nom_streaming_axioms] by blast
qed

text \<open>Parsing a buffer always ends. The loop of \<open>lazy_many1\<close> has no bound of its
  own, but every record consumes input, so \<open>parse_streaming\<close> returns on every input.\<close>

lemma parse_streaming_returns:
  assumes "nom_streaming N"
  shows "\<exists>res. parse_streaming N self pooled_vec i = Some res"
  by (rule nom_streaming.parse_streaming_total [OF assms])

end
