(* ===== verification/Record_Format.thy ===== *)
theory Record_Format
  imports Record_Contract
begin

text \<open>
  The binary format the parsers are meant to read, written as encoders: big-endian integers,
  identifiers of the size the file header gives, sub-records with their tags, top-level records
  with tag, timestamp and body length, and a dump as a sequence of records and heap dump
  segments. The lemmas show that the parsers invert the encoders, whatever bytes follow. The
  one place where the encoder follows the parser and not the format's description is the record
  of CPU samples, whose rows the parser counts with the total number of samples.
\<close>

section \<open>Encoders\<close>

definition enc_id :: "u32 \<Rightarrow> u64 \<Rightarrow> bytes" where
  "enc_id id_size v = (if id_size = 4 then be_word 4 (ucast v :: u32) else be_word 8 v)"

definition id_fits :: "u32 \<Rightarrow> u64 \<Rightarrow> bool" where
  "id_fits id_size v \<longleftrightarrow> (id_size = 4 \<longrightarrow> unat v < 2 ^ 32)"

fun fv_type :: "field_value \<Rightarrow> field_type" where
  "fv_type (FV_Bool _) = FT_Bool"
| "fv_type (FV_Byte _) = FT_Byte"
| "fv_type (FV_Char _) = FT_Char"
| "fv_type (FV_Short _) = FT_Short"
| "fv_type (FV_Int _) = FT_Int"
| "fv_type (FV_Long _) = FT_Long"
| "fv_type (FV_Float _) = FT_Float"
| "fv_type (FV_Double _) = FT_Double"
| "fv_type (FV_Object _) = FT_Object"

fun enc_fv :: "u32 \<Rightarrow> field_value \<Rightarrow> bytes" where
  "enc_fv id_size (FV_Bool b) = [if b then 1 else 0]"
| "enc_fv id_size (FV_Byte w) = [w]"
| "enc_fv id_size (FV_Char w) = be_word 2 w"
| "enc_fv id_size (FV_Short w) = be_word 2 w"
| "enc_fv id_size (FV_Int w) = be_word 4 w"
| "enc_fv id_size (FV_Long w) = be_word 8 w"
| "enc_fv id_size (FV_Float w) = be_word 4 w"
| "enc_fv id_size (FV_Double w) = be_word 8 w"
| "enc_fv id_size (FV_Object v) = enc_id id_size v"

fun fv_fits :: "u32 \<Rightarrow> field_value \<Rightarrow> bool" where
  "fv_fits id_size (FV_Object v) = id_fits id_size v"
| "fv_fits id_size _ = True"

definition enc_const :: "u32 \<Rightarrow> const_field_info \<times> field_value \<Rightarrow> bytes" where
  "enc_const id_size c = be_word 2 (cfi_const_pool_idx (fst c)) @
     [field_type_value (cfi_const_type (fst c))] @ enc_fv id_size (snd c)"

definition const_fits :: "u32 \<Rightarrow> const_field_info \<times> field_value \<Rightarrow> bool" where
  "const_fits id_size c \<longleftrightarrow> cfi_const_type (fst c) = fv_type (snd c) \<and> fv_fits id_size (snd c)"

definition enc_field :: "u32 \<Rightarrow> field_info \<Rightarrow> bytes" where
  "enc_field id_size f = enc_id id_size (fi_name_id f) @ [field_type_value (fi_field_type f)]"

definition field_fits :: "u32 \<Rightarrow> field_info \<Rightarrow> bool" where
  "field_fits id_size f \<longleftrightarrow> id_fits id_size (fi_name_id f)"

definition enc_static :: "u32 \<Rightarrow> field_info \<times> field_value \<Rightarrow> bytes" where
  "enc_static id_size s = enc_field id_size (fst s) @ enc_fv id_size (snd s)"

definition static_fits :: "u32 \<Rightarrow> field_info \<times> field_value \<Rightarrow> bool" where
  "static_fits id_size s \<longleftrightarrow> field_fits id_size (fst s) \<and>
     fi_field_type (fst s) = fv_type (snd s) \<and> fv_fits id_size (snd s)"

text \<open>The bytes per element of a primitive array.\<close>

fun element_size :: "field_type \<Rightarrow> nat" where
  "element_size FT_Object = 0"
| "element_size FT_Bool = 1"
| "element_size FT_Byte = 1"
| "element_size FT_Char = 2"
| "element_size FT_Short = 2"
| "element_size FT_Float = 4"
| "element_size FT_Int = 4"
| "element_size FT_Double = 8"
| "element_size FT_Long = 8"

text \<open>A sub-record as it stands in a dump: the parsed record, the object contents the parser
  skips (\<open>body\<close>), and the five identifiers of a class dump it drops (\<open>ids\<close>).\<close>

record gc_item =
  gi_record :: gc_record
  gi_body :: bytes
  gi_ids :: "u64 list"

definition enc_class_dump :: "u32 \<Rightarrow> class_dump_fields \<Rightarrow> u64 list \<Rightarrow> bytes" where
  "enc_class_dump id_size c ids =
     enc_id id_size (cdf_class_object_id c) @ be_word 4 (cdf_stack_trace_serial_number c) @
     enc_id id_size (cdf_super_class_object_id c) @ concat (map (enc_id id_size) ids) @
     be_word 4 (cdf_instance_size c) @
     be_word 2 (word_of_nat (length (cdf_const_fields c)) :: u16) @
     concat (map (enc_const id_size) (cdf_const_fields c)) @
     be_word 2 (word_of_nat (length (cdf_static_fields c)) :: u16) @
     concat (map (enc_static id_size) (cdf_static_fields c)) @
     be_word 2 (word_of_nat (length (cdf_instance_fields c)) :: u16) @
     concat (map (enc_field id_size) (cdf_instance_fields c))"

definition class_dump_fits :: "u32 \<Rightarrow> class_dump_fields \<Rightarrow> u64 list \<Rightarrow> bool" where
  "class_dump_fits id_size c ids \<longleftrightarrow>
     id_fits id_size (cdf_class_object_id c) \<and> id_fits id_size (cdf_super_class_object_id c) \<and>
     length ids = 5 \<and> list_all (id_fits id_size) ids \<and>
     length (cdf_const_fields c) < 2 ^ 16 \<and> list_all (const_fits id_size) (cdf_const_fields c) \<and>
     length (cdf_static_fields c) < 2 ^ 16 \<and> list_all (static_fits id_size) (cdf_static_fields c) \<and>
     length (cdf_instance_fields c) < 2 ^ 16 \<and> list_all (field_fits id_size) (cdf_instance_fields c)"

fun enc_gc_payload :: "u32 \<Rightarrow> gc_record \<Rightarrow> bytes \<Rightarrow> u64 list \<Rightarrow> bytes" where
  "enc_gc_payload z (RootUnknown a) b ids = 0xFF # enc_id z a"
| "enc_gc_payload z (RootThreadObject a n m) b ids = 0x08 # enc_id z a @ be_word 4 n @ be_word 4 m"
| "enc_gc_payload z (RootJniGlobal a r) b ids = 0x01 # enc_id z a @ enc_id z r"
| "enc_gc_payload z (RootJniLocal a n m) b ids = 0x02 # enc_id z a @ be_word 4 n @ be_word 4 m"
| "enc_gc_payload z (RootJavaFrame a n m) b ids = 0x03 # enc_id z a @ be_word 4 n @ be_word 4 m"
| "enc_gc_payload z (RootNativeStack a n) b ids = 0x04 # enc_id z a @ be_word 4 n"
| "enc_gc_payload z (RootStickyClass a) b ids = 0x05 # enc_id z a"
| "enc_gc_payload z (RootThreadBlock a n) b ids = 0x06 # enc_id z a @ be_word 4 n"
| "enc_gc_payload z (RootMonitorUsed a) b ids = 0x07 # enc_id z a"
| "enc_gc_payload z (RootInternedString a) b ids = 0x89 # enc_id z a"
| "enc_gc_payload z (RootFinalizing a) b ids = 0x8A # enc_id z a"
| "enc_gc_payload z (RootDebugger a) b ids = 0x8B # enc_id z a"
| "enc_gc_payload z (RootReferenceCleanup a) b ids = 0x8C # enc_id z a"
| "enc_gc_payload z (RootVmInternal a) b ids = 0x8D # enc_id z a"
| "enc_gc_payload z (RootJniMonitor a n m) b ids = 0x8E # enc_id z a @ be_word 4 n @ be_word 4 m"
| "enc_gc_payload z (Unreachable a) b ids = 0x90 # enc_id z a"
| "enc_gc_payload z (HeapDumpInfo t a) b ids = 0xFE # be_word 4 t @ enc_id z a"
| "enc_gc_payload z (PrimitiveArrayNoDataDump a n m t) b ids =
     0xC3 # enc_id z a @ be_word 4 n @ be_word 4 m @ [field_type_value t]"
| "enc_gc_payload z (InstanceDump a n c m) b ids =
     0x21 # enc_id z a @ be_word 4 n @ enc_id z c @ be_word 4 m @ b"
| "enc_gc_payload z (ObjectArrayDump a n m c) b ids =
     0x22 # enc_id z a @ be_word 4 n @ be_word 4 m @ enc_id z c @ b"
| "enc_gc_payload z (PrimitiveArrayDump a n m t) b ids =
     0x23 # enc_id z a @ be_word 4 n @ be_word 4 m @ [field_type_value t] @ b"
| "enc_gc_payload z (ClassDump c) b ids = 0x20 # enc_class_dump z c ids"

definition enc_gc :: "u32 \<Rightarrow> gc_item \<Rightarrow> bytes" where
  "enc_gc id_size g = enc_gc_payload id_size (gi_record g) (gi_body g) (gi_ids g)"

fun gc_record_fits :: "u32 \<Rightarrow> gc_record \<Rightarrow> bytes \<Rightarrow> u64 list \<Rightarrow> bool" where
  "gc_record_fits z (RootJniGlobal a r) b ids = (id_fits z a \<and> id_fits z r)"
| "gc_record_fits z (HeapDumpInfo t a) b ids = id_fits z a"
| "gc_record_fits z (InstanceDump a n c m) b ids = (id_fits z a \<and> id_fits z c \<and> length b = unat m)"
| "gc_record_fits z (ObjectArrayDump a n m c) b ids =
     (id_fits z a \<and> id_fits z c \<and> length b = unat m * unat z)"
| "gc_record_fits z (PrimitiveArrayDump a n m t) b ids =
     (id_fits z a \<and> t \<noteq> FT_Object \<and> length b = unat m * element_size t)"
| "gc_record_fits z (PrimitiveArrayNoDataDump a n m t) b ids = id_fits z a"
| "gc_record_fits z (ClassDump c) b ids = class_dump_fits z c ids"
| "gc_record_fits z (RootUnknown a) b ids = id_fits z a"
| "gc_record_fits z (RootThreadObject a n m) b ids = id_fits z a"
| "gc_record_fits z (RootJniLocal a n m) b ids = id_fits z a"
| "gc_record_fits z (RootJavaFrame a n m) b ids = id_fits z a"
| "gc_record_fits z (RootNativeStack a n) b ids = id_fits z a"
| "gc_record_fits z (RootStickyClass a) b ids = id_fits z a"
| "gc_record_fits z (RootThreadBlock a n) b ids = id_fits z a"
| "gc_record_fits z (RootMonitorUsed a) b ids = id_fits z a"
| "gc_record_fits z (RootInternedString a) b ids = id_fits z a"
| "gc_record_fits z (RootFinalizing a) b ids = id_fits z a"
| "gc_record_fits z (RootDebugger a) b ids = id_fits z a"
| "gc_record_fits z (RootReferenceCleanup a) b ids = id_fits z a"
| "gc_record_fits z (RootVmInternal a) b ids = id_fits z a"
| "gc_record_fits z (RootJniMonitor a n m) b ids = id_fits z a"
| "gc_record_fits z (Unreachable a) b ids = id_fits z a"

definition gc_fits :: "u32 \<Rightarrow> gc_item \<Rightarrow> bool" where
  "gc_fits id_size g \<longleftrightarrow> gc_record_fits id_size (gi_record g) (gi_body g) (gi_ids g)"

text \<open>Top-level records. The body of a string record is its raw bytes, of which the record
  holds the lossy decoding; the body length is that of the encoded body, except that the record
  that ends a heap dump keeps the length it carries.\<close>

definition enc_site :: "allocation_site \<Rightarrow> bytes" where
  "enc_site a = as_is_array a # be_word 4 (as_class_serial_number a) @
     be_word 4 (as_stack_trace_serial_number a) @ be_word 4 (as_bytes_alive a) @
     be_word 4 (as_instances_alive a) @ be_word 4 (as_bytes_allocated a) @
     be_word 4 (as_instances_allocated a)"

definition enc_sample :: "cpu_sample \<Rightarrow> bytes" where
  "enc_sample c = be_word 4 (cs_number_of_samples c) @ be_word 4 (cs_stack_trace_serial_number c)"

fun record_tag :: "hprof_record \<Rightarrow> u8" where
  "record_tag (Utf8String _ _) = 0x01"
| "record_tag (LoadClass _) = 0x02"
| "record_tag (UnloadClass _) = 0x03"
| "record_tag (StackFrame _) = 0x04"
| "record_tag (StackTrace _) = 0x05"
| "record_tag (AllocationSites _ _ _ _ _ _ _ _) = 0x06"
| "record_tag (HeapSummary _ _ _ _) = 0x07"
| "record_tag (StartThread _ _ _ _ _ _) = 0x0A"
| "record_tag (EndThread _) = 0x0B"
| "record_tag (HeapDumpStart _) = 0x0C"
| "record_tag (CpuSamples _ _ _) = 0x0D"
| "record_tag (ControlSettings _ _) = 0x0E"
| "record_tag (HeapDumpEnd _) = 0x2C"
| "record_tag (GcSegment _) = 0x1C"

fun enc_body :: "u32 \<Rightarrow> hprof_record \<Rightarrow> bytes \<Rightarrow> bytes" where
  "enc_body z (Utf8String i s) raw = enc_id z i @ raw"
| "enc_body z (LoadClass d) raw = be_word 4 (lc_serial_number d) @ enc_id z (lc_class_object_id d) @
     be_word 4 (lc_stack_trace_serial_number d) @ enc_id z (lc_class_name_id d)"
| "enc_body z (UnloadClass n) raw = be_word 4 n"
| "enc_body z (StackFrame d) raw = enc_id z (sf_stack_frame_id d) @ enc_id z (sf_method_name_id d) @
     enc_id z (sf_method_signature_id d) @ enc_id z (sf_source_file_name_id d) @
     be_word 4 (sf_class_serial_number d) @ be_word 4 (sf_line_number d)"
| "enc_body z (StackTrace d) raw = be_word 4 (st_serial_number d) @
     be_word 4 (st_thread_serial_number d) @ be_word 4 (st_number_of_frames d) @
     concat (map (enc_id z) (st_stack_frame_ids d))"
| "enc_body z (AllocationSites f c lb li ba ia n sites) raw = be_word 2 f @ be_word 4 c @ be_word 4 lb @
     be_word 4 li @ be_word 8 ba @ be_word 8 ia @ be_word 4 n @ concat (map enc_site sites)"
| "enc_body z (StartThread n t s a b c) raw = be_word 4 n @ enc_id z t @ be_word 4 s @ enc_id z a @
     enc_id z b @ enc_id z c"
| "enc_body z (EndThread n) raw = be_word 4 n"
| "enc_body z (HeapSummary lb li ba ia) raw = be_word 4 lb @ be_word 4 li @ be_word 8 ba @ be_word 8 ia"
| "enc_body z (ControlSettings f d) raw = be_word 4 f @ be_word 2 d"
| "enc_body z (CpuSamples n t cs) raw = be_word 4 n @ be_word 4 t @ concat (map enc_sample cs)"
| "enc_body z _ raw = []"

fun body_length :: "u32 \<Rightarrow> hprof_record \<Rightarrow> bytes \<Rightarrow> u32" where
  "body_length z (HeapDumpEnd l) raw = l"
| "body_length z r raw = word_of_nat (length (enc_body z r raw))"

definition enc_record :: "u32 \<Rightarrow> u32 \<Rightarrow> hprof_record \<Rightarrow> bytes \<Rightarrow> bytes" where
  "enc_record z ts r raw =
     record_tag r # be_word 4 ts @ be_word 4 (body_length z r raw) @ enc_body z r raw"

fun record_fits :: "u32 \<Rightarrow> hprof_record \<Rightarrow> bytes \<Rightarrow> bool" where
  "record_fits z (Utf8String i s) raw =
     (id_fits z i \<and> s = from_utf8_lossy raw \<and> unat z + length raw < 2 ^ 32)"
| "record_fits z (LoadClass d) raw = (id_fits z (lc_class_object_id d) \<and> id_fits z (lc_class_name_id d))"
| "record_fits z (StackFrame d) raw = (id_fits z (sf_stack_frame_id d) \<and> id_fits z (sf_method_name_id d) \<and>
     id_fits z (sf_method_signature_id d) \<and> id_fits z (sf_source_file_name_id d))"
| "record_fits z (StackTrace d) raw =
     (list_all (id_fits z) (st_stack_frame_ids d) \<and> 12 + unat z * length (st_stack_frame_ids d) < 2 ^ 32)"
| "record_fits z (AllocationSites f c lb li ba ia n sites) raw = (length sites = unat n)"
| "record_fits z (StartThread n t s a b c) raw =
     (id_fits z t \<and> id_fits z a \<and> id_fits z b \<and> id_fits z c)"
| "record_fits z (CpuSamples n t cs) raw = (length cs = unat n)"
| "record_fits z (HeapDumpStart _) raw = False"
| "record_fits z (GcSegment _) raw = False"
| "record_fits z _ raw = True"

text \<open>A dump is a sequence of top-level records and heap dump segments.\<close>

datatype dump_item = TopRecord u32 hprof_record bytes | Segment u8 u32 "gc_item list"

definition segment_body :: "u32 \<Rightarrow> gc_item list \<Rightarrow> bytes" where
  "segment_body z gs = concat (map (enc_gc z) gs)"

fun enc_item :: "u32 \<Rightarrow> dump_item \<Rightarrow> bytes" where
  "enc_item z (TopRecord ts r raw) = enc_record z ts r raw"
| "enc_item z (Segment tag ts gs) =
     tag # be_word 4 ts @ be_word 4 (word_of_nat (length (segment_body z gs)) :: u32) @ segment_body z gs"

fun item_fits :: "u32 \<Rightarrow> dump_item \<Rightarrow> bool" where
  "item_fits z (TopRecord ts r raw) = record_fits z r raw"
| "item_fits z (Segment tag ts gs) =
     ((tag = 0x0C \<or> tag = 0x1C) \<and> list_all (gc_fits z) gs \<and> length (segment_body z gs) < 2 ^ 32)"

fun item_records :: "u32 \<Rightarrow> dump_item \<Rightarrow> hprof_record list" where
  "item_records z (TopRecord ts r raw) = [r]"
| "item_records z (Segment tag ts gs) =
     HeapDumpStart (word_of_nat (length (segment_body z gs))) # map (\<lambda>g. GcSegment (gi_record g)) gs"

definition enc_dump :: "u32 \<Rightarrow> dump_item list \<Rightarrow> bytes" where
  "enc_dump z items = concat (map (enc_item z) items)"

definition dump_records :: "u32 \<Rightarrow> dump_item list \<Rightarrow> hprof_record list" where
  "dump_records z items = concat (map (item_records z) items)"

text \<open>The bytes of each record of a dump: a segment is its header and its sub-records.\<close>

fun item_pieces :: "u32 \<Rightarrow> dump_item \<Rightarrow> bytes list" where
  "item_pieces z (TopRecord ts r raw) = [enc_record z ts r raw]"
| "item_pieces z (Segment tag ts gs) =
     (tag # be_word 4 ts @ be_word 4 (word_of_nat (length (segment_body z gs)) :: u32)) # map (enc_gc z) gs"

definition dump_pieces :: "u32 \<Rightarrow> dump_item list \<Rightarrow> bytes list" where
  "dump_pieces z items = concat (map (item_pieces z) items)"

lemma concat_dump_pieces: "concat (dump_pieces z items) = enc_dump z items"
proof -
  have "concat (item_pieces z it) = enc_item z it" for it by (cases it) (simp_all add: segment_body_def)
  then show ?thesis by (induction items) (simp_all add: dump_pieces_def enc_dump_def)
qed

text \<open>Pieces that are read one after the other, from a state to a state, whatever follows.\<close>

inductive reads_pieces :: "nom \<Rightarrow> hprof_record_parser \<Rightarrow> bytes list \<Rightarrow> hprof_record list \<Rightarrow> hprof_record_parser \<Rightarrow> bool"
  for N where
  none: "reads_pieces N s [] [] s"
| piece: "(\<And>j. parse_hprof_record N s (p @ j) = (s1, Ok j x)) \<Longrightarrow> reads_pieces N s1 ps xs s' \<Longrightarrow>
    reads_pieces N s (p # ps) (x # xs) s'"

section \<open>Sub-records parse back\<close>

lemma unat_of_nat_u16 [simp]:
  "unat (word_of_nat n :: u16) = n" if "n < 2 ^ 16"
  using that by (simp add: unat_of_nat)

lemma unat_of_nat_u32: "n < 2 ^ 32 \<Longrightarrow> unat (word_of_nat n :: u32) = n"
  by (simp add: unat_of_nat)

lemma unat_ucast_u64: "unat (ucast (n :: u32) :: u64) = unat n"
proof -
  have "unat n < 2 ^ 32" using unsigned_less [of n] by simp
  then show ?thesis by (simp add: unsigned_ucast_eq take_bit_nat_eq_self)
qed

lemma unat_times_small:
  fixes n :: u32 and k :: nat
  assumes "k < 2 ^ 32"
  shows "unat ((ucast n :: u64) * word_of_nat k) = unat n * k"
proof -
  have "unat n < 2 ^ 32" using unsigned_less [of n] by simp
  with assms have "unat n * k < 2 ^ 32 * 2 ^ 32" by (intro mult_strict_mono) auto
  then have "unat n * k < 2 ^ 64" by simp
  moreover have "unat (ucast n :: u64) = unat n"
    by (rule unat_ucast_u64)
  moreover have "unat (word_of_nat k :: u64) = k" using assms by (simp add: unat_of_nat)
  ultimately show ?thesis by (simp add: unat_word_ariths)
qed

lemma repeat_p_encoded:
  assumes "\<And>x j. x \<in> set xs \<Longrightarrow> p (enc x @ j) = Ok j x"
  shows "repeat_p p (length xs) (concat (map enc xs) @ j) = Ok j xs"
  using assms by (induction xs arbitrary: j) (simp_all add: p_return_def flat_map_p_def map_p_def)


context nom_streaming
begin

lemma id_encoded [roundtrip_simps]:
  assumes "supported_id_size id_size" and "id_fits id_size v"
  shows "id_p N id_size (enc_id id_size v @ j) = Ok j v"
proof (cases "id_size = 4")
  case True
  with assms(2) have "unat (ucast v :: u32) = unat v"
    by (simp add: id_fits_def unsigned_ucast_eq unsigned_take_bit_eq take_bit_nat_eq_self)
  then have "unat (ucast (ucast v :: u32) :: u64) = unat v" by (simp only: unat_ucast_u64)
  then have "ucast (ucast v :: u32) = v" by (simp only: word_unat_eq_iff)
  with True show ?thesis
    by (simp add: id_p_def parse_id_def enc_id_def map_p_def roundtrip_simps)
next
  case False
  with assms(1) show ?thesis
    by (simp add: id_p_def parse_id_def enc_id_def supported_id_size_def roundtrip_simps)
qed

lemma field_type_encoded [roundtrip_simps]: "parse_field_type N (field_type_value t # j) = Ok j t"
  by (simp add: parse_field_type_def map_panicking_p_def flat_map_p_def p_return_def roundtrip_simps)

lemma field_value_encoded [roundtrip_simps]:
  "supported_id_size z \<Longrightarrow> fv_fits z v \<Longrightarrow> parse_field_value N (fv_type v) z (enc_fv z v @ j) = Ok j v"
  by (cases v) (simp_all add: parse_field_value_def map_p_def roundtrip_simps)

lemma const_encoded [roundtrip_simps]:
  "supported_id_size z \<Longrightarrow> const_fits z c \<Longrightarrow> parse_const_pool_item N z (enc_const z c @ j) = Ok j c"
  by (cases c) (simp add: parse_const_pool_item_def enc_const_def const_fits_def pair_p_def
      flat_map_p_def map_p_def roundtrip_simps)

lemma field_encoded [roundtrip_simps]:
  "supported_id_size z \<Longrightarrow> field_fits z f \<Longrightarrow> parse_instance_field_item N z (enc_field z f @ j) = Ok j f"
  by (simp add: parse_instance_field_item_def enc_field_def field_fits_def pair_p_def
      flat_map_p_def map_p_def roundtrip_simps)

lemma static_encoded [roundtrip_simps]:
  "supported_id_size z \<Longrightarrow> static_fits z s \<Longrightarrow> parse_static_field_item N z (enc_static z s @ j) = Ok j s"
  by (cases s) (simp add: parse_static_field_item_def enc_static_def static_fits_def enc_field_def
      field_fits_def pair_p_def flat_map_p_def map_p_def roundtrip_simps)

lemma item_lists_encoded:
  assumes z: "supported_id_size z"
  shows "list_all (const_fits z) cs \<Longrightarrow> count_const N (parse_const_pool_item N z) (length cs)
      (concat (map (enc_const z) cs) @ j) = Ok j cs"
    and "list_all (static_fits z) ss \<Longrightarrow> count_static N (parse_static_field_item N z) (length ss)
      (concat (map (enc_static z) ss) @ j) = Ok j ss"
    and "list_all (field_fits z) fs \<Longrightarrow> count_field N (parse_instance_field_item N z) (length fs)
      (concat (map (enc_field z) fs) @ j) = Ok j fs"
    and "list_all (id_fits z) vs \<Longrightarrow> count_u64 N (id_p N z) (length vs)
      (concat (map (enc_id z) vs) @ j) = Ok j vs"
  using z by (simp_all add: count_repeat streaming_intros repeat_p_encoded roundtrip_simps list_all_iff)

lemma class_dump_encoded:
  assumes z: "supported_id_size z" and fits: "class_dump_fits z c ids"
  shows "parse_gc_class_dump N z (enc_class_dump z c ids @ j) = Ok j (ClassDump c)"
proof -
  have "length ids = 5" using fits by (simp add: class_dump_fits_def)
  then obtain a b d e f where ids: "ids = [a, b, d, e, f]"
    by (auto simp: length_Suc_conv numeral_eq_Suc)
  show ?thesis using fits z item_lists_encoded [OF z]
    by (simp add: parse_gc_class_dump_def enc_class_dump_def class_dump_fits_def ids pair_p_def
        flat_map_p_def map_p_def roundtrip_simps class_dump_fields_new_def)
qed

lemma skip_array_value_Ok:
  assumes "t \<noteq> FT_Object" and "length b = unat n * element_size t"
  shows "skip_array_value N t n (b @ j) = Ok j b"
  using assms unat_times_small [of 2 n] unat_times_small [of 4 n] unat_times_small [of 8 n]
  by (cases t) (simp_all add: skip_array_value_def take_append unat_ucast_u64)

lemma object_array_body:
  assumes "supported_id_size z" and "length b = unat n * unat z"
  shows "nom_take N (unat ((ucast (n :: u32) :: u64) * ucast z)) (b @ j) = Ok j b"
proof -
  have "unat z < 2 ^ 32" using unsigned_less [of z] by simp
  then show ?thesis using assms unat_times_small [of "unat z" n] by (simp add: take_append)
qed

lemma gc_encoded:
  assumes z: "supported_id_size z" and fits: "gc_fits z g"
  shows "parse_gc_record N z (enc_gc z g @ j) = Ok j (gi_record g)"
  using fits z class_dump_encoded [OF z] skip_array_value_Ok object_array_body [OF z]
  by (cases "gi_record g")
    (simp_all add: enc_gc_def gc_fits_def parse_gc_record_def tag_defs root_parser_defs
      object_parser_defs pair_p_def flat_map_p_def map_p_def roundtrip_simps)

subsection \<open>Top-level records parse back\<close>

lemma header_encoded [roundtrip_simps]:
  "parse_header_record N (be_word 4 ts @ be_word 4 l @ j) = Ok j \<lparr>rh_timestamp = ts, rh_length = l\<rparr>"
  by (simp add: parse_header_record_def pair_p_def flat_map_p_def map_p_def roundtrip_simps)

lemma rows_encoded:
  "count_site N (parse_allocation_site N) (length ss) (concat (map enc_site ss) @ j) = Ok j ss"
  "count_sample N (parse_cpu_sample N) (length cs) (concat (map enc_sample cs) @ j) = Ok j cs"
proof -
  have "parse_allocation_site N (enc_site a @ j) = Ok j a" for a j
    by (simp add: parse_allocation_site_def enc_site_def pair_p_def flat_map_p_def map_p_def roundtrip_simps)
  then show "count_site N (parse_allocation_site N) (length ss) (concat (map enc_site ss) @ j) = Ok j ss"
    by (simp add: count_repeat streaming_intros repeat_p_encoded)
  have "parse_cpu_sample N (enc_sample a @ j) = Ok j a" for a j
    by (simp add: parse_cpu_sample_def enc_sample_def pair_p_def flat_map_p_def map_p_def roundtrip_simps)
  then show "count_sample N (parse_cpu_sample N) (length cs) (concat (map enc_sample cs) @ j) = Ok j cs"
    by (simp add: count_repeat streaming_intros repeat_p_encoded)
qed

lemma cpu_samples_encoded:
  fixes ts len samples traces :: u32
  assumes "length rows = unat samples"
  shows "parse_cpu_samples N (be_word 4 ts @ be_word 4 len @ be_word 4 samples @ be_word 4 traces @
       concat (map enc_sample rows) @ rest) = Ok rest (CpuSamples samples traces rows)"
  using assms rows_encoded(2) [of rows rest]
  by (simp add: parse_cpu_samples_def preceded_p_def pair_p_def flat_map_p_def map_p_def
      roundtrip_simps)

lemma length_enc_id: "supported_id_size z \<Longrightarrow> length (enc_id z v) = unat z"
  by (auto simp: enc_id_def supported_id_size_def)

lemma length_enc_ids: "supported_id_size z \<Longrightarrow> length (concat (map (enc_id z) vs)) = unat z * length vs"
  by (induction vs) (simp_all add: length_enc_id)

lemma utf8_encoded:
  fixes ts :: u32
  assumes z: "supported_id_size z" and fits: "record_fits z (Utf8String i s) raw"
  shows "parse_utf8_string N z
    (be_word 4 ts @ be_word 4 (body_length z (Utf8String i s) raw) @ enc_id z i @ raw @ j) =
    Ok j (Utf8String i s)"
proof -
  let ?l = "word_of_nat (unat z + length raw) :: u32"
  have "unat ?l = unat z + length raw" by (rule unat_of_nat_u32) (use fits in simp)
  then have "unat (saturating_sub ?l z) = length raw" by (simp add: unat_saturating_sub del: of_nat_add)
  with fits z show ?thesis
    by (simp add: parse_utf8_string_def pair_p_def flat_map_p_def map_p_def roundtrip_simps length_enc_id)
qed

lemma stack_trace_encoded:
  fixes ts :: u32
  assumes z: "supported_id_size z" and fits: "record_fits z (StackTrace d) raw"
  shows "parse_stack_trace N z
    (be_word 4 ts @ be_word 4 (body_length z (StackTrace d) raw) @ enc_body z (StackTrace d) raw @ j) =
    Ok j (StackTrace d)"
proof -
  let ?n = "length (st_stack_frame_ids d)"
  let ?l = "word_of_nat (12 + unat z * ?n) :: u32"
  have "unat ?l = 12 + unat z * ?n" by (rule unat_of_nat_u32) (use fits in simp)
  then have "unat (saturating_sub ?l 12) = unat z * ?n" by (simp only: unat_saturating_sub) simp
  moreover have "z \<noteq> 0" using z by (auto simp: supported_id_size_def)
  ultimately have "unat (saturating_sub ?l 12 div z) = ?n" by (simp add: unat_div unat_gt_0)
  with fits z item_lists_encoded(4) [OF z] \<open>z \<noteq> 0\<close> show ?thesis
    by (simp add: parse_stack_trace_def pair_p_def flat_map_p_def map_p_def roundtrip_simps length_enc_ids)
qed

lemma record_mode_encoded:
  assumes z: "supported_id_size z" and fits: "record_fits z r raw"
  shows "record_mode N z (enc_record z ts r raw @ j) = Ok j (None, r)"
proof (cases r)
  case (Utf8String i s)
  with utf8_encoded [OF z, of i s raw ts j] fits show ?thesis
    by (simp add: record_mode_def enc_record_def tag_defs flat_map_p_def map_p_def roundtrip_simps)
next
  case (StackTrace d)
  with stack_trace_encoded [OF z, of d raw ts j] fits show ?thesis
    by (simp add: record_mode_def enc_record_def tag_defs flat_map_p_def map_p_def roundtrip_simps)
next
  case (AllocationSites f c lb li ba ia n sites)
  with fits rows_encoded(1) [of sites j] show ?thesis
    by (simp add: record_mode_def enc_record_def tag_defs flat_map_p_def map_p_def roundtrip_simps
        parse_allocation_sites_def preceded_p_def pair_p_def)
next
  case (CpuSamples n t cs)
  with fits cpu_samples_encoded [of cs n ts _ t j] show ?thesis
    by (simp add: record_mode_def enc_record_def tag_defs flat_map_p_def map_p_def roundtrip_simps)
qed (use fits z in \<open>simp_all add: record_mode_def enc_record_def tag_defs flat_map_p_def map_p_def
      roundtrip_simps top_parser_defs preceded_p_def pair_p_def\<close>)

subsection \<open>Segments and dumps parse back\<close>

lemma enc_gc_nonempty: "enc_gc z g \<noteq> []"
  by (cases "gi_record g") (simp_all add: enc_gc_def)

lemma segment_step:
  assumes z: "supported_id_size (hp_id_size s)" and fits: "gc_fits (hp_id_size s) g"
    and small: "length (enc_gc (hp_id_size s) g) + k < 2 ^ 32"
  shows "parse_hprof_record N
      (s\<lparr>hp_heap_dump_remaining_len := word_of_nat (length (enc_gc (hp_id_size s) g) + k)\<rparr>)
      (enc_gc (hp_id_size s) g @ j) =
    (s\<lparr>hp_heap_dump_remaining_len := word_of_nat k\<rparr>, Ok j (GcSegment (gi_record g)))"
proof -
  let ?l = "length (enc_gc (hp_id_size s) g)"
  have pos: "0 < ?l" using enc_gc_nonempty by simp
  have u: "unat (word_of_nat (?l + k) :: u32) = ?l + k" "unat (word_of_nat ?l :: u32) = ?l"
    "unat (word_of_nat k :: u32) = k" using small by (simp_all add: unat_of_nat del: of_nat_add)
  have nz: "word_of_nat (?l + k) \<noteq> (0 :: u32)" using u(1) pos by (metis add_is_0 less_numeral_extra(3) unat_0)
  have "unat (saturating_sub (word_of_nat (?l + k) :: u32) (word_of_nat ?l)) = unat (word_of_nat k :: u32)"
    by (simp only: unat_saturating_sub u)
  then have "saturating_sub (word_of_nat (?l + k) :: u32) (word_of_nat ?l) = word_of_nat k"
    by (simp only: word_unat_eq_iff)
  then show ?thesis
    using gc_encoded [OF z fits, of j] nz
    by (simp add: parse_hprof_record_segment leave_bytes_def del: of_nat_add)
qed

lemma top_record_step:
  assumes "supported_id_size (hp_id_size s)" and "hp_heap_dump_remaining_len s = 0" and "record_fits (hp_id_size s) r raw"
  shows "parse_hprof_record N s (enc_record (hp_id_size s) ts r raw @ j) = (s, Ok j r)"
  using record_mode_encoded [OF assms(1,3), of ts j] assms(2)
  by (simp add: parse_hprof_record_top top_result_def enter_segment_def)

lemma segment_start_step:
  fixes ts :: u32
  assumes "hp_heap_dump_remaining_len s = 0" and "tag = 0x0C \<or> tag = 0x1C"
  shows "parse_hprof_record N s (tag # be_word 4 ts @ be_word 4 l @ j) =
    (s\<lparr>hp_heap_dump_remaining_len := l\<rparr>, Ok j (HeapDumpStart l))"
proof -
  have "record_mode N (hp_id_size s) (tag # be_word 4 ts @ be_word 4 l @ j) = Ok j (Some l, HeapDumpStart l)"
    using assms(2) by (auto simp add: record_mode_def tag_defs flat_map_p_def map_p_def roundtrip_simps)
  then show ?thesis using assms(1) by (simp add: parse_hprof_record_top top_result_def enter_segment_def)
qed

lemma reads_pieces_append:
  "reads_pieces N s ps xs s1 \<Longrightarrow> reads_pieces N s1 qs ys s2 \<Longrightarrow> reads_pieces N s (ps @ qs) (xs @ ys) s2"
  by (induction rule: reads_pieces.induct) (simp_all add: reads_pieces.piece)

lemma reads_segment:
  assumes z: "supported_id_size (hp_id_size s)" and "list_all (gc_fits (hp_id_size s)) gs"
    and "length (segment_body (hp_id_size s) gs) < 2 ^ 32"
  shows "reads_pieces N (s\<lparr>hp_heap_dump_remaining_len := word_of_nat (length (segment_body (hp_id_size s) gs))\<rparr>)
     (map (enc_gc (hp_id_size s)) gs) (map (\<lambda>g. GcSegment (gi_record g)) gs) (s\<lparr>hp_heap_dump_remaining_len := 0\<rparr>)"
  using assms(2,3)
proof (induction gs)
  case Nil
  then show ?case by (simp add: segment_body_def reads_pieces.none)
next
  case (Cons g gs)
  let ?k = "length (segment_body (hp_id_size s) gs)"
  from Cons.prems have fits: "gc_fits (hp_id_size s) g"
    and small: "length (enc_gc (hp_id_size s) g) + ?k < 2 ^ 32" by (simp_all add: segment_body_def)
  have len: "length (segment_body (hp_id_size s) (g # gs)) = length (enc_gc (hp_id_size s) g) + ?k"
    by (simp add: segment_body_def)
  show ?case unfolding len
    using reads_pieces.piece [OF segment_step [OF z fits small]] Cons small by simp
qed

lemma reads_dump:
  assumes z: "supported_id_size (hp_id_size s)" and top: "hp_heap_dump_remaining_len s = 0"
    and "list_all (item_fits (hp_id_size s)) items"
  shows "reads_pieces N s (dump_pieces (hp_id_size s) items) (dump_records (hp_id_size s) items) s"
  using assms(3)
proof (induction items)
  case Nil
  then show ?case by (simp add: dump_pieces_def dump_records_def reads_pieces.none)
next
  case (Cons it items)
  let ?z = "hp_id_size s"
  from Cons.prems have fits: "item_fits ?z it" by simp
  have "reads_pieces N s (item_pieces ?z it) (item_records ?z it) s"
  proof (cases it)
    case (TopRecord ts r raw)
    with fits reads_pieces.piece [OF top_record_step [OF z top] reads_pieces.none] show ?thesis by simp
  next
    case (Segment tag ts gs)
    have same: "s\<lparr>hp_heap_dump_remaining_len := 0\<rparr> = s" using top by simp
    have start: "parse_hprof_record N s ((tag # be_word 4 ts @ be_word 4 (word_of_nat (length (segment_body ?z gs)) :: u32)) @ j) =
        (s\<lparr>hp_heap_dump_remaining_len := word_of_nat (length (segment_body ?z gs))\<rparr>,
         Ok j (HeapDumpStart (word_of_nat (length (segment_body ?z gs)))))" for j
      using segment_start_step [OF top] fits Segment by simp
    from fits Segment reads_segment [OF z, of gs, unfolded same] reads_pieces.piece [OF start]
    show ?thesis by simp
  qed
  with Cons reads_pieces_append show ?case by (simp add: dump_pieces_def dump_records_def)
qed

lemma reads_pieces_parses:
  "reads_pieces N s ps xs s' \<Longrightarrow> parses (parse_hprof_record N) s' j ys out \<Longrightarrow>
    parses (parse_hprof_record N) s (concat ps @ j) (xs @ ys) out"
  by (induction rule: reads_pieces.induct) (auto intro: parses.more)

text \<open>When the pieces are cut off somewhere, exactly those before the cut are read.\<close>

lemma reads_pieces_cut:
  assumes "reads_pieces N s ps xs s'" and "concat ps = d @ missing"
  shows "\<exists>k t r. parses (parse_hprof_record N) s d (take k xs) (Waiting t r) \<and> length (concat (take k ps)) \<le> length d \<and>
    (k < length xs \<longrightarrow> length d < length (concat (take (Suc k) ps)))"
  using assms
proof (induction arbitrary: d rule: reads_pieces.induct)
  case (none s)
  then show ?case using parses.wait [of "parse_hprof_record N", OF parse_hprof_record_Nil] by auto
next
  case (piece s p s1 x ps xs s')
  show ?case
  proof (cases "length p \<le> length d")
    case True
    then obtain d' where d: "d = p @ d'" and "concat ps = d' @ missing"
      using piece.prems by (auto simp: append_eq_append_conv2)
    from piece.IH [OF this(2)] obtain k t r where "parses (parse_hprof_record N) s1 d' (take k xs) (Waiting t r)"
      and len: "length (concat (take k ps)) \<le> length d'"
      and cut: "k < length xs \<longrightarrow> length d' < length (concat (take (Suc k) ps))" by blast
    with parses.more [of "parse_hprof_record N", OF piece.hyps(1)] d
    have "parses (parse_hprof_record N) s d (take (Suc k) (x # xs)) (Waiting t r)" by simp
    with len cut d show ?thesis by (intro exI [of _ "Suc k"] exI [of _ t] exI [of _ r]) auto
  next
    case False
    then obtain e where p: "p = d @ e" "e \<noteq> []"
      using piece.prems by (auto simp: append_eq_append_conv2)
    have whole: "parse_hprof_record N s (d @ e) = (s1, Ok [] x)" using piece.hyps(1) [of "[]"] p by simp
    obtain t res where d: "parse_hprof_record N s d = (t, res)" by fastforce
    have "\<exists>err. res = Err err"
    proof (cases res)
      case (Ok r y)
      with d have "parse_hprof_record N s d = (t, Ok r y)" by simp
      from hprof.step_Ok_append [OF this, of e] whole p(2) show ?thesis by simp
    next
      case (Panic q)
      with d have "parse_hprof_record N s d = (t, Panic q)" by simp
      from hprof.step_Panic [OF this, of e] whole show ?thesis by simp
    qed simp
    with d parses.wait [of "parse_hprof_record N" s d] have "\<exists>t r. parses (parse_hprof_record N) s d [] (Waiting t r)" by blast
    with False show ?thesis by (intro exI [of _ 0]) auto
  qed
qed

lemma parses_dump:
  assumes "supported_id_size (hp_id_size s)" and "hp_heap_dump_remaining_len s = 0"
    and "list_all (item_fits (hp_id_size s)) items" and "parses (parse_hprof_record N) s j ys out"
  shows "parses (parse_hprof_record N) s (enc_dump (hp_id_size s) items @ j)
    (dump_records (hp_id_size s) items @ ys) out"
  using reads_pieces_parses [OF reads_dump [OF assms(1-3)] assms(4)] by (simp add: concat_dump_pieces)

end

section \<open>Properties\<close>

text \<open>Property C18: sub-records round trip. Every sub-record of the format, written with identifiers
  of 4 or 8 bytes, is read back by the sub-record parser with all the fields it keeps, and exactly
  the bytes of the sub-record are consumed, the skipped contents of objects and arrays included.\<close>

theorem gc_record_roundtrip:
  assumes "nom_streaming N" and "supported_id_size z" and "gc_fits z g"
  shows "parse_gc_record N z (enc_gc z g @ rest) = Ok rest (gi_record g)"
  by (rule nom_streaming.gc_encoded [OF assms])

theorem gc_record_roundtrip_witness:
  "parse_gc_record nom_ref 4 (enc_gc 4 \<lparr>gi_record = PrimitiveArrayDump 16 1 3 FT_Char,
      gi_body = [0, 104, 0, 105, 0, 33], gi_ids = []\<rparr> @ [9]) = Ok [9] (PrimitiveArrayDump 16 1 3 FT_Char)"
proof -
  let ?g = "\<lparr>gi_record = PrimitiveArrayDump 16 1 3 FT_Char,
      gi_body = [0, 104, 0, 105, 0, 33], gi_ids = []\<rparr>"
  have "supported_id_size 4" "gc_fits 4 ?g"
    by (simp_all add: supported_id_size_def gc_fits_def id_fits_def)
  from gc_record_roundtrip [OF ref.nom_streaming_axioms this, of "[9]"] show ?thesis by simp
qed

text \<open>Property C19: top-level records round trip. Outside of a heap dump segment, every record of the
  format is read back as it was written, whatever bytes follow, and the parser's state does not
  change.\<close>

theorem record_roundtrip:
  assumes "nom_streaming N" and "supported_id_size (hp_id_size self)"
    and "hp_heap_dump_remaining_len self = 0" and "record_fits (hp_id_size self) r raw"
  shows "parse_hprof_record N self (enc_record (hp_id_size self) ts r raw @ rest) = (self, Ok rest r)"
  using nom_streaming.record_mode_encoded [OF assms(1,2,4), of ts rest] assms(3)
  by (simp add: parse_hprof_record_top top_result_def enter_segment_def)

theorem record_roundtrip_witness:
  "parse_hprof_record nom_ref (hprof_record_parser_new False 8)
     (enc_record 8 7 (Utf8String 5 ''abc'') [97, 98, 99] @ [1]) =
   (hprof_record_parser_new False 8, Ok [1] (Utf8String 5 ''abc''))"
proof -
  have a: "supported_id_size (hp_id_size (hprof_record_parser_new False 8))"
    "hp_heap_dump_remaining_len (hprof_record_parser_new False 8) = 0"
    by (simp_all add: supported_id_size_def hprof_record_parser_new_def)
  have "from_utf8_lossy [97, 98, 99] = ''abc''" by code_simp
  then have "record_fits 8 (Utf8String 5 ''abc'') [97, 98, 99]" by (simp add: id_fits_def)
  then have "record_fits (hp_id_size (hprof_record_parser_new False 8)) (Utf8String 5 ''abc'') [97, 98, 99]"
    by (simp add: hprof_record_parser_new_def)
  from record_roundtrip [OF ref.nom_streaming_axioms a this, of 7 "[1]"] show ?thesis
    by (simp add: hprof_record_parser_new_def)
qed

text \<open>Property C40: the record of CPU samples is read with the first of its two counters, the total
  number of samples, as the number of rows; the second counter, the number of traces, only ends up
  in the record. A record with one trace that was sampled twice is read past its end.\<close>

theorem cpu_samples_rows:
  fixes ts len samples traces :: u32
  assumes "nom_streaming N" and "length rows = unat samples"
  shows "parse_cpu_samples N (be_word 4 ts @ be_word 4 len @ be_word 4 samples @ be_word 4 traces @
       concat (map enc_sample rows) @ rest) = Ok rest (CpuSamples samples traces rows)"
  by (rule nom_streaming.cpu_samples_encoded [OF assms])

theorem cpu_samples_rows_witness:
  "parse_cpu_samples nom_ref (be_word 4 (0 :: u32) @ be_word 4 (16 :: u32) @ be_word 4 (2 :: u32) @
     be_word 4 (1 :: u32) @ concat (map enc_sample
       [\<lparr>cs_number_of_samples = 2, cs_stack_trace_serial_number = 3\<rparr>,
        \<lparr>cs_number_of_samples = 0x2C000000, cs_stack_trace_serial_number = 0\<rparr>]) @ [0]) =
   Ok [0] (CpuSamples 2 1
       [\<lparr>cs_number_of_samples = 2, cs_stack_trace_serial_number = 3\<rparr>,
        \<lparr>cs_number_of_samples = 0x2C000000, cs_stack_trace_serial_number = 0\<rparr>])"
  by (rule cpu_samples_rows [OF ref.nom_streaming_axioms]) simp

end
