(* ===== verification/Record_Stream_Parser.thy ===== *)
theory Record_Stream_Parser
  imports Record_Contract
begin

text \<open>
  The parser thread of \<^verbatim>\<open>src/parser/record_stream_parser.rs\<close>: its state, one iteration of
  its receive loop, and the loop over the buffers it receives. An iteration gets the received
  buffer and the empty record vector it will take from the pool, and either panics or yields
  the new state and what it sent. The main lemma relates the loop to the specification of
  parsing: whatever the buffers the input is cut into, the records sent are the records of the
  whole input, in order, and what cannot be parsed yet is kept. A second one relates the progress
  reports to the bytes of the records sent.
\<close>

section \<open>Model\<close>

record stream_parser =
  sp_parser :: hprof_record_parser
  sp_debug_mode :: bool
  sp_file_len :: usize
  sp_processed_len :: usize
  sp_loop_buffer :: bytes
  sp_pooled_vec :: "hprof_record list"
  sp_needed :: usize

definition stream_parser_new :: "bool \<Rightarrow> u32 \<Rightarrow> usize \<Rightarrow> usize \<Rightarrow> bytes \<Rightarrow> stream_parser" where
  "stream_parser_new debug_mode id_size file_len processed_len initial_loop_buffer =
     \<lparr>sp_parser = hprof_record_parser_new debug_mode id_size, sp_debug_mode = debug_mode,
      sp_file_len = file_len, sp_processed_len = processed_len,
      sp_loop_buffer = initial_loop_buffer, sp_pooled_vec = [], sp_needed = 0\<rparr>"

text \<open>What an iteration sends: nothing, or the progress and a vector of records.\<close>

datatype emission = Silent | Emit usize "hprof_record list"

definition stream_iteration ::
  "nom \<Rightarrow> stream_parser \<Rightarrow> bytes \<Rightarrow> hprof_record list \<Rightarrow> (panic + stream_parser \<times> emission) option" where
  "stream_iteration N self pooled_buffer next_pooled_vec =
     (let loop_buffer = sp_loop_buffer self @ pooled_buffer;
          self = self\<lparr>sp_loop_buffer := loop_buffer\<rparr>
      in if sp_needed self > length loop_buffer then Some (Inr (self, Silent))
      else (case parse_streaming N (sp_parser self) (sp_pooled_vec self) loop_buffer of
        None \<Rightarrow> None
      | Some (parser', pooled_vec', iteration_res) \<Rightarrow>
        (let self = self\<lparr>sp_parser := parser', sp_pooled_vec := pooled_vec'\<rparr>
         in case iteration_res of
           Ok rest _ \<Rightarrow>
             (let iteration_processed = length loop_buffer - length rest;
                  processed_len = sp_processed_len self + iteration_processed;
                  self = self\<lparr>sp_processed_len := processed_len,
                              sp_loop_buffer := drop iteration_processed loop_buffer\<rparr>
              in if \<not> processed_len \<le> sp_file_len self
                 then Some (Inl (ProcessedBeyondFile processed_len (sp_file_len self)))
                 else Some (Inr
                   (self\<lparr>sp_pooled_vec := next_pooled_vec,
                         sp_needed := (if sp_needed self > 0 then 0 else sp_needed self)\<rparr>,
                    Emit processed_len (sp_pooled_vec self))))
         | Err (Incomplete (Size n)) \<Rightarrow>
             Some (Inr (self\<lparr>sp_needed := n + length loop_buffer\<rparr>, Silent))
         | Err (Incomplete Unknown) \<Rightarrow> Some (Inl IncompleteWithUnknownSize)
         | Err (Failure _) \<Rightarrow> Some (Inl ParsingFailed)
         | Err (Error _) \<Rightarrow> Some (Inl ParsingFailed)
         | Panic e \<Rightarrow> Some (Inl e))))"

text \<open>The receive loop on the buffers it gets until the channel closes; the vectors of the
  pool are empty because the recorder clears them before it gives them back.\<close>

fun stream_run ::
  "nom \<Rightarrow> stream_parser \<Rightarrow> bytes list \<Rightarrow> (panic + stream_parser \<times> emission list) option" where
  "stream_run N self [] = Some (Inr (self, []))"
| "stream_run N self (b # bs) =
     (case stream_iteration N self b [] of
        None \<Rightarrow> None
      | Some (Inl e) \<Rightarrow> Some (Inl e)
      | Some (Inr (self', em)) \<Rightarrow>
          (case stream_run N self' bs of
             None \<Rightarrow> None
           | Some (Inl e) \<Rightarrow> Some (Inl e)
           | Some (Inr (self'', ems)) \<Rightarrow> Some (Inr (self'', em # ems))))"

fun emitted :: "emission \<Rightarrow> hprof_record list" where
  "emitted Silent = []"
| "emitted (Emit _ rs) = rs"

definition emitted_records :: "emission list \<Rightarrow> hprof_record list" where
  "emitted_records ems = concat (map emitted ems)"

fun progress_reports :: "emission list \<Rightarrow> usize list" where
  "progress_reports [] = []"
| "progress_reports (Silent # ems) = progress_reports ems"
| "progress_reports (Emit n _ # ems) = n # progress_reports ems"

text \<open>What is observable at the end of the loop: a panic, or the records sent and the bytes
  left unparsed.\<close>

definition stream_outcome ::
  "nom \<Rightarrow> stream_parser \<Rightarrow> bytes list \<Rightarrow> (panic + hprof_record list \<times> bytes) option" where
  "stream_outcome N self bs =
     map_option (map_sum (\<lambda>e. e) (\<lambda>(self', ems). (emitted_records ems, sp_loop_buffer self')))
       (stream_run N self bs)"

section \<open>Invariant\<close>

text \<open>After the bytes \<open>d\<close> have been received, starting with parser state \<open>s0\<close> and
  \<open>base\<close> bytes processed: the records \<open>xs\<close> have been read, the loop buffer is what is left,
  and while \<open>needed\<close> exceeds the buffer no record can be read from it.\<close>

definition stream_inv ::
  "nom \<Rightarrow> hprof_record_parser \<Rightarrow> nat \<Rightarrow> stream_parser \<Rightarrow> bytes \<Rightarrow> hprof_record list \<Rightarrow> bool" where
  "stream_inv N s0 base self d xs \<longleftrightarrow>
     parses (parse_hprof_record N) s0 d xs (Waiting (sp_parser self) (sp_loop_buffer self)) \<and>
     sp_pooled_vec self = [] \<and>
     sp_processed_len self + length (sp_loop_buffer self) = base + length d \<and>
     (\<forall>j. length (sp_loop_buffer self @ j) < sp_needed self \<longrightarrow>
        (\<exists>e. parse_hprof_record N (sp_parser self) (sp_loop_buffer self @ j) = (sp_parser self, Err e)))"

section \<open>Lemmas\<close>

context nom_streaming
begin

lemma stream_inv_new:
  "stream_inv N (hprof_record_parser_new dbg id_size) base
     (stream_parser_new dbg id_size file_len base []) [] []"
  using parses.wait [of "parse_hprof_record N", OF parse_hprof_record_Nil]
  by (simp add: stream_inv_def stream_parser_new_def)

text \<open>One iteration: it returns, it panics only where parsing the bytes received so far does,
  and otherwise it keeps the invariant.\<close>

lemma stream_iteration_waits:
  assumes inv: "stream_inv N s0 base self d xs"
    and skip: "sp_needed self > length (sp_loop_buffer self @ c)"
  shows "\<exists>self'. stream_iteration N self c [] = Some (Inr (self', Silent)) \<and>
     sp_file_len self' = sp_file_len self \<and> stream_inv N s0 base self' (d @ c) xs"
proof -
  let ?b = "sp_loop_buffer self @ c" and ?s = "sp_parser self"
  let ?self' = "self\<lparr>sp_loop_buffer := ?b\<rparr>"
  from inv skip obtain e where "parse_hprof_record N ?s ?b = (?s, Err e)"
    by (auto simp: stream_inv_def)
  then have "parses (parse_hprof_record N) ?s ?b [] (Waiting ?s ?b)" by (rule parses.wait)
  with inv have "parses (parse_hprof_record N) s0 (d @ c) (xs @ []) (Waiting ?s ?b)"
    unfolding stream_inv_def by (blast intro: hprof.parses_resume)
  moreover have "\<forall>j. length (?b @ j) < sp_needed self \<longrightarrow>
      (\<exists>e. parse_hprof_record N ?s (?b @ j) = (?s, Err e))"
    using inv unfolding stream_inv_def by (metis append_assoc)
  ultimately have "stream_inv N s0 base ?self' (d @ c) xs"
    using inv by (simp add: stream_inv_def)
  moreover have "stream_iteration N self c [] = Some (Inr (?self', Silent))"
    using skip by (simp add: stream_iteration_def)
  ultimately show ?thesis by auto
qed

lemma stream_iteration_incomplete:
  assumes inv: "stream_inv N s0 base self d xs"
    and ready: "\<not> sp_needed self > length (sp_loop_buffer self @ c)"
    and out: "parses (parse_hprof_record N) (sp_parser self) (sp_loop_buffer self @ c) [] (Waiting t r)"
  shows "\<exists>self'. stream_iteration N self c [] = Some (Inr (self', Silent)) \<and>
     sp_file_len self' = sp_file_len self \<and> stream_inv N s0 base self' (d @ c) xs"
proof -
  let ?b = "sp_loop_buffer self @ c" and ?s = "sp_parser self"
  from hprof.lazy_many1_parses_Nil [OF out, of N "sp_pooled_vec self"] obtain n where
    "t = ?s" "r = ?b" "0 < n" and st: "parse_hprof_record N ?s ?b = (?s, Err (Incomplete (Size n)))"
    and lm: "lazy_many1 N (parse_hprof_record N) ?s (sp_pooled_vec self) ?b =
      Some (?s, sp_pooled_vec self, Err (Incomplete (Size n)))" by blast
  let ?self' = "self\<lparr>sp_loop_buffer := ?b, sp_needed := n + length ?b\<rparr>"
  have "stream_iteration N self c [] = Some (Inr (?self', Silent))"
    using ready lm by (simp add: stream_iteration_def parse_streaming_def Let_def)
  moreover have "\<exists>e. parse_hprof_record N ?s (?b @ j) = (?s, Err e)" if "length j < n" for j
    using hprof.step_Err [OF st] that by auto
  moreover have "parses (parse_hprof_record N) s0 (d @ c) (xs @ []) (Waiting ?s ?b)"
    using inv out \<open>t = ?s\<close> \<open>r = ?b\<close> unfolding stream_inv_def by (blast intro: hprof.parses_resume)
  ultimately show ?thesis using inv by (auto simp: stream_inv_def)
qed

lemma stream_iteration_emits:
  assumes inv: "stream_inv N s0 base self d xs"
    and ready: "\<not> sp_needed self > length (sp_loop_buffer self @ c)"
    and fits: "base + length (d @ c) \<le> sp_file_len self"
    and out: "parses (parse_hprof_record N) (sp_parser self) (sp_loop_buffer self @ c) (y # ys) (Waiting t r)"
  shows "\<exists>self' n. stream_iteration N self c [] = Some (Inr (self', Emit n (y # ys))) \<and>
     n = base + length (d @ c) - length r \<and>
     sp_file_len self' = sp_file_len self \<and> stream_inv N s0 base self' (d @ c) (xs @ y # ys)"
proof -
  let ?b = "sp_loop_buffer self @ c" and ?s = "sp_parser self"
  from hprof.parses_Waiting_suffix [OF out] obtain p where p: "?b = p @ r" by blast
  from inv have pv: "sp_pooled_vec self = []"
    and len: "sp_processed_len self + length (sp_loop_buffer self) = base + length d"
    by (simp_all add: stream_inv_def)
  have lm: "lazy_many1 N (parse_hprof_record N) ?s [] ?b = Some (t, y # ys, Ok r ())"
    using hprof.lazy_many1_parses_Cons [OF out, of N "[]"] by auto
  let ?self' = "self\<lparr>sp_parser := t, sp_processed_len := sp_processed_len self + length p,
    sp_loop_buffer := r, sp_pooled_vec := [], sp_needed := 0\<rparr>"
  have lp: "length ?b - length r = length p" "drop (length p) ?b = r" by (simp_all add: p)
  have tot: "sp_processed_len self + length p + length r = base + length (d @ c)"
    using len arg_cong [OF p, of length] by simp
  then have "sp_processed_len self + length p \<le> sp_file_len self" using fits by simp
  then have "stream_iteration N self c [] =
      Some (Inr (?self', Emit (sp_processed_len self + length p) (y # ys)))"
    using ready lm pv lp
    by (simp add: stream_iteration_def parse_streaming_def Let_def del: drop_append length_append)
  moreover have "parses (parse_hprof_record N) s0 (d @ c) (xs @ y # ys) (Waiting t r)"
    using inv out unfolding stream_inv_def by (blast intro: hprof.parses_resume)
  ultimately show ?thesis using tot by (intro exI [of _ ?self']) (auto simp: stream_inv_def)
qed

lemma stream_iteration_panics:
  assumes inv: "stream_inv N s0 base self d xs"
    and ready: "\<not> sp_needed self > length (sp_loop_buffer self @ c)"
    and out: "parses (parse_hprof_record N) (sp_parser self) (sp_loop_buffer self @ c) ys (Panicked e)"
  shows "stream_iteration N self c [] = Some (Inl e)"
    and "parses (parse_hprof_record N) s0 (d @ c) (xs @ ys) (Panicked e)"
proof -
  from hprof.lazy_many1_parses_panic [OF out, of N "sp_pooled_vec self"]
  show "stream_iteration N self c [] = Some (Inl e)"
    using ready by (auto simp: stream_iteration_def parse_streaming_def Let_def)
  show "parses (parse_hprof_record N) s0 (d @ c) (xs @ ys) (Panicked e)"
    using inv out unfolding stream_inv_def by (blast intro: hprof.parses_resume)
qed

lemma stream_iteration_cases:
  assumes inv: "stream_inv N s0 base self d xs" and fits: "base + length (d @ c) \<le> sp_file_len self"
  shows "(\<exists>e ys. stream_iteration N self c [] = Some (Inl e) \<and>
           parses (parse_hprof_record N) s0 (d @ c) ys (Panicked e)) \<or>
         (\<exists>self' em. stream_iteration N self c [] = Some (Inr (self', em)) \<and>
           sp_file_len self' = sp_file_len self \<and>
           stream_inv N s0 base self' (d @ c) (xs @ emitted em))"
proof (cases "sp_needed self > length (sp_loop_buffer self @ c)")
  case True
  with stream_iteration_waits [OF inv] show ?thesis by fastforce
next
  case ready: False
  obtain ys out where p:
    "parses (parse_hprof_record N) (sp_parser self) (sp_loop_buffer self @ c) ys out"
    using hprof.parses_total by blast
  show ?thesis
  proof (cases out)
    case (Panicked e)
    with p stream_iteration_panics [OF inv ready, of ys e] show ?thesis by blast
  next
    case (Waiting t r)
    show ?thesis
    proof (cases ys)
      case Nil
      with p Waiting stream_iteration_incomplete [OF inv ready, of t r] show ?thesis by fastforce
    next
      case (Cons z zs)
      with p Waiting stream_iteration_emits [OF inv ready fits, of z zs t r] show ?thesis by fastforce
    qed
  qed
qed

text \<open>The whole loop.\<close>

lemma stream_run_correct:
  assumes "stream_inv N s0 base self d xs" and "base + length (d @ concat bs) \<le> sp_file_len self"
  shows "(\<exists>e ys. stream_run N self bs = Some (Inl e) \<and>
           parses (parse_hprof_record N) s0 (d @ concat bs) ys (Panicked e)) \<or>
         (\<exists>self' ems. stream_run N self bs = Some (Inr (self', ems)) \<and>
           sp_file_len self' = sp_file_len self \<and>
           stream_inv N s0 base self' (d @ concat bs) (xs @ emitted_records ems))"
  using assms
proof (induction bs arbitrary: self d xs)
  case Nil
  then show ?case by (auto simp: emitted_records_def)
next
  case (Cons b bs)
  have "base + length (d @ b) \<le> sp_file_len self" using Cons.prems(2) by simp
  from stream_iteration_cases [OF Cons.prems(1) this] show ?case
  proof (elim disjE exE conjE)
    fix e ys
    assume "stream_iteration N self b [] = Some (Inl e)"
      and "parses (parse_hprof_record N) s0 (d @ b) ys (Panicked e)"
    then show ?thesis
      using hprof.parses_panic_append [of s0 "d @ b" ys e "concat bs"] by auto
  next
    fix self' em
    assume it: "stream_iteration N self b [] = Some (Inr (self', em))"
      and fl: "sp_file_len self' = sp_file_len self"
      and inv: "stream_inv N s0 base self' (d @ b) (xs @ emitted em)"
    from Cons.prems(2) fl have "base + length ((d @ b) @ concat bs) \<le> sp_file_len self'" by simp
    from Cons.IH [OF inv this] it fl show ?thesis by (auto simp: emitted_records_def)
  qed
qed

lemma stream_outcome_correct:
  assumes "base + length (concat bs) \<le> file_len"
    and "parses (parse_hprof_record N) (hprof_record_parser_new dbg id_size) (concat bs) ys out"
  shows "stream_outcome N (stream_parser_new dbg id_size file_len base []) bs =
     Some (case out of Panicked e \<Rightarrow> Inl e | Waiting s r \<Rightarrow> Inr (ys, r))"
proof -
  have "base + length ([] @ concat bs)
      \<le> sp_file_len (stream_parser_new dbg id_size file_len base [])"
    using assms(1) by (simp add: stream_parser_new_def)
  from stream_run_correct [OF stream_inv_new this] hprof.parses_deterministic [OF assms(2)]
  show ?thesis by (auto simp: stream_outcome_def stream_inv_def)
qed

end

lemma stream_outcome_Inr:
  assumes "stream_outcome N self bs = Some (Inr (xs, r))"
  obtains self' ems where "stream_run N self bs = Some (Inr (self', ems))"
    and "xs = emitted_records ems" and "r = sp_loop_buffer self'"
proof -
  from assms obtain z where z: "stream_run N self bs = Some z"
    "map_sum (\<lambda>e. e) (\<lambda>(self', ems). (emitted_records ems, sp_loop_buffer self')) z = Inr (xs, r)"
    unfolding stream_outcome_def by blast
  with that show ?thesis by (cases z) auto
qed

section \<open>Progress\<close>

context nom_streaming
begin

text \<open>What is left over is not needed to read the records before it.\<close>

lemma parses_without_rest:
  assumes "parses (parse_hprof_record N) s i xs (Waiting t r)" and "i = p @ r"
  shows "parses (parse_hprof_record N) s p xs (Waiting t [])"
  using assms
proof (induction s i xs "Waiting t r" arbitrary: p rule: parses.induct)
  case (wait s' e)
  then show ?case using parse_hprof_record_Nil by (auto intro: parses.wait)
next
  case (more s i s1 r1 x xs)
  from hprof.step_Ok [OF more.hyps(1)] obtain c where c: "i = c @ r1"
    and again: "parse_hprof_record N s (c @ j) = (s1, Ok j x)" for j by blast
  from hprof.parses_Waiting_suffix [OF more.hyps(2)] obtain q where q: "r1 = q @ r" by blast
  with more.hyps(3) have "parses (parse_hprof_record N) s1 q xs (Waiting t [])" by simp
  with again more.prems c q show ?case by (auto intro: parses.more)
qed

lemma parses_Cons_consumes:
  assumes "parses (parse_hprof_record N) s i (x # xs) (Waiting t r)"
  shows "length r < length i"
proof -
  from assms obtain s1 r1 where st: "parse_hprof_record N s i = (s1, Ok r1 x)"
    and rest: "parses (parse_hprof_record N) s1 r1 xs (Waiting t r)" by (rule parses_ConsE) auto
  from hprof.parses_Waiting_suffix [OF rest] have "length r \<le> length r1" by auto
  with hprof.step_Ok_shorter [OF st] show ?thesis by simp
qed

text \<open>One iteration reports nothing, or the number of bytes processed so far, which has grown; the records
  sent so far are those of these bytes, to the last byte.\<close>

lemma stream_iteration_progress:
  assumes inv: "stream_inv N s0 base self d xs" and fits: "base + length (d @ c) \<le> sp_file_len self"
    and it: "stream_iteration N self c [] = Some (Inr (self', em))"
  shows "stream_inv N s0 base self' (d @ c) (xs @ emitted em)" and "sp_file_len self' = sp_file_len self"
    and "case em of Silent \<Rightarrow> sp_processed_len self' = sp_processed_len self
     | Emit n rs \<Rightarrow> n = sp_processed_len self' \<and> sp_processed_len self < n"
proof -
  let ?b = "sp_loop_buffer self @ c" and ?b' = "sp_loop_buffer self'"
  have inv': "stream_inv N s0 base self' (d @ c) (xs @ emitted em)"
    and fl: "sp_file_len self' = sp_file_len self"
    using stream_iteration_cases [OF inv fits] it by auto
  then show "stream_inv N s0 base self' (d @ c) (xs @ emitted em)" "sp_file_len self' = sp_file_len self" .
  have len: "sp_processed_len self + length ?b = sp_processed_len self' + length ?b'"
    using inv inv' by (simp add: stream_inv_def)
  obtain ys out where p: "parses (parse_hprof_record N) (sp_parser self) ?b ys out" using hprof.parses_total by blast
  show "case em of Silent \<Rightarrow> sp_processed_len self' = sp_processed_len self
     | Emit n rs \<Rightarrow> n = sp_processed_len self' \<and> sp_processed_len self < n"
  proof (cases em)
    case Silent
    with it show ?thesis
      by (auto simp: stream_iteration_def Let_def
          split: if_splits option.splits iresult.splits nom_err.splits needed.splits)
  next
    case (Emit n rs)
    with it have n: "n = sp_processed_len self'" and ready: "\<not> sp_needed self > length ?b"
      by (auto simp: stream_iteration_def Let_def
          split: if_splits option.splits iresult.splits nom_err.splits needed.splits)
    from p show ?thesis
    proof (cases out)
      case (Panicked e)
      with stream_iteration_panics(1) [OF inv ready, of ys e] p it show ?thesis by simp
    next
      case (Waiting t r)
      show ?thesis
      proof (cases ys)
        case Nil
        with stream_iteration_incomplete [OF inv ready, of t r] p Waiting it Emit show ?thesis by auto
      next
        case (Cons z zs)
        with stream_iteration_emits [OF inv ready fits, of z zs t r] p Waiting it
        have "n = base + length (d @ c) - length r" using Emit by auto
        moreover have "length r < length ?b" using parses_Cons_consumes p Cons Waiting by blast
        moreover have "sp_processed_len self + length (sp_loop_buffer self) = base + length d"
          using inv by (simp add: stream_inv_def)
        ultimately show ?thesis using n Emit by simp
      qed
    qed
  qed
qed

lemma stream_inv_processed:
  assumes "stream_inv N s0 base self d xs" and "base \<le> sp_processed_len self"
  shows "\<exists>t. parses (parse_hprof_record N) s0 (take (sp_processed_len self - base) (d @ d')) xs (Waiting t [])"
proof -
  let ?r = "sp_loop_buffer self"
  from assms(1) have p: "parses (parse_hprof_record N) s0 d xs (Waiting (sp_parser self) ?r)"
    and len: "sp_processed_len self + length ?r = base + length d" by (simp_all add: stream_inv_def)
  from hprof.parses_Waiting_suffix [OF p] obtain q where q: "d = q @ ?r" by blast
  with len assms(2) have "length q = sp_processed_len self - base"
    using arg_cong [OF q, of length] by simp
  then have "take (sp_processed_len self - base) (d @ d') = q" by (subst q) simp
  with parses_without_rest [OF p q] show ?thesis by auto
qed

lemma stream_run_progress:
  assumes "stream_inv N s0 base self d xs" and "base + length (d @ concat bs) \<le> sp_file_len self"
    and "base \<le> sp_processed_len self" and "stream_run N self bs = Some (Inr (self', ems))"
  shows "sorted_wrt (<) (sp_processed_len self # progress_reports ems) \<and>
    last (sp_processed_len self # progress_reports ems) = sp_processed_len self' \<and>
    (\<forall>ems1 n rs ems2. ems = ems1 @ Emit n rs # ems2 \<longrightarrow>
      (\<exists>t. parses (parse_hprof_record N) s0 (take (n - base) (d @ concat bs)) (xs @ emitted_records ems1 @ rs) (Waiting t [])))"
  using assms
proof (induction bs arbitrary: self d xs ems)
  case Nil
  then show ?case by simp
next
  case (Cons b bs)
  from Cons.prems(4) obtain self1 em ems' where it: "stream_iteration N self b [] = Some (Inr (self1, em))"
    and run: "stream_run N self1 bs = Some (Inr (self', ems'))" and ems: "ems = em # ems'"
    by (auto split: option.splits sum.splits)
  have fits: "base + length (d @ b) \<le> sp_file_len self" using Cons.prems(2) by simp
  note p = stream_iteration_progress [OF Cons.prems(1) fits it]
  have grows: "sp_processed_len self \<le> sp_processed_len self1" using p(3) by (cases em) auto
  with Cons.prems(3) have base: "base \<le> sp_processed_len self1" by simp
  have "base + length ((d @ b) @ concat bs) \<le> sp_file_len self1" using Cons.prems(2) p(2) by simp
  note IH = Cons.IH [OF p(1) this base run]
  have "\<exists>t. parses (parse_hprof_record N) s0 (take (n - base) (d @ concat (b # bs)))
      (xs @ emitted_records ems1 @ rs) (Waiting t [])" if "ems = ems1 @ Emit n rs # ems2" for ems1 n rs ems2
  proof (cases ems1)
    case Nil
    with that ems p(3) have "em = Emit n rs" "n = sp_processed_len self1" by auto
    with stream_inv_processed [OF p(1) base, of "concat bs"] Nil show ?thesis by (simp add: emitted_records_def)
  next
    case (Cons e es)
    with that ems have "e = em" "ems' = es @ Emit n rs # ems2" by auto
    with IH Cons show ?thesis by (simp add: emitted_records_def)
  qed
  moreover have "sorted_wrt (<) (sp_processed_len self # progress_reports ems)"
    using IH p(3) by (cases em) (auto simp: ems)
  moreover have "last (sp_processed_len self # progress_reports ems) = sp_processed_len self'"
    using IH p(3) by (cases em) (auto simp: ems split: if_splits)
  ultimately show ?case by blast
qed

end

section \<open>Properties\<close>

text \<open>Property C5: the parser thread computes the parse of the whole input. Whatever the buffers
  the input arrives in, the loop ends, and it either panics where parsing the concatenation of the
  buffers panics, or sends exactly the records of the concatenation, in order, and keeps exactly
  the bytes after the last complete record.\<close>

theorem stream_parses_whole_input:
  assumes "nom_streaming N" and "processed_len + length (concat bs) \<le> file_len"
  shows "\<exists>ys out. parses (parse_hprof_record N) (hprof_record_parser_new dbg id_size) (concat bs) ys out \<and>
     stream_outcome N (stream_parser_new dbg id_size file_len processed_len []) bs =
       Some (case out of Panicked e \<Rightarrow> Inl e | Waiting s r \<Rightarrow> Inr (ys, r))"
proof -
  obtain ys out where
    "parses (parse_hprof_record N) (hprof_record_parser_new dbg id_size) (concat bs) ys out"
    using nom_streaming.whole_parse_total [OF assms(1)] by blast
  with nom_streaming.stream_outcome_correct [OF assms(1,2)] show ?thesis by blast
qed

theorem stream_parses_whole_input_witness:
  "\<exists>ys out. parses (parse_hprof_record nom_ref) (hprof_record_parser_new False 8)
       (concat [[0x2C, 0, 0], [0, 0, 0, 0, 0, 5, 1]]) ys out \<and>
     stream_outcome nom_ref (stream_parser_new False 8 41 31 []) [[0x2C, 0, 0], [0, 0, 0, 0, 0, 5, 1]] =
       Some (case out of Panicked e \<Rightarrow> Inl e | Waiting s r \<Rightarrow> Inr (ys, r))"
  by (rule stream_parses_whole_input [OF ref.nom_streaming_axioms]) simp

text \<open>The cut of the input into buffers does not matter. Two sequences of buffers with
  the same contents give the same records and the same rest, or the same panic.\<close>

lemma chunking_is_irrelevant:
  assumes "nom_streaming N" and "concat bs = concat cs"
    and "processed_len + length (concat bs) \<le> file_len"
  shows "stream_outcome N (stream_parser_new dbg id_size file_len processed_len []) bs =
         stream_outcome N (stream_parser_new dbg id_size file_len processed_len []) cs"
proof -
  obtain ys out where
    "parses (parse_hprof_record N) (hprof_record_parser_new dbg id_size) (concat bs) ys out"
    using nom_streaming.whole_parse_total [OF assms(1)] by blast
  with assms nom_streaming.stream_outcome_correct [OF assms(1)] show ?thesis by metis
qed

text \<open>Property C37: a progress report counts the bytes of the records sent so far. The reports strictly
  increase and do not exceed the file length; the first bytes of the input, as many as a report counts,
  hold exactly the records sent up to that report, with no byte left over; and the last report leaves out
  the bytes that are still waiting in the buffer of the parser and no others.\<close>

theorem progress_counts_parsed_bytes:
  assumes "nom_streaming N" and "base + length (concat bs) \<le> file_len"
    and "stream_run N (stream_parser_new dbg id_size file_len base []) bs = Some (Inr (self', ems))"
  shows "sorted_wrt (<) (base # progress_reports ems) \<and>
    last (base # progress_reports ems) + length (sp_loop_buffer self') = base + length (concat bs) \<and>
    (\<forall>ems1 n rs ems2. ems = ems1 @ Emit n rs # ems2 \<longrightarrow>
      (\<exists>t. parses (parse_hprof_record N) (hprof_record_parser_new dbg id_size) (take (n - base) (concat bs))
         (emitted_records ems1 @ rs) (Waiting t [])))"
proof -
  let ?sp = "stream_parser_new dbg id_size file_len base []"
  note inv = nom_streaming.stream_inv_new [OF assms(1), of dbg id_size base file_len]
  have sp: "sp_processed_len ?sp = base" "sp_file_len ?sp = file_len" by (simp_all add: stream_parser_new_def)
  have "base + length ([] @ concat bs) \<le> sp_file_len ?sp" using assms(2) sp by simp
  from nom_streaming.stream_run_progress [OF assms(1) inv this _ assms(3)]
    nom_streaming.stream_run_correct [OF assms(1) inv this] assms(3)
  show ?thesis by (auto simp: sp stream_inv_def)
qed

theorem progress_counts_parsed_bytes_witness:
  "\<exists>self' ems. stream_run nom_ref (stream_parser_new False 8 41 31 []) [[0x2C, 0, 0], [0, 0, 0, 0, 0, 5, 1]] =
       Some (Inr (self', ems)) \<and> sp_loop_buffer self' = [1] \<and> last (31 # progress_reports ems) = 40"
proof -
  let ?s = "stream_parser_new False 8 41 31 []" and ?p = "hprof_record_parser_new False 8"
  let ?bs = "[[0x2C, 0, 0], [0, 0, 0, 0, 0, 5, 1]]"
  have "parse_hprof_record nom_ref ?p [0x2C, 0, 0, 0, 0, 0, 0, 0, 5, 1] = (?p, Ok [1] (HeapDumpEnd 5))"
    "parse_hprof_record nom_ref ?p [1] = (?p, Err (Incomplete (Size 4)))" by code_simp+
  then have "parses (parse_hprof_record nom_ref) ?p (concat ?bs) [HeapDumpEnd 5] (Waiting ?p [1])"
    by (auto intro: parses.intros)
  from ref.stream_outcome_correct [OF _ this, of 31 41]
  have "stream_outcome nom_ref ?s ?bs = Some (Inr ([HeapDumpEnd 5], [1]))" by simp
  then obtain self' ems where run: "stream_run nom_ref ?s ?bs = Some (Inr (self', ems))" and left: "[1] = sp_loop_buffer self'"
    by (rule stream_outcome_Inr)
  have "31 + length (concat ?bs) \<le> 41" by simp
  from progress_counts_parsed_bytes [OF ref.nom_streaming_axioms this run]
  have "last (31 # progress_reports ems) + length (sp_loop_buffer self') = 41" by simp
  with left have "last (31 # progress_reports ems) = 40" unfolding left [symmetric] by simp
  with run left [symmetric] show ?thesis by blast
qed

end
