(* ===== verification/Hash_Map.thy ===== *)
theory Hash_Map
  imports Slurp_Prelude "HOL-Library.AList" "HOL-Library.Multiset"
begin

text \<open>
  The hash maps of the recorder (\<open>AHashMap\<close>). What the program relies on is stated as the locale
  \<open>hash_map\<close>: looking up after an insertion, the number of entries, and an iteration that visits
  every entry once. The model represents a map by the list of its entries with distinct keys; the
  order in which the program's maps iterate is not this order but a permutation of it that the
  hash function picks, a parameter of the operations that iterate (the record \<open>hash_order\<close> of the
  recorder). The client lemmas, on the number of entries and their enumeration, are proved in the
  locale.
\<close>

section \<open>Interface\<close>

locale hash_map =
  fixes get :: "'m \<Rightarrow> 'k \<Rightarrow> 'v option"
    and put :: "'k \<Rightarrow> 'v \<Rightarrow> 'm \<Rightarrow> 'm"
    and entries :: "'m \<Rightarrow> ('k \<times> 'v) list"
    and wf :: "'m \<Rightarrow> bool"
  assumes get_put: "get (put k v m) = (get m)(k \<mapsto> v)"
    and wf_put: "wf m \<Longrightarrow> wf (put k v m)"
    and distinct_entries: "wf m \<Longrightarrow> distinct (map fst (entries m))"
    and map_of_entries: "wf m \<Longrightarrow> map_of (entries m) = get m"
begin

text \<open>The number of entries is the number of keys.\<close>

lemma length_entries: "wf m \<Longrightarrow> length (entries m) = card (dom (get m))"
  using distinct_entries [of m] map_of_entries [of m]
  by (metis distinct_card dom_map_of_conv_image_fst length_map set_map)

text \<open>The entries are those of any enumeration of the keys.\<close>

lemma mset_entries:
  assumes "wf m" and "distinct ks" and "\<And>k. k \<in> set ks \<longleftrightarrow> get m k \<noteq> None"
  shows "mset (entries m) = mset (map (\<lambda>k. (k, the (get m k))) ks)"
proof -
  have "set (entries m) = (\<lambda>k. (k, the (get m k))) ` set ks"
    using distinct_entries [OF assms(1)] map_of_entries [OF assms(1)] assms(3)
    by (auto simp: map_of_eq_Some_iff [symmetric] image_iff)
  moreover have "distinct (entries m)" using distinct_entries [OF assms(1)] by (simp add: distinct_map)
  moreover have "distinct (map (\<lambda>k. (k, the (get m k))) ks)"
    using assms(2) by (simp add: distinct_map inj_on_def)
  ultimately show ?thesis by (metis (no_types, lifting) set_eq_iff_mset_eq_distinct set_map)
qed

end

section \<open>Model\<close>

type_synonym ('k, 'v) hashmap = "('k \<times> 'v) list"

definition hm_empty :: "('k, 'v) hashmap" where
  "hm_empty = []"

definition hm_get :: "('k, 'v) hashmap \<Rightarrow> 'k \<Rightarrow> 'v option" where
  "hm_get m k = map_of m k"

definition hm_insert :: "'k \<Rightarrow> 'v \<Rightarrow> ('k, 'v) hashmap \<Rightarrow> ('k, 'v) hashmap" where
  "hm_insert k v m = AList.update k v m"

definition hm_len :: "('k, 'v) hashmap \<Rightarrow> usize" where
  "hm_len m = length m"

definition hm_wf :: "('k, 'v) hashmap \<Rightarrow> bool" where
  "hm_wf m \<longleftrightarrow> distinct (map fst m)"

text \<open>\<open>entry(k).or_insert_with(d)\<close> followed by a change of the entry.\<close>

definition hm_entry_update :: "'k \<Rightarrow> 'v \<Rightarrow> ('v \<Rightarrow> 'v) \<Rightarrow> ('k, 'v) hashmap \<Rightarrow> ('k, 'v) hashmap" where
  "hm_entry_update k d f m = hm_insert k (f (case hm_get m k of None \<Rightarrow> d | Some v \<Rightarrow> v)) m"

interpretation hm: hash_map hm_get hm_insert "\<lambda>m. m" hm_wf
proof unfold_locales
  fix m :: "('a, 'b) hashmap" and k v
  show "hm_get (hm_insert k v m) = (hm_get m)(k \<mapsto> v)"
    by (simp add: hm_get_def hm_insert_def update_conv fun_eq_iff)
  show "hm_wf m \<Longrightarrow> hm_wf (hm_insert k v m)"
    by (simp add: hm_wf_def hm_insert_def distinct_update)
qed (simp_all add: hm_wf_def hm_get_def fun_eq_iff)

lemma hm_wf_empty [simp]: "hm_wf hm_empty"
  by (simp add: hm_wf_def hm_empty_def)

lemma hm_get_empty [simp]: "hm_get hm_empty k = None"
  by (simp add: hm_get_def hm_empty_def)

lemma hm_get_insert [simp]: "hm_get (hm_insert k v m) k' = (if k' = k then Some v else hm_get m k')"
  using hm.get_put [of k v m] by simp

lemma hm_wf_insert [intro, simp]: "hm_wf m \<Longrightarrow> hm_wf (hm_insert k v m)"
  by (rule hm.wf_put)

lemma hm_wf_entry_update [intro, simp]: "hm_wf m \<Longrightarrow> hm_wf (hm_entry_update k d f m)"
  by (simp add: hm_entry_update_def)

lemma hm_get_entry_update:
  "hm_get (hm_entry_update k d f m) k' =
     (if k' = k then Some (f (case hm_get m k of None \<Rightarrow> d | Some v \<Rightarrow> v)) else hm_get m k')"
  by (simp add: hm_entry_update_def)

lemma hm_len_card: "hm_wf m \<Longrightarrow> hm_len m = card (dom (hm_get m))"
  using hm.length_entries [of m] by (simp add: hm_len_def)

end
