(* ===== verification/Result_Recorder.thy ===== *)
theory Result_Recorder
  imports Hprof_Record Hash_Map
begin

text \<open>
  The recorder of \<^verbatim>\<open>src/result_recorder.rs\<close>: its state with all its counters and maps, the sizes
  of objects and arrays, and \<open>record_records\<close>, which folds a vector of records into the state. The
  counters of records are 32-bit and those of instances and bytes 64-bit words; their additions
  wrap, as in a release build. The vectors the program empties with \<open>mem::take\<close> belong to records
  that are cleared afterwards, so the model leaves them alone.
\<close>

section \<open>Sizes\<close>

definition OBJECT_ALIGN :: u32 where
  "OBJECT_ALIGN = 8"

fun field_size :: "field_type \<Rightarrow> u32 \<Rightarrow> u32" where
  "field_size FT_Object id_size = id_size"
| "field_size FT_Byte id_size = 1"
| "field_size FT_Bool id_size = 1"
| "field_size FT_Char id_size = 2"
| "field_size FT_Short id_size = 2"
| "field_size FT_Float id_size = 4"
| "field_size FT_Int id_size = 4"
| "field_size FT_Double id_size = 8"
| "field_size FT_Long id_size = 8"

fun primitive_byte_size :: "field_type \<Rightarrow> panic + u64" where
  "primitive_byte_size FT_Byte = Inr 1"
| "primitive_byte_size FT_Bool = Inr 1"
| "primitive_byte_size FT_Char = Inr 2"
| "primitive_byte_size FT_Short = Inr 2"
| "primitive_byte_size FT_Float = Inr 4"
| "primitive_byte_size FT_Int = Inr 4"
| "primitive_byte_size FT_Double = Inr 8"
| "primitive_byte_size FT_Long = Inr 8"
| "primitive_byte_size FT_Object = Inl ObjectTypeInPrimitiveArray"

definition object_header_size :: "u32 \<Rightarrow> panic + u32" where
  "object_header_size id_size =
     (if id_size = 4 then Inr 8 else if id_size = 8 then Inr 16 else Inl (UnsupportedIdSize id_size))"

definition array_header_size :: "u32 \<Rightarrow> panic + u64" where
  "array_header_size id_size =
     (if id_size = 4 then Inr 12 else if id_size = 8 then Inr 16 else Inl (UnsupportedIdSize id_size))"

definition primitive_array_size :: "u32 \<Rightarrow> field_type \<Rightarrow> u32 \<Rightarrow> panic + u64" where
  "primitive_array_size id_size field_type number_of_elements =
     try_then (array_header_size id_size) (\<lambda>header_size.
     try_then (primitive_byte_size field_type) (\<lambda>byte_size.
       next_multiple_of (header_size + byte_size * ucast number_of_elements) (ucast OBJECT_ALIGN)))"

definition object_array_size :: "u32 \<Rightarrow> u32 \<Rightarrow> panic + u64" where
  "object_array_size id_size number_of_elements =
     try_then (array_header_size id_size) (\<lambda>header_size.
       next_multiple_of (header_size + ucast id_size * ucast number_of_elements) (ucast OBJECT_ALIGN))"

section \<open>State\<close>

record class_info =
  ci_super_class_object_id :: u64
  ci_instance_field_types :: "field_type list"

definition class_info_new :: "u64 \<Rightarrow> field_type list \<Rightarrow> class_info" where
  "class_info_new super_id types = \<lparr>ci_super_class_object_id = super_id, ci_instance_field_types = types\<rparr>"

record class_instance_counter =
  number_of_instances :: u64

definition class_instance_counter_empty :: class_instance_counter where
  "class_instance_counter_empty = \<lparr>number_of_instances = 0\<rparr>"

definition add_instance :: "class_instance_counter \<Rightarrow> class_instance_counter" where
  "add_instance self = self\<lparr>number_of_instances := number_of_instances self + 1\<rparr>"

record array_counter =
  number_of_arrays :: u64
  max_size_bytes_seen :: u64
  total_size_bytes :: u64

definition array_counter_empty :: array_counter where
  "array_counter_empty = \<lparr>number_of_arrays = 0, max_size_bytes_seen = 0, total_size_bytes = 0\<rparr>"

definition add_array :: "u64 \<Rightarrow> array_counter \<Rightarrow> array_counter" where
  "add_array size_bytes self =
     (let self = self\<lparr>number_of_arrays := number_of_arrays self + 1\<rparr>;
          self = (if size_bytes > max_size_bytes_seen self
                  then self\<lparr>max_size_bytes_seen := size_bytes\<rparr> else self)
      in self\<lparr>total_size_bytes := total_size_bytes self + size_bytes\<rparr>)"

record result_recorder =
  rr_id_size :: u32
  rr_list_strings :: bool
  rr_timestamp :: u64
  rr_classes_unloaded :: u32
  rr_stack_frames :: u32
  rr_stack_traces :: u32
  rr_start_threads :: u32
  rr_end_threads :: u32
  rr_heap_summaries :: u32
  rr_heap_dumps :: u32
  rr_allocation_sites :: u32
  rr_control_settings :: u32
  rr_cpu_samples :: u32
  rr_heap_dump_segments_all_sub_records :: u32
  rr_heap_dump_segments_gc_root_unknown :: u32
  rr_heap_dump_segments_gc_root_thread_object :: u32
  rr_heap_dump_segments_gc_root_jni_global :: u32
  rr_heap_dump_segments_gc_root_jni_local :: u32
  rr_heap_dump_segments_gc_root_java_frame :: u32
  rr_heap_dump_segments_gc_root_native_stack :: u32
  rr_heap_dump_segments_gc_root_sticky_class :: u32
  rr_heap_dump_segments_gc_root_thread_block :: u32
  rr_heap_dump_segments_gc_root_monitor_used :: u32
  rr_heap_dump_segments_gc_object_array_dump :: u32
  rr_heap_dump_segments_gc_instance_dump :: u32
  rr_heap_dump_segments_gc_primitive_array_dump :: u32
  rr_heap_dump_segments_gc_class_dump :: u32
  rr_utf8_strings_by_id :: "(u64, string) hashmap"
  rr_class_data :: "load_class_data list"
  rr_class_data_by_id :: "(u64, usize) hashmap"
  rr_class_data_by_serial_number :: "(u32, usize) hashmap"
  rr_classes_single_instance_size_by_id :: "(u64, class_info) hashmap"
  rr_classes_all_instance_total_size_by_id :: "(u64, class_instance_counter) hashmap"
  rr_primitive_array_counters :: "(field_type, array_counter) hashmap"
  rr_object_array_counters :: "(u64, array_counter) hashmap"
  rr_stack_trace_by_serial_number :: "(u32, stack_trace_data) hashmap"
  rr_stack_frame_by_id :: "(u64, stack_frame_data) hashmap"

definition result_recorder_new :: "u32 \<Rightarrow> bool \<Rightarrow> u64 \<Rightarrow> result_recorder" where
  "result_recorder_new id_size list_strings timestamp =
     \<lparr>rr_id_size = id_size, rr_list_strings = list_strings, rr_timestamp = timestamp,
      rr_classes_unloaded = 0,
      rr_stack_frames = 0,
      rr_stack_traces = 0,
      rr_start_threads = 0,
      rr_end_threads = 0,
      rr_heap_summaries = 0,
      rr_heap_dumps = 0,
      rr_allocation_sites = 0,
      rr_control_settings = 0,
      rr_cpu_samples = 0,
      rr_heap_dump_segments_all_sub_records = 0,
      rr_heap_dump_segments_gc_root_unknown = 0,
      rr_heap_dump_segments_gc_root_thread_object = 0,
      rr_heap_dump_segments_gc_root_jni_global = 0,
      rr_heap_dump_segments_gc_root_jni_local = 0,
      rr_heap_dump_segments_gc_root_java_frame = 0,
      rr_heap_dump_segments_gc_root_native_stack = 0,
      rr_heap_dump_segments_gc_root_sticky_class = 0,
      rr_heap_dump_segments_gc_root_thread_block = 0,
      rr_heap_dump_segments_gc_root_monitor_used = 0,
      rr_heap_dump_segments_gc_object_array_dump = 0,
      rr_heap_dump_segments_gc_instance_dump = 0,
      rr_heap_dump_segments_gc_primitive_array_dump = 0,
      rr_heap_dump_segments_gc_class_dump = 0,
      rr_utf8_strings_by_id = hm_empty, rr_class_data = [], rr_class_data_by_id = hm_empty,
      rr_class_data_by_serial_number = hm_empty, rr_classes_single_instance_size_by_id = hm_empty,
      rr_classes_all_instance_total_size_by_id = hm_empty, rr_primitive_array_counters = hm_empty,
      rr_object_array_counters = hm_empty, rr_stack_trace_by_serial_number = hm_empty,
      rr_stack_frame_by_id = hm_empty\<rparr>"

section \<open>Recording\<close>

fun record_gc_record :: "result_recorder \<Rightarrow> gc_record \<Rightarrow> panic + result_recorder" where
  "record_gc_record self (RootUnknown _) =
     Inr (self\<lparr>rr_heap_dump_segments_gc_root_unknown := rr_heap_dump_segments_gc_root_unknown self + 1\<rparr>)"
| "record_gc_record self (RootThreadObject _ _ _) =
     Inr (self\<lparr>rr_heap_dump_segments_gc_root_thread_object := rr_heap_dump_segments_gc_root_thread_object self + 1\<rparr>)"
| "record_gc_record self (RootJniGlobal _ _) =
     Inr (self\<lparr>rr_heap_dump_segments_gc_root_jni_global := rr_heap_dump_segments_gc_root_jni_global self + 1\<rparr>)"
| "record_gc_record self (RootJniLocal _ _ _) =
     Inr (self\<lparr>rr_heap_dump_segments_gc_root_jni_local := rr_heap_dump_segments_gc_root_jni_local self + 1\<rparr>)"
| "record_gc_record self (RootJavaFrame _ _ _) =
     Inr (self\<lparr>rr_heap_dump_segments_gc_root_java_frame := rr_heap_dump_segments_gc_root_java_frame self + 1\<rparr>)"
| "record_gc_record self (RootNativeStack _ _) =
     Inr (self\<lparr>rr_heap_dump_segments_gc_root_native_stack := rr_heap_dump_segments_gc_root_native_stack self + 1\<rparr>)"
| "record_gc_record self (RootStickyClass _) =
     Inr (self\<lparr>rr_heap_dump_segments_gc_root_sticky_class := rr_heap_dump_segments_gc_root_sticky_class self + 1\<rparr>)"
| "record_gc_record self (RootThreadBlock _ _) =
     Inr (self\<lparr>rr_heap_dump_segments_gc_root_thread_block := rr_heap_dump_segments_gc_root_thread_block self + 1\<rparr>)"
| "record_gc_record self (RootMonitorUsed _) =
     Inr (self\<lparr>rr_heap_dump_segments_gc_root_monitor_used := rr_heap_dump_segments_gc_root_monitor_used self + 1\<rparr>)"
| "record_gc_record self (InstanceDump _ _ class_object_id _) =
     Inr (self\<lparr>rr_classes_all_instance_total_size_by_id :=
              hm_entry_update class_object_id class_instance_counter_empty add_instance
                (rr_classes_all_instance_total_size_by_id self),
            rr_heap_dump_segments_gc_instance_dump := rr_heap_dump_segments_gc_instance_dump self + 1\<rparr>)"
| "record_gc_record self (ObjectArrayDump _ _ number_of_elements array_class_id) =
     try_then (object_array_size (rr_id_size self) number_of_elements) (\<lambda>size_bytes.
       Inr (self\<lparr>rr_object_array_counters :=
                hm_entry_update array_class_id array_counter_empty (add_array size_bytes)
                  (rr_object_array_counters self),
              rr_heap_dump_segments_gc_object_array_dump := rr_heap_dump_segments_gc_object_array_dump self + 1\<rparr>))"
| "record_gc_record self (PrimitiveArrayDump _ _ number_of_elements element_type) =
     try_then (primitive_array_size (rr_id_size self) element_type number_of_elements) (\<lambda>size_bytes.
       Inr (self\<lparr>rr_primitive_array_counters :=
                hm_entry_update element_type array_counter_empty (add_array size_bytes)
                  (rr_primitive_array_counters self),
              rr_heap_dump_segments_gc_primitive_array_dump := rr_heap_dump_segments_gc_primitive_array_dump self + 1\<rparr>))"
| "record_gc_record self (ClassDump class_dump_fields) =
     Inr (self\<lparr>rr_classes_single_instance_size_by_id :=
              hm_entry_update (cdf_class_object_id class_dump_fields)
                (class_info_new (cdf_super_class_object_id class_dump_fields)
                   (map fi_field_type (cdf_instance_fields class_dump_fields)))
                (\<lambda>class_info. class_info) (rr_classes_single_instance_size_by_id self),
            rr_heap_dump_segments_gc_class_dump := rr_heap_dump_segments_gc_class_dump self + 1\<rparr>)"
| "record_gc_record self (RootInternedString _) = Inr self"
| "record_gc_record self (RootFinalizing _) = Inr self"
| "record_gc_record self (RootDebugger _) = Inr self"
| "record_gc_record self (RootReferenceCleanup _) = Inr self"
| "record_gc_record self (RootVmInternal _) = Inr self"
| "record_gc_record self (RootJniMonitor _ _ _) = Inr self"
| "record_gc_record self (Unreachable _) = Inr self"
| "record_gc_record self (HeapDumpInfo _ _) = Inr self"
| "record_gc_record self (PrimitiveArrayNoDataDump _ _ _ element_type) =
     Inr (self\<lparr>rr_primitive_array_counters :=
              hm_entry_update element_type array_counter_empty (add_array 0)
                (rr_primitive_array_counters self),
            rr_heap_dump_segments_gc_primitive_array_dump := rr_heap_dump_segments_gc_primitive_array_dump self + 1\<rparr>)"

fun record_record :: "result_recorder \<Rightarrow> hprof_record \<Rightarrow> panic + result_recorder" where
  "record_record self (Utf8String i str) =
     Inr (self\<lparr>rr_utf8_strings_by_id := hm_insert i str (rr_utf8_strings_by_id self)\<rparr>)"
| "record_record self (LoadClass load_class_data) =
     (let class_data = rr_class_data self @ [load_class_data];
          data_index = length class_data - 1
      in Inr (self\<lparr>rr_class_data := class_data,
            rr_class_data_by_id :=
              hm_insert (lc_class_object_id load_class_data) data_index (rr_class_data_by_id self),
            rr_class_data_by_serial_number :=
              hm_insert (lc_serial_number load_class_data) data_index
                (rr_class_data_by_serial_number self)\<rparr>))"
| "record_record self (UnloadClass _) = Inr (self\<lparr>rr_classes_unloaded := rr_classes_unloaded self + 1\<rparr>)"
| "record_record self (StackFrame stack_frame_data) =
     Inr (self\<lparr>rr_stack_frames := rr_stack_frames self + 1,
            rr_stack_frame_by_id :=
              hm_insert (sf_stack_frame_id stack_frame_data) stack_frame_data (rr_stack_frame_by_id self)\<rparr>)"
| "record_record self (StackTrace stack_trace_data) =
     Inr (self\<lparr>rr_stack_traces := rr_stack_traces self + 1,
            rr_stack_trace_by_serial_number :=
              hm_insert (st_serial_number stack_trace_data) stack_trace_data
                (rr_stack_trace_by_serial_number self)\<rparr>)"
| "record_record self (StartThread _ _ _ _ _ _) = Inr (self\<lparr>rr_start_threads := rr_start_threads self + 1\<rparr>)"
| "record_record self (EndThread _) = Inr (self\<lparr>rr_end_threads := rr_end_threads self + 1\<rparr>)"
| "record_record self (AllocationSites _ _ _ _ _ _ _ _) = Inr (self\<lparr>rr_allocation_sites := rr_allocation_sites self + 1\<rparr>)"
| "record_record self (HeapSummary _ _ _ _) = Inr (self\<lparr>rr_heap_summaries := rr_heap_summaries self + 1\<rparr>)"
| "record_record self (ControlSettings _ _) = Inr (self\<lparr>rr_control_settings := rr_control_settings self + 1\<rparr>)"
| "record_record self (CpuSamples _ _ _) = Inr (self\<lparr>rr_cpu_samples := rr_cpu_samples self + 1\<rparr>)"
| "record_record self (HeapDumpEnd _) = Inr self"
| "record_record self (HeapDumpStart _) = Inr (self\<lparr>rr_heap_dumps := rr_heap_dumps self + 1\<rparr>)"
| "record_record self (GcSegment gc_record) =
     record_gc_record (self\<lparr>rr_heap_dump_segments_all_sub_records := rr_heap_dump_segments_all_sub_records self + 1\<rparr>) gc_record"

primrec record_records :: "result_recorder \<Rightarrow> hprof_record list \<Rightarrow> panic + result_recorder" where
  "record_records self [] = Inr self"
| "record_records self (record # records) =
     try_then (record_record self record) (\<lambda>self. record_records self records)"

end
