(* ===== verification/Recorder_Laws.thy ===== *)
theory Recorder_Laws
  imports Result_Recorder
begin

text \<open>
  What the recorder knows after a sequence of records. The locale \<open>recorded_view\<close> is the contract
  between \<open>record_record\<close> and everything derived from it: a part of the state that changes with
  each record by a function of the record alone. Its consequence for whole sequences is proved once
  and interpreted for the counters, the maps of strings, classes, stack traces and frames, and the
  instance and array statistics.
\<close>

section \<open>Sequences of records\<close>

lemma record_records_append:
  "record_records self (xs @ ys) = try_then (record_records self xs) (\<lambda>self. record_records self ys)"
proof (induction xs arbitrary: self)
  case (Cons r xs)
  then show ?case by (cases "record_record self r") simp_all
qed simp

lemma record_gc_id_size: "record_gc_record self g = Inr self' \<Longrightarrow> rr_id_size self' = rr_id_size self"
  by (cases g) (auto simp: try_then_Inr)

lemma record_id_size: "record_record self r = Inr self' \<Longrightarrow> rr_id_size self' = rr_id_size self"
  by (cases r) (auto simp: Let_def dest: record_gc_id_size)

locale recorded_view =
  fixes inv :: "result_recorder \<Rightarrow> bool"
    and view :: "result_recorder \<Rightarrow> 'a"
    and upd :: "hprof_record \<Rightarrow> 'a \<Rightarrow> 'a"
  assumes inv_step: "inv self \<Longrightarrow> record_record self r = Inr self' \<Longrightarrow> inv self'"
    and step: "inv self \<Longrightarrow> record_record self r = Inr self' \<Longrightarrow> view self' = upd r (view self)"
begin

lemma view_records:
  "inv self \<Longrightarrow> record_records self rs = Inr self' \<Longrightarrow> view self' = fold upd rs (view self)"
proof (induction rs arbitrary: self)
  case (Cons r rs)
  then obtain s where s: "record_record self r = Inr s" "record_records s rs = Inr self'"
    by (auto simp: try_then_Inr)
  with Cons.IH [of s] Cons.prems(1) show ?case by (simp add: step inv_step)
qed simp

end

section \<open>Counters\<close>

text \<open>A counter adds one for each record of a kind.\<close>

definition bump :: "(hprof_record \<Rightarrow> bool) \<Rightarrow> hprof_record \<Rightarrow> u32 \<Rightarrow> u32" where
  "bump P r n = (if P r then n + 1 else n)"

definition tally :: "(hprof_record \<Rightarrow> bool) \<Rightarrow> hprof_record list \<Rightarrow> u32" where
  "tally P rs = word_of_nat (length (filter P rs))"

lemma fold_bump: "fold (bump P) rs n = n + tally P rs"
  by (induction rs arbitrary: n) (simp_all add: bump_def tally_def add_ac)

definition gc_hit :: "(gc_record \<Rightarrow> bool) \<Rightarrow> hprof_record \<Rightarrow> bool" where
  "gc_hit P r = (case r of GcSegment g \<Rightarrow> P g | _ \<Rightarrow> False)"

text \<open>Effect of one sub-record on the fields it does not concern.\<close>

lemma record_gc_counters:
  assumes "record_gc_record self g = Inr self'"
  shows "rr_classes_unloaded self' = rr_classes_unloaded self"
    "rr_stack_frames self' = rr_stack_frames self" "rr_stack_traces self' = rr_stack_traces self"
    "rr_start_threads self' = rr_start_threads self" "rr_end_threads self' = rr_end_threads self"
    "rr_heap_summaries self' = rr_heap_summaries self" "rr_heap_dumps self' = rr_heap_dumps self"
    "rr_allocation_sites self' = rr_allocation_sites self"
    "rr_control_settings self' = rr_control_settings self" "rr_cpu_samples self' = rr_cpu_samples self"
    "rr_utf8_strings_by_id self' = rr_utf8_strings_by_id self" "rr_class_data self' = rr_class_data self"
    "rr_class_data_by_id self' = rr_class_data_by_id self"
    "rr_class_data_by_serial_number self' = rr_class_data_by_serial_number self"
    "rr_stack_trace_by_serial_number self' = rr_stack_trace_by_serial_number self"
    "rr_stack_frame_by_id self' = rr_stack_frame_by_id self"
    "rr_timestamp self' = rr_timestamp self" "rr_list_strings self' = rr_list_strings self"
    "rr_heap_dump_segments_all_sub_records self' = rr_heap_dump_segments_all_sub_records self"
  using assms by (cases g; auto simp: try_then_Inr)+

text \<open>Each counter with the records it counts.\<close>

definition tag_counters :: "((result_recorder \<Rightarrow> u32) \<times> (hprof_record \<Rightarrow> bool)) list" where
  "tag_counters =
     [(rr_classes_unloaded, \<lambda>r. case r of UnloadClass _ \<Rightarrow> True | _ \<Rightarrow> False),
      (rr_stack_frames, \<lambda>r. case r of StackFrame _ \<Rightarrow> True | _ \<Rightarrow> False),
      (rr_stack_traces, \<lambda>r. case r of StackTrace _ \<Rightarrow> True | _ \<Rightarrow> False),
      (rr_start_threads, \<lambda>r. case r of StartThread _ _ _ _ _ _ \<Rightarrow> True | _ \<Rightarrow> False),
      (rr_end_threads, \<lambda>r. case r of EndThread _ \<Rightarrow> True | _ \<Rightarrow> False),
      (rr_heap_summaries, \<lambda>r. case r of HeapSummary _ _ _ _ \<Rightarrow> True | _ \<Rightarrow> False),
      (rr_heap_dumps, \<lambda>r. case r of HeapDumpStart _ \<Rightarrow> True | _ \<Rightarrow> False),
      (rr_allocation_sites, \<lambda>r. case r of AllocationSites _ _ _ _ _ _ _ _ \<Rightarrow> True | _ \<Rightarrow> False),
      (rr_control_settings, \<lambda>r. case r of ControlSettings _ _ \<Rightarrow> True | _ \<Rightarrow> False),
      (rr_cpu_samples, \<lambda>r. case r of CpuSamples _ _ _ \<Rightarrow> True | _ \<Rightarrow> False),
      (rr_heap_dump_segments_all_sub_records, \<lambda>r. case r of GcSegment _ \<Rightarrow> True | _ \<Rightarrow> False)]"

definition gc_tag_counters :: "((result_recorder \<Rightarrow> u32) \<times> (gc_record \<Rightarrow> bool)) list" where
  "gc_tag_counters =
     [(rr_heap_dump_segments_gc_root_unknown, \<lambda>g. case g of RootUnknown _ \<Rightarrow> True | _ \<Rightarrow> False),
      (rr_heap_dump_segments_gc_root_thread_object, \<lambda>g. case g of RootThreadObject _ _ _ \<Rightarrow> True | _ \<Rightarrow> False),
      (rr_heap_dump_segments_gc_root_jni_global, \<lambda>g. case g of RootJniGlobal _ _ \<Rightarrow> True | _ \<Rightarrow> False),
      (rr_heap_dump_segments_gc_root_jni_local, \<lambda>g. case g of RootJniLocal _ _ _ \<Rightarrow> True | _ \<Rightarrow> False),
      (rr_heap_dump_segments_gc_root_java_frame, \<lambda>g. case g of RootJavaFrame _ _ _ \<Rightarrow> True | _ \<Rightarrow> False),
      (rr_heap_dump_segments_gc_root_native_stack, \<lambda>g. case g of RootNativeStack _ _ \<Rightarrow> True | _ \<Rightarrow> False),
      (rr_heap_dump_segments_gc_root_sticky_class, \<lambda>g. case g of RootStickyClass _ \<Rightarrow> True | _ \<Rightarrow> False),
      (rr_heap_dump_segments_gc_root_thread_block, \<lambda>g. case g of RootThreadBlock _ _ \<Rightarrow> True | _ \<Rightarrow> False),
      (rr_heap_dump_segments_gc_root_monitor_used, \<lambda>g. case g of RootMonitorUsed _ \<Rightarrow> True | _ \<Rightarrow> False),
      (rr_heap_dump_segments_gc_object_array_dump, \<lambda>g. case g of ObjectArrayDump _ _ _ _ \<Rightarrow> True | _ \<Rightarrow> False),
      (rr_heap_dump_segments_gc_instance_dump, \<lambda>g. case g of InstanceDump _ _ _ _ \<Rightarrow> True | _ \<Rightarrow> False),
      (rr_heap_dump_segments_gc_primitive_array_dump, \<lambda>g. case g of PrimitiveArrayDump _ _ _ _ \<Rightarrow> True | PrimitiveArrayNoDataDump _ _ _ _ \<Rightarrow> True | _ \<Rightarrow> False),
      (rr_heap_dump_segments_gc_class_dump, \<lambda>g. case g of ClassDump _ \<Rightarrow> True | _ \<Rightarrow> False)]"

lemma tag_counter_step:
  assumes "(counter, kind) \<in> set tag_counters" and "record_record self r = Inr self'"
  shows "counter self' = bump kind r (counter self)"
  using assms by (cases r) (auto simp: tag_counters_def bump_def Let_def record_gc_counters)

lemma gc_tag_counter_gc_step:
  assumes "(counter, kind) \<in> set gc_tag_counters" and "record_gc_record self g = Inr self'"
  shows "counter self' = (if kind g then counter self + 1 else counter self)"
  using assms by (cases g) (auto simp: gc_tag_counters_def try_then_Inr)

lemma gc_tag_counter_step:
  assumes "(counter, kind) \<in> set gc_tag_counters" and "record_record self r = Inr self'"
  shows "counter self' = bump (gc_hit kind) r (counter self)"
proof (cases r)
  case (GcSegment g)
  let ?s = "self\<lparr>rr_heap_dump_segments_all_sub_records := rr_heap_dump_segments_all_sub_records self + 1\<rparr>"
  have "counter ?s = counter self" using assms(1) by (auto simp: gc_tag_counters_def)
  with GcSegment gc_tag_counter_gc_step [OF assms(1), of ?s g self'] assms(2) show ?thesis
    by (simp add: bump_def gc_hit_def)
qed (use assms in \<open>auto simp: gc_tag_counters_def bump_def gc_hit_def Let_def\<close>)

lemma counters_new:
  "(counter, kind) \<in> set tag_counters \<Longrightarrow> counter (result_recorder_new z l t) = 0"
  "(counter, kind') \<in> set gc_tag_counters \<Longrightarrow> counter (result_recorder_new z l t) = 0"
  by (auto simp: tag_counters_def gc_tag_counters_def result_recorder_new_def)

lemma tag_counter_view:
  "(counter, kind) \<in> set tag_counters \<Longrightarrow> recorded_view (\<lambda>_. True) counter (bump kind)"
  "(counter, kind') \<in> set gc_tag_counters \<Longrightarrow> recorded_view (\<lambda>_. True) counter (bump (gc_hit kind'))"
  by (unfold_locales; simp add: tag_counter_step gc_tag_counter_step)+

lemma counters_recorded:
  assumes "record_records (result_recorder_new z l t) rs = Inr self"
  shows "list_all (\<lambda>(counter, kind). counter self = tally kind rs) tag_counters \<and>
     list_all (\<lambda>(counter, kind). counter self = tally (gc_hit kind) rs) gc_tag_counters"
  using recorded_view.view_records [OF tag_counter_view(1) TrueI assms]
    recorded_view.view_records [OF tag_counter_view(2) TrueI assms]
  by (auto simp: list_all_iff fold_bump counters_new)

text \<open>The options a recorder is made with stay.\<close>

interpretation options_view: recorded_view "\<lambda>_. True" "\<lambda>self. (rr_timestamp self, rr_list_strings self)" "\<lambda>_ v. v"
proof
  fix self r self'
  assume "record_record self r = Inr self'"
  then show "(rr_timestamp self', rr_list_strings self') = (rr_timestamp self, rr_list_strings self)"
    by (cases r) (auto simp: Let_def record_gc_counters)
qed simp

lemma options_kept:
  assumes "record_records (result_recorder_new z l t) rs = Inr self"
  shows "rr_timestamp self = t" "rr_list_strings self = l"
  using options_view.view_records [OF TrueI assms] by (simp_all add: result_recorder_new_def fold_id [unfolded id_def])

section \<open>Properties\<close>

text \<open>Property C21: the counters are exact. After any sequence of records, each of the 32-bit counters
  of the summary is the number of records, or of heap dump sub-records, of its kind, modulo
  \<open>2\<^sup>3\<^sup>2\<close>.\<close>

theorem recorder_counts:
  assumes "record_records (result_recorder_new z l t) rs = Inr self"
  shows "list_all (\<lambda>(counter, kind). counter self = tally kind rs) tag_counters \<and>
     list_all (\<lambda>(counter, kind). counter self = tally (gc_hit kind) rs) gc_tag_counters"
  by (rule counters_recorded [OF assms])

theorem recorder_counts_witness:
  "\<exists>self. record_records (result_recorder_new 8 False 0)
       [UnloadClass 1, HeapDumpStart 9, GcSegment (RootUnknown 2), UnloadClass 3] = Inr self \<and>
     rr_classes_unloaded self = 2 \<and> rr_heap_dumps self = 1 \<and> rr_heap_dump_segments_gc_root_unknown self = 1"
proof -
  obtain self where self: "record_records (result_recorder_new 8 False 0)
      [UnloadClass 1, HeapDumpStart 9, GcSegment (RootUnknown 2), UnloadClass 3] = Inr self" by simp
  from recorder_counts [OF this] show ?thesis using self
    by (auto simp: tag_counters_def gc_tag_counters_def tally_def gc_hit_def)
qed

end
