(* ===== verification/Recorder_Maps.thy ===== *)
theory Recorder_Maps
  imports Recorder_Laws
begin

text \<open>
  The invariant of the recorder and what its maps hold after a sequence of records: the last
  string, stack frame and stack trace under an identifier, the first class definition, the class
  a class identifier or serial number was last loaded with, and the statistics of instances and
  arrays.
\<close>

section \<open>Invariant\<close>

definition class_index_ok :: "load_class_data list \<Rightarrow> (load_class_data \<Rightarrow> 'k) \<Rightarrow> ('k, usize) hashmap \<Rightarrow> bool" where
  "class_index_ok cs key m \<longleftrightarrow> (\<forall>k i. hm_get m k = Some i \<longrightarrow> i < length cs \<and> key (cs ! i) = k)"

definition recorder_inv :: "u32 \<Rightarrow> result_recorder \<Rightarrow> bool" where
  "recorder_inv id_size self \<longleftrightarrow> rr_id_size self = id_size \<and>
     hm_wf (rr_utf8_strings_by_id self) \<and> hm_wf (rr_class_data_by_id self) \<and>
     hm_wf (rr_class_data_by_serial_number self) \<and> hm_wf (rr_classes_single_instance_size_by_id self) \<and>
     hm_wf (rr_classes_all_instance_total_size_by_id self) \<and> hm_wf (rr_primitive_array_counters self) \<and>
     hm_wf (rr_object_array_counters self) \<and> hm_wf (rr_stack_trace_by_serial_number self) \<and>
     hm_wf (rr_stack_frame_by_id self) \<and>
     class_index_ok (rr_class_data self) lc_class_object_id (rr_class_data_by_id self) \<and>
     class_index_ok (rr_class_data self) lc_serial_number (rr_class_data_by_serial_number self)"

lemma class_index_ok_add:
  "class_index_ok cs key m \<Longrightarrow> class_index_ok (cs @ [d]) key (hm_insert (key d) (length cs) m)"
  by (fastforce simp: class_index_ok_def nth_append split: if_splits)

lemma recorder_inv_new: "recorder_inv id_size (result_recorder_new id_size l t)"
  by (simp add: recorder_inv_def result_recorder_new_def class_index_ok_def)

lemma recorder_inv_gc: "recorder_inv z self \<Longrightarrow> record_gc_record self g = Inr self' \<Longrightarrow> recorder_inv z self'"
  by (cases g) (auto simp: recorder_inv_def try_then_Inr)

lemma recorder_inv_step: "recorder_inv z self \<Longrightarrow> record_record self r = Inr self' \<Longrightarrow> recorder_inv z self'"
proof (cases r)
  case (GcSegment g)
  let ?s = "self\<lparr>rr_heap_dump_segments_all_sub_records := rr_heap_dump_segments_all_sub_records self + 1\<rparr>"
  assume "recorder_inv z self" and r: "record_record self r = Inr self'"
  then have "recorder_inv z ?s" by (simp add: recorder_inv_def)
  then show ?thesis using recorder_inv_gc r GcSegment by simp
qed (auto simp: recorder_inv_def class_index_ok_add Let_def)

lemma recorder_inv_records:
  "recorder_inv z self \<Longrightarrow> record_records self rs = Inr self' \<Longrightarrow> recorder_inv z self'"
proof (induction rs arbitrary: self)
  case (Cons r rs)
  then show ?case by (auto simp: try_then_Inr intro: recorder_inv_step)
qed simp

section \<open>Entries under a key\<close>

text \<open>The entry of a map under a key, when a record contributes the values \<open>sel r\<close> to it.\<close>

definition entry_upd :: "(hprof_record \<Rightarrow> 's list) \<Rightarrow> ('s \<Rightarrow> 'v option \<Rightarrow> 'v) \<Rightarrow> hprof_record \<Rightarrow> 'v option \<Rightarrow> 'v option" where
  "entry_upd sel g r v = fold (\<lambda>s v. Some (g s v)) (sel r) v"

definition contributions :: "(hprof_record \<Rightarrow> 's list) \<Rightarrow> hprof_record list \<Rightarrow> 's list" where
  "contributions sel rs = concat (map sel rs)"

lemma fold_entry_upd:
  "fold (entry_upd sel g) rs v = fold (\<lambda>s v. Some (g s v)) (contributions sel rs) v"
  by (induction rs arbitrary: v) (simp_all add: entry_upd_def contributions_def)

lemma fold_last: "fold (\<lambda>s v. Some s) ss v = (if ss = [] then v else Some (last ss))"
  by (induction ss arbitrary: v) auto

lemma fold_first_Some: "fold (\<lambda>s v. Some (case v of None \<Rightarrow> s | Some x \<Rightarrow> x)) ss (Some x) = Some x"
  by (induction ss) auto

lemma fold_first:
  "fold (\<lambda>s v. Some (case v of None \<Rightarrow> s | Some x \<Rightarrow> x)) ss None = (if ss = [] then None else Some (hd ss))"
  by (cases ss) (simp_all add: fold_first_Some)

lemma fold_count_Some: "fold (\<lambda>s v. Some (f s (case v of None \<Rightarrow> d | Some x \<Rightarrow> x))) ss (Some x) = Some (fold f ss x)"
  by (induction ss arbitrary: x) auto

lemma fold_count:
  "fold (\<lambda>s v. Some (f s (case v of None \<Rightarrow> d | Some x \<Rightarrow> x))) ss None =
     (if ss = [] then None else Some (fold f ss d))"
  by (cases ss) (simp_all add: fold_count_Some)

section \<open>What each record contributes\<close>

definition strings_under :: "u64 \<Rightarrow> hprof_record \<Rightarrow> string list" where
  "strings_under k r = (case r of Utf8String i s \<Rightarrow> if i = k then [s] else [] | _ \<Rightarrow> [])"

definition frames_under :: "u64 \<Rightarrow> hprof_record \<Rightarrow> stack_frame_data list" where
  "frames_under k r = (case r of StackFrame d \<Rightarrow> if sf_stack_frame_id d = k then [d] else [] | _ \<Rightarrow> [])"

definition traces_under :: "u32 \<Rightarrow> hprof_record \<Rightarrow> stack_trace_data list" where
  "traces_under k r = (case r of StackTrace d \<Rightarrow> if st_serial_number d = k then [d] else [] | _ \<Rightarrow> [])"

definition loads_under :: "(load_class_data \<Rightarrow> 'k) \<Rightarrow> 'k \<Rightarrow> hprof_record \<Rightarrow> load_class_data list" where
  "loads_under key k r = (case r of LoadClass d \<Rightarrow> if key d = k then [d] else [] | _ \<Rightarrow> [])"

definition classes_under :: "u64 \<Rightarrow> hprof_record \<Rightarrow> class_info list" where
  "classes_under k r = (case r of GcSegment (ClassDump c) \<Rightarrow>
       if cdf_class_object_id c = k
       then [class_info_new (cdf_super_class_object_id c) (map fi_field_type (cdf_instance_fields c))] else []
     | _ \<Rightarrow> [])"

definition instances_under :: "u64 \<Rightarrow> hprof_record \<Rightarrow> unit list" where
  "instances_under k r = (case r of GcSegment (InstanceDump _ _ c _) \<Rightarrow> if c = k then [()] else [] | _ \<Rightarrow> [])"

text \<open>Array sizes as whole numbers: the header and the elements, rounded up to a multiple of 8.\<close>

definition array_bytes :: "u32 \<Rightarrow> nat \<Rightarrow> u32 \<Rightarrow> nat" where
  "array_bytes id_size element n = round_up 8 ((if id_size = 4 then 12 else 16) + element * unat n)"

definition object_arrays_under :: "u32 \<Rightarrow> u64 \<Rightarrow> hprof_record \<Rightarrow> u64 list" where
  "object_arrays_under id_size k r = (case r of GcSegment (ObjectArrayDump _ _ n c) \<Rightarrow>
       if c = k then [word_of_nat (array_bytes id_size (unat id_size) n)] else []
     | _ \<Rightarrow> [])"

definition primitive_arrays_under :: "u32 \<Rightarrow> field_type \<Rightarrow> hprof_record \<Rightarrow> u64 list" where
  "primitive_arrays_under id_size k r = (case r of
       GcSegment (PrimitiveArrayDump _ _ n t) \<Rightarrow>
         if t = k then [word_of_nat (array_bytes id_size (unat (field_size t id_size)) n)] else []
     | GcSegment (PrimitiveArrayNoDataDump _ _ _ t) \<Rightarrow> if t = k then [0] else []
     | _ \<Rightarrow> [])"

section \<open>Array sizes\<close>

lemma unat_ucast_32_64: "unat (ucast (n :: u32) :: u64) = unat n"
proof -
  have "unat n < 2 ^ 32" using unsigned_less [of n] by simp
  then show ?thesis by (simp add: unsigned_ucast_eq take_bit_nat_eq_self)
qed

lemma next_multiple_of_array:
  fixes header element :: u64 and n :: u32
  assumes "unat header \<le> 16" and "unat element \<le> 8"
  shows "next_multiple_of (header + element * ucast n) (ucast OBJECT_ALIGN) =
     Inr (word_of_nat (round_up 8 (unat header + unat element * unat n)))"
proof -
  let ?a = "header + element * ucast n"
  have "unat n < 2 ^ 32" using unsigned_less [of n] by simp
  then have "unat element * unat n \<le> 8 * 2 ^ 32" using assms(2) by (intro mult_le_mono) simp_all
  then have a: "unat ?a = unat header + unat element * unat n" and small: "unat ?a < 2 ^ 40"
    using assms(1) by (simp_all add: unat_word_ariths unat_ucast_32_64)
  have o: "ucast OBJECT_ALIGN = (8 :: u64)" by (simp add: OBJECT_ALIGN_def)
  have "round_up 8 (unat ?a) < unat ?a + 8" by (rule round_up_less) simp
  then have "round_up (unat (8 :: u64)) (unat ?a) < 2 ^ LENGTH(64)" using small by simp
  from next_multiple_of_correct [OF _ this] obtain c where
    c: "next_multiple_of ?a 8 = Inr c" "unat c = round_up 8 (unat ?a)" by auto
  have "c = word_of_nat (unat c)" by simp
  then show ?thesis using c(1) unfolding o c(2) a by simp
qed

lemma object_array_size_value:
  assumes "z = 4 \<or> z = 8"
  shows "object_array_size z n = Inr (word_of_nat (array_bytes z (unat z) n))"
  using assms next_multiple_of_array [of 12 "ucast z" n] next_multiple_of_array [of 16 "ucast z" n]
  by (auto simp: object_array_size_def array_header_size_def array_bytes_def unat_ucast_32_64)

lemma primitive_array_size_value:
  assumes "z = 4 \<or> z = 8" and "t \<noteq> FT_Object"
  shows "primitive_array_size z t n = Inr (word_of_nat (array_bytes z (unat (field_size t z)) n))"
proof -
  obtain b where b: "primitive_byte_size t = Inr b" "unat b = unat (field_size t z)" "unat b \<le> 8"
    using assms(2) by (cases t) auto
  with assms(1) next_multiple_of_array [of 12 b n] next_multiple_of_array [of 16 b n] show ?thesis
    by (auto simp: primitive_array_size_def array_header_size_def array_bytes_def)
qed

lemma primitive_array_size_object: "primitive_array_size z FT_Object n \<noteq> Inr s"
  by (simp add: primitive_array_size_def try_then_Inr)

section \<open>The maps as views\<close>

lemma gc_map_views:
  assumes "record_gc_record self g = Inr self'" and z: "rr_id_size self = z" "z = 4 \<or> z = 8"
  shows "hm_get (rr_classes_single_instance_size_by_id self') c =
      entry_upd (classes_under c) (\<lambda>s v. case v of None \<Rightarrow> s | Some x \<Rightarrow> x) (GcSegment g)
        (hm_get (rr_classes_single_instance_size_by_id self) c)"
    and "hm_get (rr_classes_all_instance_total_size_by_id self') c =
      entry_upd (instances_under c) (\<lambda>_ v. add_instance (case v of None \<Rightarrow> class_instance_counter_empty | Some x \<Rightarrow> x))
        (GcSegment g) (hm_get (rr_classes_all_instance_total_size_by_id self) c)"
    and "hm_get (rr_object_array_counters self') c =
      entry_upd (object_arrays_under z c) (\<lambda>s v. add_array s (case v of None \<Rightarrow> array_counter_empty | Some x \<Rightarrow> x))
        (GcSegment g) (hm_get (rr_object_array_counters self) c)"
    and "hm_get (rr_primitive_array_counters self') t =
      entry_upd (primitive_arrays_under z t) (\<lambda>s v. add_array s (case v of None \<Rightarrow> array_counter_empty | Some x \<Rightarrow> x))
        (GcSegment g) (hm_get (rr_primitive_array_counters self) t)"
proof -
  note defs = entry_upd_def try_then_Inr hm_get_entry_update
  show "hm_get (rr_classes_single_instance_size_by_id self') c =
      entry_upd (classes_under c) (\<lambda>s v. case v of None \<Rightarrow> s | Some x \<Rightarrow> x) (GcSegment g)
        (hm_get (rr_classes_single_instance_size_by_id self) c)"
    using assms(1) by (cases g) (auto simp: defs classes_under_def)
  show "hm_get (rr_classes_all_instance_total_size_by_id self') c =
      entry_upd (instances_under c) (\<lambda>_ v. add_instance (case v of None \<Rightarrow> class_instance_counter_empty | Some x \<Rightarrow> x))
        (GcSegment g) (hm_get (rr_classes_all_instance_total_size_by_id self) c)"
    using assms(1) by (cases g) (auto simp: defs instances_under_def)
  show "hm_get (rr_object_array_counters self') c =
      entry_upd (object_arrays_under z c) (\<lambda>s v. add_array s (case v of None \<Rightarrow> array_counter_empty | Some x \<Rightarrow> x))
        (GcSegment g) (hm_get (rr_object_array_counters self) c)"
    using assms(1) by (cases g) (auto simp: defs object_arrays_under_def z(1) object_array_size_value [OF z(2)])
  show "hm_get (rr_primitive_array_counters self') t =
      entry_upd (primitive_arrays_under z t) (\<lambda>s v. add_array s (case v of None \<Rightarrow> array_counter_empty | Some x \<Rightarrow> x))
        (GcSegment g) (hm_get (rr_primitive_array_counters self) t)"
  proof (cases g)
    case (PrimitiveArrayDump a n m u)
    with assms(1) primitive_array_size_object have "u \<noteq> FT_Object" by (auto simp: try_then_Inr)
    with PrimitiveArrayDump assms(1) show ?thesis
      by (auto simp: defs primitive_arrays_under_def z(1) primitive_array_size_value [OF z(2)])
  qed (use assms(1) in \<open>auto simp: defs primitive_arrays_under_def\<close>)
qed

text \<open>\<open>Vec::get\<close>, and the class data found through an index map.\<close>

definition vec_get :: "'a list \<Rightarrow> usize \<Rightarrow> 'a option" where
  "vec_get xs i = (if i < length xs then Some (xs ! i) else None)"

definition class_through :: "load_class_data list \<Rightarrow> ('k, usize) hashmap \<Rightarrow> 'k \<Rightarrow> load_class_data option" where
  "class_through cs m k = Option.bind (hm_get m k) (vec_get cs)"

lemma class_through_add:
  assumes "class_index_ok cs key m"
  shows "class_through (cs @ [d]) (hm_insert (key d) (length cs) m) k =
     (if k = key d then Some d else class_through cs m k)"
proof (cases "hm_get m k")
  case (Some i)
  with assms have "i < length cs" by (simp add: class_index_ok_def)
  with Some show ?thesis by (simp add: class_through_def vec_get_def nth_append)
qed (simp add: class_through_def vec_get_def)

definition sized_inv :: "u32 \<Rightarrow> result_recorder \<Rightarrow> bool" where
  "sized_inv z self \<longleftrightarrow> recorder_inv z self \<and> (z = 4 \<or> z = 8)"

lemma sized_inv_step: "sized_inv z self \<Longrightarrow> record_record self r = Inr self' \<Longrightarrow> sized_inv z self'"
  by (auto simp: sized_inv_def intro: recorder_inv_step)

lemma entry_upd_simps [simp]:
  "sel r = [] \<Longrightarrow> entry_upd sel g r v = v" "sel r = [s] \<Longrightarrow> entry_upd sel g r v = Some (g s v)"
  by (simp_all add: entry_upd_def)

text \<open>A part of the state that only sub-records change.\<close>

locale gc_view =
  fixes z :: u32
    and view :: "result_recorder \<Rightarrow> 'a"
    and upd :: "hprof_record \<Rightarrow> 'a \<Rightarrow> 'a"
  assumes gc: "record_gc_record s g = Inr s' \<Longrightarrow> rr_id_size s = z \<Longrightarrow> z = 4 \<or> z = 8 \<Longrightarrow>
      view s' = upd (GcSegment g) (view s)"
    and frame: "view (s\<lparr>rr_heap_dump_segments_all_sub_records := n\<rparr>) = view s"
    and top: "\<forall>g. r \<noteq> GcSegment g \<Longrightarrow> record_record s r = Inr s' \<Longrightarrow>
      view s' = view s \<and> upd r (view s) = view s"

sublocale gc_view \<subseteq> recorded_view "sized_inv z" view upd
proof unfold_locales
  fix s r s'
  assume inv: "sized_inv z s" and r: "record_record s r = Inr s'"
  show "sized_inv z s'" using inv r by (rule sized_inv_step)
  show "view s' = upd r (view s)"
  proof (cases "\<exists>g. r = GcSegment g")
    case True
    then obtain g where g: "r = GcSegment g" by blast
    let ?s = "s\<lparr>rr_heap_dump_segments_all_sub_records := rr_heap_dump_segments_all_sub_records s + 1\<rparr>"
    have "record_gc_record ?s g = Inr s'" "rr_id_size ?s = z" "z = 4 \<or> z = 8"
      using inv r g by (simp_all add: sized_inv_def recorder_inv_def)
    then have "view s' = upd (GcSegment g) (view ?s)" by (rule gc)
    then show ?thesis by (simp only: frame g)
  next
    case False
    then show ?thesis using top [OF _ r] by simp
  qed
qed

lemma top_record_maps:
  assumes "\<forall>g. r \<noteq> GcSegment g" and "record_record s r = Inr s'"
  shows "rr_classes_single_instance_size_by_id s' = rr_classes_single_instance_size_by_id s"
    "rr_classes_all_instance_total_size_by_id s' = rr_classes_all_instance_total_size_by_id s"
    "rr_object_array_counters s' = rr_object_array_counters s"
    "rr_primitive_array_counters s' = rr_primitive_array_counters s"
  using assms by (cases r; auto simp: Let_def)+

interpretation strings_view: recorded_view "recorder_inv z" "\<lambda>self. hm_get (rr_utf8_strings_by_id self) k"
    "entry_upd (strings_under k) (\<lambda>s _. s)" for z k
proof unfold_locales
  fix self r self'
  assume "record_record self r = Inr self'"
  then show "hm_get (rr_utf8_strings_by_id self') k =
      entry_upd (strings_under k) (\<lambda>s _. s) r (hm_get (rr_utf8_strings_by_id self) k)"
    by (cases r) (auto simp: strings_under_def Let_def record_gc_counters)
qed (rule recorder_inv_step)

interpretation frames_view: recorded_view "recorder_inv z" "\<lambda>self. hm_get (rr_stack_frame_by_id self) k"
    "entry_upd (frames_under k) (\<lambda>s _. s)" for z k
proof unfold_locales
  fix self r self'
  assume "record_record self r = Inr self'"
  then show "hm_get (rr_stack_frame_by_id self') k =
      entry_upd (frames_under k) (\<lambda>s _. s) r (hm_get (rr_stack_frame_by_id self) k)"
    by (cases r) (auto simp: frames_under_def Let_def record_gc_counters)
qed (rule recorder_inv_step)

interpretation traces_view: recorded_view "recorder_inv z"
    "\<lambda>self. hm_get (rr_stack_trace_by_serial_number self) k" "entry_upd (traces_under k) (\<lambda>s _. s)" for z k
proof unfold_locales
  fix self r self'
  assume "record_record self r = Inr self'"
  then show "hm_get (rr_stack_trace_by_serial_number self') k =
      entry_upd (traces_under k) (\<lambda>s _. s) r (hm_get (rr_stack_trace_by_serial_number self) k)"
    by (cases r) (auto simp: traces_under_def Let_def record_gc_counters)
qed (rule recorder_inv_step)

interpretation loads_view: recorded_view "recorder_inv z"
    "\<lambda>self. class_through (rr_class_data self) (rr_class_data_by_id self) k"
    "entry_upd (loads_under lc_class_object_id k) (\<lambda>s _. s)" for z k
proof unfold_locales
  fix self r self'
  assume "recorder_inv z self" and "record_record self r = Inr self'"
  then show "class_through (rr_class_data self') (rr_class_data_by_id self') k =
      entry_upd (loads_under lc_class_object_id k) (\<lambda>s _. s) r
        (class_through (rr_class_data self) (rr_class_data_by_id self) k)"
    by (cases r) (auto simp: loads_under_def Let_def record_gc_counters recorder_inv_def class_through_add)
qed (rule recorder_inv_step)

interpretation serials_view: recorded_view "recorder_inv z"
    "\<lambda>self. class_through (rr_class_data self) (rr_class_data_by_serial_number self) k"
    "entry_upd (loads_under lc_serial_number k) (\<lambda>s _. s)" for z k
proof unfold_locales
  fix self r self'
  assume "recorder_inv z self" and "record_record self r = Inr self'"
  then show "class_through (rr_class_data self') (rr_class_data_by_serial_number self') k =
      entry_upd (loads_under lc_serial_number k) (\<lambda>s _. s) r
        (class_through (rr_class_data self) (rr_class_data_by_serial_number self) k)"
    by (cases r) (auto simp: loads_under_def Let_def record_gc_counters recorder_inv_def class_through_add)
qed (rule recorder_inv_step)

interpretation classes_view: gc_view z "\<lambda>self. hm_get (rr_classes_single_instance_size_by_id self) k"
    "entry_upd (classes_under k) (\<lambda>s v. case v of None \<Rightarrow> s | Some x \<Rightarrow> x)" for z k
  by unfold_locales (simp_all add: gc_map_views top_record_maps, auto simp: classes_under_def Let_def split: hprof_record.splits)

interpretation instances_view: gc_view z "\<lambda>self. hm_get (rr_classes_all_instance_total_size_by_id self) k"
    "entry_upd (instances_under k)
      (\<lambda>_ v. add_instance (case v of None \<Rightarrow> class_instance_counter_empty | Some x \<Rightarrow> x))" for z k
  by unfold_locales (simp_all add: gc_map_views top_record_maps, auto simp: instances_under_def Let_def split: hprof_record.splits)

interpretation object_arrays_view: gc_view z "\<lambda>self. hm_get (rr_object_array_counters self) k"
    "entry_upd (object_arrays_under z k)
      (\<lambda>s v. add_array s (case v of None \<Rightarrow> array_counter_empty | Some x \<Rightarrow> x))" for z k
  by unfold_locales (simp_all add: gc_map_views top_record_maps, auto simp: object_arrays_under_def Let_def split: hprof_record.splits)

interpretation primitive_arrays_view: gc_view z "\<lambda>self. hm_get (rr_primitive_array_counters self) t"
    "entry_upd (primitive_arrays_under z t)
      (\<lambda>s v. add_array s (case v of None \<Rightarrow> array_counter_empty | Some x \<Rightarrow> x))" for z t
  by unfold_locales (simp_all add: gc_map_views top_record_maps, auto simp: primitive_arrays_under_def Let_def split: hprof_record.splits)

section \<open>Statistics\<close>

lemma fold_add_instance:
  "fold (\<lambda>_ c. add_instance c) ss c = c\<lparr>number_of_instances := number_of_instances c + word_of_nat (length ss)\<rparr>"
  by (induction ss arbitrary: c) (simp_all add: add_instance_def add_ac)

lemma add_array_fields:
  "number_of_arrays (add_array s c) = number_of_arrays c + 1"
  "max_size_bytes_seen (add_array s c) = max (max_size_bytes_seen c) s"
  "total_size_bytes (add_array s c) = total_size_bytes c + s"
  by (auto simp: add_array_def Let_def max_def)

lemma fold_add_array:
  "number_of_arrays (fold add_array ss c) = number_of_arrays c + word_of_nat (length ss)"
  "max_size_bytes_seen (fold add_array ss c) = fold max ss (max_size_bytes_seen c)"
  "total_size_bytes (fold add_array ss c) = total_size_bytes c + sum_list ss"
  by (induction ss arbitrary: c) (simp_all add: add_array_fields add_ac max.commute)

lemma sized_inv_new: "z = 4 \<or> z = 8 \<Longrightarrow> sized_inv z (result_recorder_new z l t)"
  by (simp add: sized_inv_def recorder_inv_new)

lemma new_maps [simp]:
  "rr_utf8_strings_by_id (result_recorder_new z l t) = hm_empty"
  "rr_stack_frame_by_id (result_recorder_new z l t) = hm_empty"
  "rr_stack_trace_by_serial_number (result_recorder_new z l t) = hm_empty"
  "rr_class_data_by_id (result_recorder_new z l t) = hm_empty"
  "rr_class_data_by_serial_number (result_recorder_new z l t) = hm_empty"
  "rr_classes_single_instance_size_by_id (result_recorder_new z l t) = hm_empty"
  "rr_classes_all_instance_total_size_by_id (result_recorder_new z l t) = hm_empty"
  "rr_object_array_counters (result_recorder_new z l t) = hm_empty"
  "rr_primitive_array_counters (result_recorder_new z l t) = hm_empty"
  "class_through cs hm_empty k = None"
  by (simp_all add: result_recorder_new_def class_through_def)

definition array_stats :: "u64 list \<Rightarrow> array_counter option" where
  "array_stats sizes = (if sizes = [] then None else
     Some \<lparr>number_of_arrays = word_of_nat (length sizes), max_size_bytes_seen = Max (set sizes),
       total_size_bytes = sum_list sizes\<rparr>)"

text \<open>The last and the first contribution.\<close>

definition last_of :: "'s list \<Rightarrow> 's option" where
  "last_of ss = (if ss = [] then None else Some (last ss))"

definition first_of :: "'s list \<Rightarrow> 's option" where
  "first_of ss = (if ss = [] then None else Some (hd ss))"

lemma views_last:
  "fold (entry_upd sel (\<lambda>s _. s)) rs None = last_of (contributions sel rs)"
  by (simp add: fold_entry_upd fold_last last_of_def)

lemma views_first:
  "fold (entry_upd sel (\<lambda>s v. case v of None \<Rightarrow> s | Some x \<Rightarrow> x)) rs None = first_of (contributions sel rs)"
  by (simp add: fold_entry_upd fold_first first_of_def)

lemma views_count:
  "fold (entry_upd sel (\<lambda>s v. f s (case v of None \<Rightarrow> d | Some x \<Rightarrow> x))) rs None =
     (if contributions sel rs = [] then None else Some (fold f (contributions sel rs) d))"
  by (simp add: fold_entry_upd fold_count)

lemma fold_max_Max: "fold max ss (m :: u64) = Max (insert m (set ss))"
proof (induction ss arbitrary: m)
  case (Cons s ss)
  have "Max (insert (max s m) (set ss)) = Max (insert m (insert s (set ss)))"
    by (cases "ss = []") (simp_all add: max.commute max.left_commute)
  with Cons show ?case by simp
qed simp

lemma array_stats_fold:
  "(if ss = [] then None else Some (fold add_array ss array_counter_empty)) = array_stats ss"
proof (cases "ss = []")
  case False
  then have "Max (insert (0 :: u64) (set ss)) = Max (set ss)" by simp
  with False show ?thesis
    by (simp add: array_stats_def array_counter.equality fold_add_array fold_max_Max array_counter_empty_def)
qed (simp add: array_stats_def)

text \<open>The maps after a sequence of records.\<close>

lemma last_recorded:
  assumes "record_records (result_recorder_new z l t) rs = Inr self"
  shows "hm_get (rr_utf8_strings_by_id self) i = last_of (contributions (strings_under i) rs) \<and>
    hm_get (rr_stack_frame_by_id self) i = last_of (contributions (frames_under i) rs) \<and>
    hm_get (rr_stack_trace_by_serial_number self) n = last_of (contributions (traces_under n) rs) \<and>
    class_through (rr_class_data self) (rr_class_data_by_id self) i =
      last_of (contributions (loads_under lc_class_object_id i) rs) \<and>
    class_through (rr_class_data self) (rr_class_data_by_serial_number self) n =
      last_of (contributions (loads_under lc_serial_number n) rs)"
  using strings_view.view_records [OF recorder_inv_new assms, of i]
    frames_view.view_records [OF recorder_inv_new assms, of i]
    traces_view.view_records [OF recorder_inv_new assms, of n]
    loads_view.view_records [OF recorder_inv_new assms, of i]
    serials_view.view_records [OF recorder_inv_new assms, of n]
  by (simp add: views_last)

text \<open>Instances are counted per class, and the first definition of a class is the one
  kept. A class has an instance counter exactly when the dump has an instance of it, and the counter
  is the number of its instances, modulo \<open>2\<^sup>6\<^sup>4\<close>.\<close>

lemma recorder_instances:
  assumes "z = 4 \<or> z = 8" and "record_records (result_recorder_new z l t) rs = Inr self"
  shows "hm_get (rr_classes_all_instance_total_size_by_id self) c =
      (let n = length (contributions (instances_under c) rs)
       in if n = 0 then None else Some \<lparr>number_of_instances = word_of_nat n\<rparr>) \<and>
    hm_get (rr_classes_single_instance_size_by_id self) c = first_of (contributions (classes_under c) rs)"
  using instances_view.view_records [OF sized_inv_new [OF assms(1)] assms(2), of c]
    classes_view.view_records [OF sized_inv_new [OF assms(1)] assms(2), of c]
  by (simp add: views_first views_count [where f = "\<lambda>_. add_instance"] fold_add_instance
      class_instance_counter_empty_def Let_def)

lemma arrays_recorded:
  assumes "z = 4 \<or> z = 8" and "record_records (result_recorder_new z l t) rs = Inr self"
  shows "hm_get (rr_object_array_counters self) c = array_stats (contributions (object_arrays_under z c) rs) \<and>
    hm_get (rr_primitive_array_counters self) ty = array_stats (contributions (primitive_arrays_under z ty) rs)"
  using object_arrays_view.view_records [OF sized_inv_new [OF assms(1)] assms(2), of c]
    primitive_arrays_view.view_records [OF sized_inv_new [OF assms(1)] assms(2), of ty]
  by (simp only: views_count new_maps hm_get_empty array_stats_fold simp_thms)

section \<open>Properties\<close>

text \<open>Property C20: the recorder keeps its invariant. Its maps have one entry per key, and the indices
  kept for class identifiers and class serial numbers always point to a loaded class with that
  identifier or serial number.\<close>

theorem recorder_invariant:
  assumes "record_records (result_recorder_new z l t) rs = Inr self"
  shows "recorder_inv z self"
  by (rule recorder_inv_records [OF recorder_inv_new assms])

theorem recorder_invariant_witness:
  "\<exists>self. record_records (result_recorder_new 4 False 0)
      [LoadClass \<lparr>lc_serial_number = 1, lc_class_object_id = 2, lc_stack_trace_serial_number = 0, lc_class_name_id = 3\<rparr>]
      = Inr self \<and> recorder_inv 4 self"
proof -
  obtain self where "record_records (result_recorder_new 4 False 0)
      [LoadClass \<lparr>lc_serial_number = 1, lc_class_object_id = 2, lc_stack_trace_serial_number = 0, lc_class_name_id = 3\<rparr>]
      = Inr self" by (simp add: Let_def)
  with recorder_invariant [OF this] show ?thesis by blast
qed

text \<open>The last record wins. A string, a stack frame, a stack trace and a loaded class
  looked up by identifier or by serial number are those of the last record that carried the key,
  and absent when no record did.\<close>

lemma recorder_last_wins:
  assumes "record_records (result_recorder_new z l t) rs = Inr self"
  shows "hm_get (rr_utf8_strings_by_id self) i = last_of (contributions (strings_under i) rs) \<and>
    hm_get (rr_stack_frame_by_id self) i = last_of (contributions (frames_under i) rs) \<and>
    hm_get (rr_stack_trace_by_serial_number self) n = last_of (contributions (traces_under n) rs) \<and>
    class_through (rr_class_data self) (rr_class_data_by_id self) i =
      last_of (contributions (loads_under lc_class_object_id i) rs) \<and>
    class_through (rr_class_data self) (rr_class_data_by_serial_number self) n =
      last_of (contributions (loads_under lc_serial_number n) rs)"
  by (rule last_recorded [OF assms])

text \<open>Property C10: arrays are counted and measured per class and per element type. The counter of a
  class or type holds the number of its arrays, the size of the largest and the total size, modulo
  \<open>2\<^sup>6\<^sup>4\<close>; the size of an array is its header and its elements rounded up to the next multiple of
  8, and an array dumped without its contents counts with size 0.\<close>

theorem recorder_arrays:
  assumes "z = 4 \<or> z = 8" and "record_records (result_recorder_new z l t) rs = Inr self"
  shows "hm_get (rr_object_array_counters self) c = array_stats (contributions (object_arrays_under z c) rs) \<and>
    hm_get (rr_primitive_array_counters self) ty = array_stats (contributions (primitive_arrays_under z ty) rs)"
  by (rule arrays_recorded [OF assms])

theorem recorder_arrays_witness:
  "\<exists>self. record_records (result_recorder_new 4 False 0)
      [GcSegment (ObjectArrayDump 1 0 3 7), GcSegment (ObjectArrayDump 2 0 1 7)] = Inr self \<and>
     hm_get (rr_object_array_counters self) 7 =
       Some \<lparr>number_of_arrays = 2, max_size_bytes_seen = 24, total_size_bytes = 40\<rparr>"
proof -
  have z: "4 = (4 :: u32) \<or> 4 = (8 :: u32)" by simp
  obtain self where self: "record_records (result_recorder_new 4 False 0)
      [GcSegment (ObjectArrayDump 1 0 3 7), GcSegment (ObjectArrayDump 2 0 1 7)] = Inr self"
    by (simp add: object_array_size_value [OF z] result_recorder_new_def)
  from recorder_arrays [OF z self, of 7] self show ?thesis
    by (auto simp: contributions_def object_arrays_under_def array_bytes_def round_up_def array_stats_def)
qed

end
