(* ===== verification/Parsed_Records.thy ===== *)
theory Parsed_Records
  imports Record_Stream_Parser Recorder_Maps
begin

text \<open>
  The interface between the parser thread and the recorder: what the recorder relies on so as not to
  panic (\<open>recordable\<close>), and that every record the parser sends has it. The parser refuses a
  primitive array of objects while it skips its contents, which is what the recorder's size
  computation needs.
\<close>

section \<open>What the recorder accepts\<close>

definition recordable :: "hprof_record \<Rightarrow> bool" where
  "recordable r = (case r of GcSegment (PrimitiveArrayDump _ _ _ t) \<Rightarrow> t \<noteq> FT_Object | _ \<Rightarrow> True)"

lemma record_gc_record_accepts:
  assumes "rr_id_size self = 4 \<or> rr_id_size self = 8" and "recordable (GcSegment g)"
  shows "\<exists>self'. record_gc_record self g = Inr self'"
  using assms by (cases g) (auto simp: recordable_def object_array_size_value primitive_array_size_value)

lemma record_record_accepts:
  assumes "rr_id_size self = 4 \<or> rr_id_size self = 8" and "recordable r"
  shows "\<exists>self'. record_record self r = Inr self'"
proof (cases r)
  case (GcSegment g)
  with record_gc_record_accepts [of "self\<lparr>rr_heap_dump_segments_all_sub_records := _\<rparr>" g] assms
  show ?thesis by simp
qed (simp_all add: Let_def)

lemma record_records_accepts:
  assumes "rr_id_size self = 4 \<or> rr_id_size self = 8" and "list_all recordable rs"
  shows "\<exists>self'. record_records self rs = Inr self'"
  using assms
proof (induction rs arbitrary: self)
  case (Cons r rs)
  then obtain s where s: "record_record self r = Inr s" using record_record_accepts by fastforce
  with Cons.IH [of s] Cons.prems show ?case by (simp add: record_id_size)
qed simp

section \<open>What the parser yields\<close>

definition yields :: "('a \<Rightarrow> bool) \<Rightarrow> 'a parser \<Rightarrow> bool" where
  "yields P p \<longleftrightarrow> (\<forall>i r x. p i = Ok r x \<longrightarrow> P x)"

lemma yieldsD: "yields P p \<Longrightarrow> p i = Ok r x \<Longrightarrow> P x"
  by (auto simp: yields_def)

lemma yields_map: "(\<And>x. P (f x)) \<Longrightarrow> yields P (map_p p f)"
  by (auto simp: yields_def map_p_def split: iresult.splits)

lemma yields_flat_map: "(\<And>x. yields P (f x)) \<Longrightarrow> yields P (flat_map_p p f)"
  by (auto simp: yields_def flat_map_p_def split: iresult.splits)

lemma yields_panic: "yields P (p_panic e)"
  by (simp add: yields_def p_panic_def)

lemma yields_if: "yields P p \<Longrightarrow> yields P q \<Longrightarrow> yields P (if b then p else q)"
  by simp

lemma yields_skipped: "(t \<noteq> FT_Object \<Longrightarrow> P x) \<Longrightarrow> yields P (map_p (skip_array_value N t n) (\<lambda>_. x))"
  by (cases "t = FT_Object") (auto simp: yields_def map_p_def skip_array_value_def p_panic_def split: iresult.splits)

abbreviation recordable_gc :: "gc_record \<Rightarrow> bool" where
  "recordable_gc g \<equiv> recordable (GcSegment g)"

lemma yields_class_dump: "yields recordable_gc (parse_gc_class_dump N z)"
  unfolding parse_gc_class_dump_def
  by (auto intro!: yields_flat_map yields_map simp: recordable_def split: prod.splits)

lemma yields_roots:
  "yields recordable_gc (parse_gc_root_unknown N z)" "yields recordable_gc (parse_gc_root_thread_object N z)"
  "yields recordable_gc (parse_gc_root_jni_global N z)" "yields recordable_gc (parse_gc_root_jni_local N z)"
  "yields recordable_gc (parse_gc_root_java_frame N z)" "yields recordable_gc (parse_gc_root_native_stack N z)"
  "yields recordable_gc (parse_gc_root_sticky_class N z)" "yields recordable_gc (parse_gc_root_thread_block N z)"
  "yields recordable_gc (parse_gc_root_monitor_used N z)" "yields recordable_gc (parse_gc_root_interned_string N z)"
  "yields recordable_gc (parse_gc_root_finalizing N z)" "yields recordable_gc (parse_gc_root_debugger N z)"
  "yields recordable_gc (parse_gc_root_reference_cleanup N z)" "yields recordable_gc (parse_gc_root_vm_internal N z)"
  "yields recordable_gc (parse_gc_root_jni_monitor N z)" "yields recordable_gc (parse_gc_unreachable N z)"
  "yields recordable_gc (parse_gc_heap_dump_info N z)"
  "yields recordable_gc (parse_gc_primitive_array_nodata_dump N z)"
  unfolding root_parser_defs
  by (auto intro!: yields_flat_map yields_map simp: recordable_def split: prod.splits)

lemma yields_objects:
  "yields recordable_gc (parse_gc_instance_dump N z)" "yields recordable_gc (parse_gc_object_array_dump N z)"
  unfolding object_parser_defs
  by (auto intro!: yields_flat_map yields_map simp: recordable_def split: prod.splits)

lemma yields_primitive_array: "yields recordable_gc (parse_gc_primitive_array_dump N z)"
  unfolding object_parser_defs
  by (auto intro!: yields_flat_map yields_skipped simp: recordable_def split: prod.splits)

lemma yields_gc_record: "yields recordable_gc (parse_gc_record N z)"
  unfolding parse_gc_record_def
  by (intro yields_flat_map yields_if yields_panic yields_class_dump yields_roots yields_objects
      yields_primitive_array)

lemma yields_top:
  "yields (\<lambda>r. \<forall>g. r \<noteq> GcSegment g) (parse_utf8_string N z)" "yields (\<lambda>r. \<forall>g. r \<noteq> GcSegment g) (parse_load_class N z)"
  "yields (\<lambda>r. \<forall>g. r \<noteq> GcSegment g) (parse_unload_class N)" "yields (\<lambda>r. \<forall>g. r \<noteq> GcSegment g) (parse_stack_frame N z)"
  "yields (\<lambda>r. \<forall>g. r \<noteq> GcSegment g) (parse_stack_trace N z)" "yields (\<lambda>r. \<forall>g. r \<noteq> GcSegment g) (parse_allocation_sites N)"
  "yields (\<lambda>r. \<forall>g. r \<noteq> GcSegment g) (parse_heap_summary N)" "yields (\<lambda>r. \<forall>g. r \<noteq> GcSegment g) (parse_start_thread N z)"
  "yields (\<lambda>r. \<forall>g. r \<noteq> GcSegment g) (parse_end_thread N)" "yields (\<lambda>r. \<forall>g. r \<noteq> GcSegment g) (parse_control_settings N)"
  "yields (\<lambda>r. \<forall>g. r \<noteq> GcSegment g) (parse_cpu_samples N)" "yields (\<lambda>r. \<forall>g. r \<noteq> GcSegment g) (parse_heap_dump_end N)"
  unfolding top_parser_defs preceded_p_def
  by (auto intro!: yields_flat_map yields_map yields_panic yields_if simp: Let_def split: prod.splits)

lemma parse_hprof_record_recordable:
  assumes "parse_hprof_record N self i = (self', Ok r x)"
  shows "recordable x"
proof (cases "hp_heap_dump_remaining_len self = 0")
  case True
  obtain tag r1 where u8: "parse_u8 N i = Ok r1 tag"
    using assms True by (cases "parse_u8 N i") (simp_all add: parse_hprof_record_def)
  have "\<forall>g. x \<noteq> GcSegment g"
    using assms True u8
    by (auto simp: parse_hprof_record_def Let_def split: if_splits iresult.splits
        dest: yields_top [THEN yieldsD])
  then show ?thesis by (auto simp: recordable_def split: hprof_record.split)
next
  case False
  with assms show ?thesis
    by (auto simp: parse_hprof_record_segment split: iresult.splits dest: yields_gc_record [THEN yieldsD])
qed

lemma parses_recordable: "parses (parse_hprof_record N) s i xs out \<Longrightarrow> list_all recordable xs"
  by (induction rule: parses.induct) (auto dest: parse_hprof_record_recordable)

section \<open>Recording what is parsed\<close>

text \<open>Property C38: the recorder never panics on what the parser sends. With an identifier size of 4 or
  8, whatever bytes the parser thread receives, the records it sends can all be recorded.\<close>

theorem parsed_records_are_recorded:
  assumes "nom_streaming N" and "processed_len + length (concat bs) \<le> file_len" and "z = 4 \<or> z = 8"
    and "stream_outcome N (stream_parser_new dbg z file_len processed_len []) bs = Some (Inr (rs, rest))"
  shows "\<exists>self. record_records (result_recorder_new z l t) rs = Inr self"
proof -
  obtain ys out where p: "parses (parse_hprof_record N) (hprof_record_parser_new dbg z) (concat bs) ys out"
    using nom_streaming.whole_parse_total [OF assms(1)] by blast
  from nom_streaming.stream_outcome_correct [OF assms(1,2) p] assms(4) have "rs = ys"
    by (cases out) simp_all
  with parses_recordable [OF p] assms(3) show ?thesis
    by (intro record_records_accepts) (simp_all add: result_recorder_new_def)
qed

theorem parsed_records_are_recorded_witness:
  "\<exists>self. record_records (result_recorder_new 4 True 7) [HeapDumpStart 16, GcSegment (PrimitiveArrayDump 1 0 2 FT_Byte)] = Inr self"
proof -
  let ?p = "hprof_record_parser_new False 4"
  let ?array = "[0x23, 0, 0, 0, 1, 0, 0, 0, 0, 0, 0, 0, 2, 8, 9, 9] :: bytes"
  let ?bs = "[[0x1C, 0, 0, 0, 0, 0, 0], [0, 16] @ ?array]"
  have "parse_hprof_record nom_ref ?p (concat ?bs) =
      (?p\<lparr>hp_heap_dump_remaining_len := 16\<rparr>, Ok ?array (HeapDumpStart 16))"
    "parse_hprof_record nom_ref (?p\<lparr>hp_heap_dump_remaining_len := 16\<rparr>) ?array =
      (?p, Ok [] (GcSegment (PrimitiveArrayDump 1 0 2 FT_Byte)))" by code_simp+
  with ref.parse_hprof_record_Nil [of ?p]
  have "parses (parse_hprof_record nom_ref) ?p (concat ?bs)
      [HeapDumpStart 16, GcSegment (PrimitiveArrayDump 1 0 2 FT_Byte)] (Waiting ?p [])"
    by (blast intro: parses.intros)
  moreover have fits: "31 + length (concat ?bs) \<le> 56" by simp
  ultimately have "stream_outcome nom_ref (stream_parser_new False 4 56 31 []) ?bs =
      Some (Inr ([HeapDumpStart 16, GcSegment (PrimitiveArrayDump 1 0 2 FT_Byte)], []))"
    using ref.stream_outcome_correct [of 31 ?bs 56] by fastforce
  from parsed_records_are_recorded [OF ref.nom_streaming_axioms fits _ this] show ?thesis by simp
qed

end
