(* ===== verification/Instance_Size.thy ===== *)
theory Instance_Size
  imports Recorder_Maps
begin

text \<open>
  The shallow size of an instance, computed along the chain of super classes. The recursion of
  \<open>calculate_instance_size_recursive\<close> has no bound of its own, so it is a partial function whose
  value is \<open>None\<close> when it does not return. It returns exactly for the classes whose chain of super
  classes ends, which it always does when the class definitions of the dump are acyclic; a cycle
  makes it run forever (in the program, until the stack overflows).
\<close>

section \<open>Model\<close>

partial_function (option) calculate_instance_size_recursive ::
  "result_recorder \<Rightarrow> u64 \<Rightarrow> u64 set \<Rightarrow> (panic + u32 \<times> u64 set) option" where
  "calculate_instance_size_recursive self class_id missing_class_ids =
     (case hm_get (rr_classes_single_instance_size_by_id self) class_id of
        None \<Rightarrow>
          Some (try_then (object_header_size (rr_id_size self))
            (\<lambda>size. Inr (size, insert class_id missing_class_ids)))
      | Some class_info \<Rightarrow>
          if ci_super_class_object_id class_info = 0
          then Some (try_then (object_header_size (rr_id_size self)) (\<lambda>size. Inr (size, missing_class_ids)))
          else
            (let fields_size =
                   sum_list (map (\<lambda>t. field_size t (rr_id_size self)) (ci_instance_field_types class_info))
             in Option.bind
                  (calculate_instance_size_recursive self (ci_super_class_object_id class_info) missing_class_ids)
                  (\<lambda>res. Some (try_then res (\<lambda>(super_size, missing_class_ids).
                     try_then (next_multiple_of (fields_size + super_size) (rr_id_size self))
                       (\<lambda>size. Inr (size, missing_class_ids)))))))"

definition calculate_instance_size ::
  "result_recorder \<Rightarrow> u64 \<Rightarrow> u64 set \<Rightarrow> (panic + u64 \<times> u64 set) option" where
  "calculate_instance_size self class_id missing_class_ids =
     map_option (\<lambda>res. try_then res (\<lambda>(size, missing_class_ids).
         try_then (next_multiple_of size OBJECT_ALIGN) (\<lambda>size. Inr (ucast size, missing_class_ids))))
       (calculate_instance_size_recursive self class_id missing_class_ids)"

section \<open>Specification\<close>

text \<open>The chain of super classes ends at a class without a super class or at a class the dump does
  not define.\<close>

inductive chain_ends :: "(u64 \<Rightarrow> class_info option) \<Rightarrow> u64 \<Rightarrow> bool" for m where
  undefined_class: "m c = None \<Longrightarrow> chain_ends m c"
| root_class: "m c = Some ci \<Longrightarrow> ci_super_class_object_id ci = 0 \<Longrightarrow> chain_ends m c"
| sub_class: "m c = Some ci \<Longrightarrow> ci_super_class_object_id ci \<noteq> 0 \<Longrightarrow>
    chain_ends m (ci_super_class_object_id ci) \<Longrightarrow> chain_ends m c"

inductive_cases chain_endsE: "chain_ends m c"

definition header_bytes :: "u32 \<Rightarrow> nat" where
  "header_bytes id_size = (if id_size = 4 then 8 else 16)"

definition fields_bytes :: "u32 \<Rightarrow> class_info \<Rightarrow> nat" where
  "fields_bytes id_size ci = sum_list (map (\<lambda>t. unat (field_size t id_size)) (ci_instance_field_types ci))"

text \<open>The bytes of an instance of a class before the final alignment, and the undefined classes met.\<close>

inductive instance_bytes :: "u32 \<Rightarrow> (u64 \<Rightarrow> class_info option) \<Rightarrow> u64 \<Rightarrow> nat \<Rightarrow> u64 set \<Rightarrow> bool" for z m where
  undefined_bytes: "m c = None \<Longrightarrow> instance_bytes z m c (header_bytes z) {c}"
| root_bytes: "m c = Some ci \<Longrightarrow> ci_super_class_object_id ci = 0 \<Longrightarrow> instance_bytes z m c (header_bytes z) {}"
| sub_bytes: "m c = Some ci \<Longrightarrow> ci_super_class_object_id ci \<noteq> 0 \<Longrightarrow>
    instance_bytes z m (ci_super_class_object_id ci) n ms \<Longrightarrow>
    instance_bytes z m c (round_up (unat z) (fields_bytes z ci + n)) ms"

section \<open>Termination\<close>

lemma recursive_returns:
  assumes "chain_ends (hm_get (rr_classes_single_instance_size_by_id self)) c"
  shows "\<exists>res. calculate_instance_size_recursive self c ms = Some res"
  using assms
proof (induction arbitrary: ms rule: chain_ends.induct)
  case (sub_class c ci)
  obtain res where "calculate_instance_size_recursive self (ci_super_class_object_id ci) ms = Some res"
    using sub_class.IH by blast
  with sub_class.hyps show ?case
    by (simp add: calculate_instance_size_recursive.simps [of self c] Let_def)
qed (simp_all add: calculate_instance_size_recursive.simps)

lemma recursive_ends:
  assumes "calculate_instance_size_recursive self c ms = Some res"
  shows "chain_ends (hm_get (rr_classes_single_instance_size_by_id self)) c"
proof (rule calculate_instance_size_recursive.raw_induct [OF _ assms])
  fix rec_call :: "result_recorder \<Rightarrow> u64 \<Rightarrow> u64 set \<Rightarrow> (panic + u32 \<times> u64 set) option" and self c ms res
  assume IH: "\<And>self c ms res. rec_call self c ms = Some res \<Longrightarrow>
      chain_ends (hm_get (rr_classes_single_instance_size_by_id self)) c"
  assume body: "(case hm_get (rr_classes_single_instance_size_by_id self) c of
        None \<Rightarrow>
          Some (try_then (object_header_size (rr_id_size self)) (\<lambda>size. Inr (size, insert c ms)))
      | Some class_info \<Rightarrow>
          if ci_super_class_object_id class_info = 0
          then Some (try_then (object_header_size (rr_id_size self)) (\<lambda>size. Inr (size, ms)))
          else
            (let fields_size =
                   sum_list (map (\<lambda>t. field_size t (rr_id_size self)) (ci_instance_field_types class_info))
             in Option.bind (rec_call self (ci_super_class_object_id class_info) ms)
                  (\<lambda>res. Some (try_then res (\<lambda>(super_size, missing_class_ids).
                     try_then (next_multiple_of (fields_size + super_size) (rr_id_size self))
                       (\<lambda>size. Inr (size, missing_class_ids))))))) = Some res"
  show "chain_ends (hm_get (rr_classes_single_instance_size_by_id self)) c"
  proof (cases "hm_get (rr_classes_single_instance_size_by_id self) c")
    case None
    then show ?thesis by (rule undefined_class)
  next
    case (Some ci)
    show ?thesis
    proof (cases "ci_super_class_object_id ci = 0")
      case True
      with Some show ?thesis by (rule root_class)
    next
      case False
      with Some IH body show ?thesis
        by (auto intro!: sub_class [of "hm_get (rr_classes_single_instance_size_by_id self)" c ci]
            simp: Let_def bind_eq_Some_conv)
    qed
  qed
qed

lemma recursive_returns_iff:
  "(\<exists>res. calculate_instance_size_recursive self c ms = Some res) \<longleftrightarrow>
   chain_ends (hm_get (rr_classes_single_instance_size_by_id self)) c"
  using recursive_returns recursive_ends by blast

text \<open>The relation from a class to its super class.\<close>

definition super_rel :: "(u64, class_info) hashmap \<Rightarrow> (u64 \<times> u64) set" where
  "super_rel m = {(ci_super_class_object_id ci, c) | c ci. hm_get m c = Some ci}"

lemma finite_super_rel: "finite (super_rel m)"
proof -
  have "super_rel m \<subseteq> (\<lambda>c. (ci_super_class_object_id (the (hm_get m c)), c)) ` dom (hm_get m)"
    by (force simp: super_rel_def)
  moreover have "finite (dom (hm_get m))" by (simp add: hm_get_def [abs_def] finite_dom_map_of)
  ultimately show ?thesis using finite_subset by blast
qed

lemma acyclic_chain_ends:
  assumes "acyclic (super_rel m)"
  shows "chain_ends (hm_get m) c"
proof -
  have "wf (super_rel m)" using finite_super_rel assms by (rule finite_acyclic_wf)
  then show ?thesis
  proof (induction c rule: wf_induct_rule)
    case (less c)
    show ?case
    proof (cases "hm_get m c")
      case (Some ci)
      then have "(ci_super_class_object_id ci, c) \<in> super_rel m" by (auto simp: super_rel_def)
      with less Some show ?thesis by (metis root_class sub_class)
    qed (rule undefined_class)
  qed
qed

section \<open>Sizes\<close>

lemma sum_list_unat:
  fixes ws :: "u32 list"
  assumes "sum_list (map unat ws) < 2 ^ 32"
  shows "unat (sum_list ws) = sum_list (map unat ws)"
  using assms by (induction ws) (simp_all add: unat_word_ariths)

lemma recursive_value:
  assumes "instance_bytes z (hm_get (rr_classes_single_instance_size_by_id self)) c n ms"
    and z: "rr_id_size self = z" "z = 4 \<or> z = 8" and "n < 2 ^ 32"
  shows "calculate_instance_size_recursive self c ms0 = Some (Inr (word_of_nat n, ms0 \<union> ms))"
  using assms(1,4)
proof (induction rule: instance_bytes.induct)
  case (undefined_bytes c)
  with z show ?case
    by (auto simp: calculate_instance_size_recursive.simps [of self c] object_header_size_def header_bytes_def)
next
  case (root_bytes c ci)
  with z show ?case
    by (auto simp: calculate_instance_size_recursive.simps [of self c] object_header_size_def header_bytes_def)
next
  case (sub_bytes c ci n ms)
  let ?f = "sum_list (map (\<lambda>t. field_size t z) (ci_instance_field_types ci))"
  let ?a = "?f + word_of_nat n"
  have le: "fields_bytes z ci + n < 2 ^ 32" using sub_bytes.prems round_up_ge le_less_trans by blast
  then have rec_call: "calculate_instance_size_recursive self (ci_super_class_object_id ci) ms0 =
      Some (Inr (word_of_nat n, ms0 \<union> ms))" using sub_bytes.IH by simp
  have "unat ?f = fields_bytes z ci"
    using sum_list_unat [of "map (\<lambda>t. field_size t z) (ci_instance_field_types ci)"] le
    by (simp add: fields_bytes_def comp_def)
  then have a: "unat ?a = fields_bytes z ci + n" using le by (simp add: unat_word_ariths unat_of_nat)
  have "z \<noteq> 0" using z(2) by auto
  moreover have "round_up (unat z) (unat ?a) < 2 ^ LENGTH(32)" using sub_bytes.prems a by simp
  ultimately obtain w where w: "next_multiple_of ?a z = Inr w" "unat w = round_up (unat z) (unat ?a)"
    using next_multiple_of_correct by blast
  have "w = word_of_nat (unat w)" by simp
  then have "w = word_of_nat (round_up (unat z) (fields_bytes z ci + n))" by (simp only: w(2) a)
  with sub_bytes.hyps rec_call w(1) z(1) show ?case
    by (simp add: calculate_instance_size_recursive.simps [of self c] Let_def)
qed

lemma instance_size_value:
  assumes "instance_bytes z (hm_get (rr_classes_single_instance_size_by_id self)) c n ms"
    and z: "rr_id_size self = z" "z = 4 \<or> z = 8" and "round_up 8 n < 2 ^ 32"
  shows "calculate_instance_size self c ms0 = Some (Inr (word_of_nat (round_up 8 n), ms0 \<union> ms))"
proof -
  have n: "n < 2 ^ 32" using assms(4) round_up_ge [of n 8] by simp
  then have u: "unat (word_of_nat n :: u32) = n" by (simp add: unat_of_nat)
  have "round_up (unat (8 :: u32)) (unat (word_of_nat n :: u32)) < 2 ^ LENGTH(32)" using assms(4) u by simp
  from next_multiple_of_correct [OF _ this] obtain w where
    w: "next_multiple_of (word_of_nat n) (8 :: u32) = Inr w" "unat w = round_up 8 n" using u by auto
  have "unat (ucast w :: u64) = round_up 8 n" using w(2) by (simp add: unat_ucast_32_64)
  moreover have "(ucast w :: u64) = word_of_nat (unat (ucast w :: u64))" by simp
  ultimately have "(ucast w :: u64) = word_of_nat (round_up 8 n)" by metis
  with recursive_value [OF assms(1) z n] w(1) show ?thesis
    by (simp add: calculate_instance_size_def OBJECT_ALIGN_def)
qed

lemma header_bytes_le: "instance_bytes z m c n ms \<Longrightarrow> header_bytes z \<le> n"
  by (induction rule: instance_bytes.induct) (auto intro: order_trans [OF _ round_up_ge])

lemma chain_ends_bytes: "chain_ends m c \<Longrightarrow> \<exists>n ms. instance_bytes z m c n ms"
  by (induction rule: chain_ends.induct) (blast intro: instance_bytes.intros)+

section \<open>Properties\<close>

text \<open>Property C22: the size computation returns exactly for the classes whose chain of super classes
  ends. On a cyclic chain it never returns.\<close>

theorem instance_size_returns_iff:
  "calculate_instance_size self c ms = None \<longleftrightarrow>
   \<not> chain_ends (hm_get (rr_classes_single_instance_size_by_id self)) c"
  using recursive_returns_iff [of self c ms] by (auto simp: calculate_instance_size_def)

text \<open>When no class of the dump is, directly or not, its own super class, the size of
  every class is computed.\<close>

lemma instance_size_acyclic:
  assumes "acyclic (super_rel (rr_classes_single_instance_size_by_id self))"
  shows "\<exists>res. calculate_instance_size self c ms = Some res"
  using recursive_returns [OF acyclic_chain_ends [OF assms]] by (auto simp: calculate_instance_size_def)

text \<open>Property C11: the size of an instance is the size of its header and of the fields of all its
  classes, rounded up to the identifier size at each class and to a multiple of 8 at the end, as
  long as it fits 32 bits; it is never below the header, and exactly the undefined class that ends
  the chain, if there is one, is reported missing.\<close>

theorem instance_size_is_layout:
  assumes "instance_bytes z (hm_get (rr_classes_single_instance_size_by_id self)) c n ms"
    and "rr_id_size self = z" and "z = 4 \<or> z = 8" and "round_up 8 n < 2 ^ 32"
  shows "calculate_instance_size self c missing = Some (Inr (word_of_nat (round_up 8 n), missing \<union> ms)) \<and>
    8 dvd unat (word_of_nat (round_up 8 n) :: u64) \<and> header_bytes z \<le> unat (word_of_nat (round_up 8 n) :: u64)"
proof -
  have "unat (word_of_nat (round_up 8 n) :: u64) = round_up 8 n" using assms(4) by (simp add: unat_of_nat)
  with instance_size_value [OF assms] header_bytes_le [OF assms(1)] round_up_ge [of n 8] show ?thesis
    by (simp add: order_trans)
qed

theorem instance_size_is_layout_witness:
  "calculate_instance_size ((result_recorder_new 4 False 0)\<lparr>rr_classes_single_instance_size_by_id :=
       [(7, class_info_new 3 [FT_Int, FT_Bool]), (3, class_info_new 0 [])]\<rparr>) 7 {} = Some (Inr (16, {}))"
proof -
  let ?m = "[(7 :: u64, class_info_new 3 [FT_Int, FT_Bool]), (3, class_info_new 0 [])]"
  let ?self = "(result_recorder_new 4 False 0)\<lparr>rr_classes_single_instance_size_by_id := ?m\<rparr>"
  have g: "hm_get ?m 7 = Some (class_info_new 3 [FT_Int, FT_Bool])" "hm_get ?m 3 = Some (class_info_new 0 [])"
    by (simp_all add: hm_get_def)
  have "instance_bytes 4 (hm_get ?m) 3 8 {}"
    using root_bytes [of "hm_get ?m" 3, OF g(2), of 4] by (simp add: class_info_new_def header_bytes_def)
  then have "instance_bytes 4 (hm_get ?m) 7 16 {}"
    using sub_bytes [of "hm_get ?m" 7, OF g(1), of 4 8 "{}"]
    by (simp add: class_info_new_def fields_bytes_def round_up_def)
  then have b: "instance_bytes 4 (hm_get (rr_classes_single_instance_size_by_id ?self)) 7 16 {}" by simp
  show ?thesis
    using instance_size_is_layout [OF b, of "{}"] by (simp add: result_recorder_new_def round_up_def)
qed

end
