(* ===== verification/Calendar.thy ===== *)
theory Calendar
  imports Main
begin

text \<open>
  The Gregorian calendar as the specification of date computation: leap years, month lengths and
  the day that follows a day. The arithmetic that \<open>civil_from_days\<close> performs (years that start in
  March, eras of 400 years) is shown to follow the calendar day by day. The two finite facts it
  rests on, the first and last day of each of the 400 years of an era and the month of each day of
  a year, are evaluated.
\<close>

section \<open>The calendar\<close>

definition leap_year :: "int \<Rightarrow> bool" where
  "leap_year y \<longleftrightarrow> 4 dvd y \<and> (\<not> 100 dvd y \<or> 400 dvd y)"

definition days_in_month :: "int \<Rightarrow> int \<Rightarrow> int" where
  "days_in_month y m =
     (if m = 2 then (if leap_year y then 29 else 28)
      else if m = 4 \<or> m = 6 \<or> m = 9 \<or> m = 11 then 30 else 31)"

fun next_day :: "int \<times> int \<times> int \<Rightarrow> int \<times> int \<times> int" where
  "next_day (y, m, d) =
     (if d < days_in_month y m then (y, m, d + 1)
      else if m < 12 then (y, m + 1, 1) else (y + 1, 1, 1))"

section \<open>Years that start in March\<close>

definition year_start :: "int \<Rightarrow> int" where
  "year_start y = 365 * y + y div 4 - y div 100 + y div 400"

definition year_length :: "int \<Rightarrow> int" where
  "year_length y = (if leap_year (y + 1) then 366 else 365)"

definition shifted_days :: "int \<Rightarrow> int" where
  "shifted_days doe = doe - doe div 1460 + doe div 36524 - doe div 146096"

definition month_index :: "int \<Rightarrow> int" where
  "month_index doy = (5 * doy + 2) div 153"

definition month_day :: "int \<Rightarrow> int" where
  "month_day doy = doy - (153 * month_index doy + 2) div 5 + 1"

definition march_date :: "int \<Rightarrow> int \<Rightarrow> int \<times> int \<times> int" where
  "march_date year doy =
     (if month_index doy < 10 then (year, month_index doy + 3, month_day doy)
      else (year + 1, month_index doy - 9, month_day doy))"

definition civil :: "int \<Rightarrow> int \<times> int \<times> int" where
  "civil z = (let doe = z mod 146097; yoe = shifted_days doe div 365
     in march_date (yoe + z div 146097 * 400) (doe - (365 * yoe + yoe div 4 - yoe div 100)))"

lemma int_div_Suc:
  fixes n k :: int
  assumes "0 < k"
  shows "(n + 1) div k = n div k + (if k dvd n + 1 then 1 else 0)"
proof (cases "k dvd n + 1")
  case True
  then obtain q where q: "n + 1 = k * q" by blast
  then have "n = k * (q - 1) + (k - 1)" by (simp add: algebra_simps)
  then have "n div k = q - 1" by (rule int_div_pos_eq) (use assms in auto)
  then show ?thesis using True q assms by simp
next
  case False
  have "n mod k + 1 \<noteq> k"
  proof
    assume "n mod k + 1 = k"
    then have "n + 1 = k * (n div k) + k" using mult_div_mod_eq [of k n] by linarith
    then have "k dvd n + 1" by simp
    with False show False by simp
  qed
  with pos_mod_bound [OF assms, of n] have "n mod k + 1 < k" by linarith
  moreover have "n + 1 = k * (n div k) + (n mod k + 1)" by simp
  ultimately have "(n + 1) div k = n div k" using assms by (intro int_div_pos_eq) auto
  with False show ?thesis by simp
qed

lemma year_start_Suc: "year_start (y + 1) = year_start y + year_length y"
proof -
  have "400 dvd y + 1 \<Longrightarrow> 100 dvd y + 1" "100 dvd y + 1 \<Longrightarrow> 4 dvd y + 1"
    using dvd_trans [of 100 400 "y + 1"] dvd_trans [of 4 100 "y + 1"] by simp_all
  then show ?thesis
    unfolding year_start_def year_length_def leap_year_def
    by (cases "4 dvd y + 1"; cases "100 dvd y + 1"; cases "400 dvd y + 1")
      (simp_all only: int_div_Suc zero_less_numeral, simp_all)
qed

lemma year_start_era: "year_start (y + e * 400) = year_start y + 146097 * e"
proof -
  have "(y + e * 400) div 4 = y div 4 + e * 100" using div_mult_self1 [of 4 y "e * 100"] by simp
  moreover have "(y + e * 400) div 100 = y div 100 + e * 4" using div_mult_self1 [of 100 y "e * 4"] by simp
  ultimately show ?thesis by (simp add: year_start_def)
qed

lemma year_length_era: "year_length (y + e * 400) = year_length y"
proof -
  have "k dvd y + e * 400 + 1 \<longleftrightarrow> k dvd y + 1" if "k dvd 400" for k :: int
    using dvd_add_right_iff [of k "e * 400" "y + 1"] that by (simp add: algebra_simps)
  then show ?thesis by (simp add: year_length_def leap_year_def)
qed

lemma year_length_bounds: "365 \<le> year_length y" "year_length y \<le> 366"
  by (simp_all add: year_length_def)

lemma year_start_mono: "a \<le> b \<Longrightarrow> year_start a \<le> year_start b"
proof (induction b rule: int_ge_induct)
  case (step i)
  then show ?case using year_length_bounds(1) [of i] by (simp add: year_start_Suc)
qed simp

lemma year_start_bounds: "year_start 0 = 0" "year_start 400 = 146097"
  by (simp_all add: year_start_def)

lemma year_start_in_era:
  assumes "0 \<le> y" "y < 400"
  shows "0 \<le> year_start y" "year_start (y + 1) \<le> 146097"
  using year_start_mono [of 0 y] year_start_mono [of "y + 1" 400] assms
  by (simp_all add: year_start_bounds)

lemma year_exists:
  assumes "0 \<le> d" and "d < year_start (int n)"
  shows "\<exists>y doy. 0 \<le> y \<and> y < int n \<and> 0 \<le> doy \<and> doy < year_length y \<and> d = year_start y + doy"
  using assms(2)
proof (induction n)
  case 0
  with assms(1) show ?case by (simp add: year_start_def)
next
  case (Suc n)
  show ?case
  proof (cases "d < year_start (int n)")
    case True
    then obtain y doy where "0 \<le> y \<and> y < int n \<and> 0 \<le> doy \<and> doy < year_length y \<and> d = year_start y + doy"
      using Suc.IH by blast
    then show ?thesis by (intro exI [of _ y] exI [of _ doy]) auto
  next
    case False
    with Suc.prems show ?thesis
      by (intro exI [of _ "int n"] exI [of _ "d - year_start (int n)"])
        (simp add: year_start_Suc [of "int n", simplified add.commute] add.commute)
  qed
qed

section \<open>The year of a day\<close>

definition year_bounds_ok :: "int \<Rightarrow> bool" where
  "year_bounds_ok y \<longleftrightarrow> shifted_days (year_start y) div 365 = y \<and>
     shifted_days (year_start (y + 1) - 1) div 365 = y"

lemma era_checked: "list_all year_bounds_ok [0..399]"
  by code_simp

lemma shifted_days_step:
  assumes "0 \<le> n" "n + 1 < 146097"
  shows "shifted_days n \<le> shifted_days (n + 1)"
proof (cases "n + 1 = 146096")
  case True
  then have "n = 146095" by simp
  then show ?thesis by (simp add: shifted_days_def)
next
  case False
  then have "n div 146096 = (n + 1) div 146096 "
    using assms int_div_Suc [of 146096 n] by (auto dest: zdvd_imp_le)
  then show ?thesis by (simp add: shifted_days_def int_div_Suc [of 1460] int_div_Suc [of 36524])
qed

lemma shifted_days_mono:
  assumes "0 \<le> a" "a \<le> b" "b < 146097"
  shows "shifted_days a \<le> shifted_days b"
  using assms(2,3)
proof (induction b rule: int_ge_induct)
  case (step i)
  then show ?case using shifted_days_step [of i] assms(1) by simp
qed simp

lemma year_of_day:
  assumes "0 \<le> y" "y < 400" "0 \<le> doy" "doy < year_length y"
  shows "shifted_days (year_start y + doy) div 365 = y"
proof -
  let ?d = "year_start y + doy"
  have ok: "year_bounds_ok y" using era_checked assms(1,2) by (simp add: list_all_iff)
  have "shifted_days (year_start y) \<le> shifted_days ?d"
    "shifted_days ?d \<le> shifted_days (year_start (y + 1) - 1)"
    using year_start_in_era [OF assms(1,2)] assms(3,4) year_start_Suc [of y] by (auto intro!: shifted_days_mono)
  then have "shifted_days (year_start y) div 365 \<le> shifted_days ?d div 365"
    "shifted_days ?d div 365 \<le> shifted_days (year_start (y + 1) - 1) div 365"
    by (simp_all add: zdiv_mono1)
  with ok show ?thesis by (simp add: year_bounds_ok_def)
qed

text \<open>The computation yields the March-based year and day of year.\<close>

lemma civil_march_date:
  assumes "0 \<le> y" "0 \<le> doy" "doy < year_length y"
  shows "civil (year_start y + doy) = march_date y doy"
proof -
  let ?e = "y div 400" and ?y = "y mod 400"
  have y: "y = ?y + ?e * 400" by simp
  have r: "0 \<le> ?y" "?y < 400" by simp_all
  have len: "doy < year_length ?y" using assms(3) year_length_era [of ?y ?e] y by simp
  have z: "year_start y + doy = year_start ?y + doy + 146097 * ?e"
    using year_start_era [of ?y ?e] y by simp
  have mono: "0 \<le> year_start ?y" and "year_start ?y + doy < 146097"
    using year_start_in_era [OF r] len year_start_Suc [of ?y] by simp_all
  then have "(year_start y + doy) mod 146097 = year_start ?y + doy" "(year_start y + doy) div 146097 = ?e"
    using mono assms(2) unfolding z by simp_all
  moreover have "shifted_days (year_start ?y + doy) div 365 = ?y"
    using year_of_day [OF r assms(2) len] .
  moreover have "year_start ?y + doy - (365 * ?y + ?y div 4 - ?y div 100) = doy"
    using r by (simp add: year_start_def)
  ultimately show ?thesis using y by (simp only: civil_def Let_def)
qed

section \<open>The month and the day\<close>

definition march_month_length :: "int \<Rightarrow> int" where
  "march_month_length mp =
     (if mp = 11 then 29 else if mp = 1 \<or> mp = 3 \<or> mp = 6 \<or> mp = 8 then 30 else 31)"

definition day_ok :: "int \<Rightarrow> bool" where
  "day_ok doy \<longleftrightarrow> 0 \<le> month_index doy \<and> month_index doy \<le> 11 \<and>
     (if month_day doy < march_month_length (month_index doy)
      then month_index (doy + 1) = month_index doy \<and> month_day (doy + 1) = month_day doy + 1
      else month_index doy < 11 \<and> month_index (doy + 1) = month_index doy + 1 \<and> month_day (doy + 1) = 1) \<and>
     (month_index doy = 11 \<longrightarrow> month_day doy = doy - 336)"

lemma year_checked: "list_all day_ok [0..364]"
  by code_simp

lemma days_in_march_month:
  assumes "march_date y doy = (y', m, d)" "0 \<le> month_index doy" "month_index doy < 11"
  shows "days_in_month y' m = march_month_length (month_index doy)"
  using assms by (auto simp: march_date_def days_in_month_def march_month_length_def split: if_splits)

lemma next_day_in_year:
  assumes "0 \<le> doy" "doy + 1 < year_length y"
  shows "next_day (march_date y doy) = march_date y (doy + 1)"
proof -
  have "doy \<le> 364" using assms(2) year_length_bounds(2) [of y] by simp
  then have ok: "day_ok doy" using year_checked assms(1) by (simp add: list_all_iff)
  have feb: "doy - 336 < days_in_month (y + 1) 2"
    using assms(2) by (simp add: days_in_month_def year_length_def split: if_splits)
  show ?thesis
  proof (cases "month_index doy = 11")
    case True
    then show ?thesis using ok feb \<open>doy \<le> 364\<close>
      by (simp add: day_ok_def march_date_def march_month_length_def)
  next
    case False
    obtain y' m d where md: "march_date y doy = (y', m, d)" by (metis prod_cases3)
    with False ok have "days_in_month y' m = march_month_length (month_index doy)"
      by (intro days_in_march_month) (auto simp: day_ok_def)
    with md False ok show ?thesis
      by (auto simp: day_ok_def march_date_def split: if_splits)
  qed
qed

lemma next_day_new_year:
  "next_day (march_date y (year_length y - 1)) = march_date (y + 1) 0"
  by (simp add: year_length_def march_date_def month_index_def month_day_def days_in_month_def)

lemma civil_next_day:
  assumes "0 \<le> z"
  shows "civil (z + 1) = next_day (civil z)"
proof -
  have "z < year_start (int (nat z + 1))" using assms by (simp add: year_start_def)
  from year_exists [OF assms this] obtain y doy where y: "0 \<le> y" "0 \<le> doy" "doy < year_length y"
    and z: "z = year_start y + doy" by blast
  show ?thesis
  proof (cases "doy + 1 < year_length y")
    case True
    have "civil (z + 1) = march_date y (doy + 1)"
      using civil_march_date [of y "doy + 1"] y True z by (simp add: add.assoc)
    then show ?thesis using next_day_in_year [of doy y] y True z civil_march_date [of y doy] by simp
  next
    case False
    then have last: "doy = year_length y - 1" using y by simp
    have "civil (z + 1) = march_date (y + 1) 0"
      using civil_march_date [of "y + 1" 0] y year_length_bounds(1) [of "y + 1"] z last
        year_start_Suc [of y] by simp
    then show ?thesis using next_day_new_year [of y] y z last civil_march_date [of y doy] by simp
  qed
qed

lemma civil_epoch: "civil 719468 = (1970, 1, 1)"
  by (simp add: civil_def shifted_days_def march_date_def month_index_def month_day_def)

text \<open>Counting days from the epoch.\<close>

lemma civil_days: "civil (int n + 719468) = (next_day ^^ n) (1970, 1, 1)"
proof (induction n)
  case 0
  show ?case using civil_epoch by simp
next
  case (Suc n)
  have "civil (int (Suc n) + 719468) = civil (int n + 719468 + 1)" by (simp add: add_ac)
  with civil_next_day [of "int n + 719468"] Suc show ?case by simp
qed

end
