(* ===== verification/Utils.thy ===== *)
theory Utils
  imports Rust_Strings Calendar "HOL-Library.Code_Target_Nat"
begin

text \<open>
  The formatting helpers of \<^verbatim>\<open>src/utils.rs\<close>: the date of a timestamp and human-readable sizes.
  Dates are computed on 64-bit words, as in the source, and shown to be the dates the Gregorian
  calendar reaches by counting days from the epoch. The sizes go through a double: the conversion
  of a 64-bit integer rounds to 53 significant bits, ties to even, the division by a power of two
  is exact, and the two decimals printed are the exact value rounded, ties to even.
\<close>

section \<open>Model\<close>

definition civil_from_days :: "u64 \<Rightarrow> u64 \<times> u64 \<times> u64" where
  "civil_from_days days =
     (let z = days + 719468;
          era = z div 146097;
          doe = z mod 146097;
          yoe = (doe - doe div 1460 + doe div 36524 - doe div 146096) div 365;
          doy = doe - (365 * yoe + yoe div 4 - yoe div 100);
          mp = (5 * doy + 2) div 153;
          day = doy - (153 * mp + 2) div 5 + 1;
          year = yoe + era * 400
      in if mp < 10 then (year, mp + 3, day) else (year + 1, mp - 9, day))"

text \<open>\<open>{:0w}\<close> of an unsigned integer.\<close>

definition fmt_zero :: "nat \<Rightarrow> nat \<Rightarrow> string" where
  "fmt_zero w n = pad_left CHR ''0'' w (fmt_nat n)"

definition pretty_timestamp_utc :: "u64 \<Rightarrow> string" where
  "pretty_timestamp_utc epoch_millis =
     (let secs = epoch_millis div 1000;
          (year, month, day) = civil_from_days (secs div 86400);
          secs_of_day = secs mod 86400;
          hours = secs_of_day div 3600;
          minutes = (secs_of_day mod 3600) div 60;
          seconds = secs_of_day mod 60
      in fmt_zero 4 (unat year) @ ''-'' @ fmt_zero 2 (unat month) @ ''-'' @ fmt_zero 2 (unat day) @
         '' '' @ fmt_zero 2 (unat hours) @ '':'' @ fmt_zero 2 (unat minutes) @ '':'' @
         fmt_zero 2 (unat seconds) @ '' UTC'')"

text \<open>Doubles that are whole numbers, as their value.\<close>

fun bit_len :: "nat \<Rightarrow> nat" where
  "bit_len n = (if n = 0 then 0 else Suc (bit_len (n div 2)))"

declare bit_len.simps [simp del]

text \<open>\<open>n / d\<close> rounded to a whole number, ties to even.\<close>

definition div_half_even :: "nat \<Rightarrow> nat \<Rightarrow> nat" where
  "div_half_even n d =
     (let q = n div d; r = n mod d
      in if 2 * r > d \<or> (2 * r = d \<and> odd q) then q + 1 else q)"

definition u64_as_f64 :: "u64 \<Rightarrow> nat" where
  "u64_as_f64 len = (let e = bit_len (unat len) - 53 in div_half_even (unat len) (2 ^ e) * 2 ^ e)"

definition KILOBYTE :: nat where
  "KILOBYTE = 1024"

definition MEGABYTE :: nat where
  "MEGABYTE = KILOBYTE * KILOBYTE"

definition GIGABYTE :: nat where
  "GIGABYTE = KILOBYTE * MEGABYTE"

text \<open>\<open>{:.2}\<close> of the double \<open>n / d\<close>, for \<open>d\<close> a power of two.\<close>

definition fmt_hundredths :: "nat \<Rightarrow> string" where
  "fmt_hundredths q = fmt_nat (q div 100) @ ''.'' @ fmt_zero 2 (q mod 100)"

definition fmt_fixed2 :: "nat \<Rightarrow> nat \<Rightarrow> string" where
  "fmt_fixed2 n d = fmt_hundredths (div_half_even (100 * n) d)"

definition pretty_bytes_size :: "u64 \<Rightarrow> string" where
  "pretty_bytes_size len =
     (let float_len = u64_as_f64 len
      in if float_len \<ge> GIGABYTE then fmt_fixed2 float_len GIGABYTE @ ''GiB''
         else if float_len \<ge> MEGABYTE then fmt_fixed2 float_len MEGABYTE @ ''MiB''
         else if float_len \<ge> KILOBYTE then fmt_fixed2 float_len KILOBYTE @ ''KiB''
         else fmt_fixed2 float_len 1 @ ''bytes'')"

text \<open>\<open>unsigned_abs\<close> of a signed 64-bit value is the absolute value, \<open>2\<^sup>6\<^sup>3\<close> included.\<close>

definition unsigned_abs :: "i64 \<Rightarrow> u64" where
  "unsigned_abs delta = (if sint delta < 0 then - delta else delta)"

definition pretty_signed_bytes_size :: "i64 \<Rightarrow> string" where
  "pretty_signed_bytes_size delta =
     (if sint delta < 0 then ''-'' @ pretty_bytes_size (unsigned_abs delta)
      else ''+'' @ pretty_bytes_size (unsigned_abs delta))"

section \<open>Dates\<close>

lemma uint_add_small: "uint a + uint b < 2 ^ 64 \<Longrightarrow> uint (a + b) = uint a + uint (b :: u64)"
  by (simp add: uint_word_ariths)

lemma uint_sub_small:
  assumes "uint b \<le> uint a"
  shows "uint (a - b) = uint a - uint (b :: u64)"
proof -
  have "uint a - uint b \<le> uint a" by simp
  also have "uint a < 2 ^ 64" using uint_lt2p [of a] by simp
  finally have "uint a - uint b < 2 ^ 64" .
  with assms show ?thesis by (simp add: uint_word_ariths)
qed

lemma uint_mult_small: "uint a * uint b < 2 ^ 64 \<Longrightarrow> uint (a * b) = uint a * uint (b :: u64)"
  by (simp add: uint_word_ariths)

lemmas uint_small = uint_add_small uint_sub_small uint_mult_small

text \<open>The word computation from the day of the era on does not wrap.\<close>

lemma int_div_bounds: "0 < k \<Longrightarrow> 0 \<le> (d :: int) \<Longrightarrow> 0 \<le> d div k \<and> k * (d div k) \<le> d"
  by (simp add: pos_imp_zdiv_nonneg_iff) (metis mult_div_mod_eq pos_mod_sign add_le_cancel_left add.right_neutral)

lemma shifted_days_words:
  assumes "uint doe < 146097"
  shows "uint (doe - doe div 1460 + doe div 36524 - doe div 146096) = shifted_days (uint (doe :: u64))"
proof -
  let ?D = "uint doe"
  note b = int_div_bounds [of 1460 ?D] int_div_bounds [of 36524 ?D] int_div_bounds [of 146096 ?D]
  have 1: "uint (doe - doe div 1460) = ?D - ?D div 1460"
    using b by (subst uint_sub_small) (simp_all add: uint_div)
  have 2: "uint (doe - doe div 1460 + doe div 36524) = ?D - ?D div 1460 + ?D div 36524"
    using b 1 assms by (subst uint_add_small) (simp_all add: uint_div)
  show ?thesis
    using b 1 2 assms by (subst uint_sub_small) (simp_all add: uint_div shifted_days_def)
qed

lemma march_date_words:
  fixes y doy :: u64
  assumes "uint doy < 366" and "uint y < 2 ^ 63"
  shows "map_prod uint (map_prod uint uint)
     (let mp = (5 * doy + 2) div 153; day = doy - (153 * mp + 2) div 5 + 1
      in if mp < 10 then (y, mp + 3, day) else (y + 1, mp - 9, day)) =
    march_date (uint y) (uint doy)"
proof -
  define mp where "mp = (5 * doy + 2) div 153"
  define day where "day = doy - (153 * mp + 2) div 5 + 1"
  have "uint (5 * doy + 2) = 5 * uint doy + 2"
    using assms(1) by (subst uint_add_small; subst uint_mult_small) simp_all
  then have mp: "uint mp = month_index (uint doy)" by (simp add: mp_def uint_div month_index_def)
  have m: "0 \<le> month_index (uint doy)" "153 * month_index (uint doy) \<le> 5 * uint doy + 2"
    using int_div_bounds [of 153 "5 * uint doy + 2"] by (simp_all add: month_index_def)
  have 1: "uint (153 * mp + 2) = 153 * month_index (uint doy) + 2"
    using assms(1) m mp by (subst uint_add_small; subst uint_mult_small) simp_all
  have le: "(153 * month_index (uint doy) + 2) div 5 \<le> uint doy"
    using m(2) zdiv_mono1 [of "153 * month_index (uint doy) + 2" "5 * uint doy + 4" 5] by simp
  have 2: "uint (doy - (153 * mp + 2) div 5) = uint doy - (153 * month_index (uint doy) + 2) div 5"
    using le by (subst uint_sub_small) (simp_all add: uint_div 1)
  have day: "uint day = month_day (uint doy)"
    using assms(1) m int_div_bounds [of 5 "153 * month_index (uint doy) + 2"] le
    unfolding day_def by (subst uint_add_small) (simp_all add: 2 month_day_def)
  have lt: "mp < 10 \<longleftrightarrow> month_index (uint doy) < 10" by (simp add: word_less_def mp)
  have "uint (mp + 3) = month_index (uint doy) + 3"
    using assms(1) m by (subst uint_add_small) (simp_all add: mp)
  moreover have "uint (y + 1) = uint y + 1" using assms(2) by (subst uint_add_small) simp_all
  moreover have "\<not> month_index (uint doy) < 10 \<Longrightarrow> uint (mp - 9) = month_index (uint doy) - 9"
    by (subst uint_sub_small) (simp_all add: mp)
  ultimately show ?thesis
    by (simp add: march_date_def day lt mp flip: mp_def day_def)
qed

lemma civil_from_days_words:
  assumes "uint days + 719468 < 2 ^ 64"
  shows "map_prod uint (map_prod uint uint) (civil_from_days days) = civil (uint days + 719468)"
proof -
  define z where "z = days + 719468"
  define doe where "doe = z mod 146097"
  define yoe where "yoe = (doe - doe div 1460 + doe div 36524 - doe div 146096) div 365"
  define doy where "doy = doe - (365 * yoe + yoe div 4 - yoe div 100)"
  have z: "uint z = uint days + 719468" using assms by (simp add: z_def uint_add_small)
  have doe: "uint doe = uint z mod 146097" by (simp add: doe_def uint_mod)
  then have small: "uint doe < 146097" by simp
  then have "0 \<le> uint doe" "uint doe < year_start (int 400)" by (simp_all add: year_start_bounds)
  from year_exists [OF this] obtain y dy where y: "0 \<le> y" "y < 400" "0 \<le> dy" "dy < year_length y"
    and d: "uint doe = year_start y + dy" by auto
  have yoe: "uint yoe = y"
    using shifted_days_words [OF small] year_of_day [OF y] by (simp add: yoe_def uint_div d)
  note b = int_div_bounds [of 4 y] int_div_bounds [of 100 y]
  have 1: "uint (365 * yoe + yoe div 4) = 365 * y + y div 4"
    using y b by (subst uint_add_small; subst uint_mult_small) (simp_all add: yoe uint_div)
  have 2: "uint (365 * yoe + yoe div 4 - yoe div 100) = year_start y"
    using y b by (subst uint_sub_small) (simp_all add: 1 yoe uint_div year_start_def)
  have doy: "uint doy = dy" using y d by (simp add: doy_def uint_sub_small 2)
  have e: "146097 * (uint z div 146097) < 2 ^ 64" "0 \<le> uint z div 146097"
    using int_div_bounds [of 146097 "uint z"] uint_lt2p [of z] by simp_all
  have year: "uint (yoe + z div 146097 * 400) = y + uint z div 146097 * 400"
    using e y by (subst uint_add_small; subst uint_mult_small) (simp_all add: yoe uint_div)
  have "uint doy < 366" using doy y year_length_bounds(2) [of y] by simp
  moreover have "uint (yoe + z div 146097 * 400) < 2 ^ 63" using e y by (simp add: year)
  ultimately have "map_prod uint (map_prod uint uint) (civil_from_days days) =
      march_date (y + uint z div 146097 * 400) dy"
    using march_date_words [of doy "yoe + z div 146097 * 400"]
    by (simp only: civil_from_days_def year doy Let_def z_def [symmetric] doe_def [symmetric]
        yoe_def [symmetric] doy_def [symmetric])
  moreover have "shifted_days (uint z mod 146097) div 365 = y" using year_of_day [OF y] d doe by simp
  moreover have "uint z mod 146097 - (365 * y + y div 4 - y div 100) = dy"
    using d doe y by (simp add: year_start_def)
  ultimately show ?thesis by (simp add: civil_def Let_def flip: z)
qed

lemma timestamp_days: "unat (t div 1000 div 86400 :: u64) = unat t div 86400000"
  by (simp add: unat_div div_mult2_eq)

lemma timestamp_time:
  "unat (t div 1000 mod 86400 div 3600 :: u64) = unat t div 3600000 mod 24"
  "unat (t div 1000 mod 86400 mod 3600 div 60 :: u64) = unat t div 60000 mod 60"
  "unat (t div 1000 mod 86400 mod 60 :: u64) = unat t div 1000 mod 60"
proof -
  let ?s = "unat t div 1000"
  have 1: "?s mod 86400 div 3600 = ?s div 3600 mod 24" using mod_mult2_eq [of ?s 3600 24] by simp
  show "unat (t div 1000 mod 86400 div 3600 :: u64) = unat t div 3600000 mod 24"
    using 1 by (simp add: unat_div unat_mod flip: div_mult2_eq)
  have 2: "?s mod 86400 mod 3600 = ?s mod 3600" "?s mod 86400 mod 60 = ?s mod 60"
    by (simp_all add: mod_mod_cancel)
  have 3: "?s mod 3600 div 60 = ?s div 60 mod 60" using mod_mult2_eq [of ?s 60 60] by simp
  show "unat (t div 1000 mod 86400 mod 3600 div 60 :: u64) = unat t div 60000 mod 60"
    using 2 3 by (simp add: unat_div unat_mod flip: div_mult2_eq)
  show "unat (t div 1000 mod 86400 mod 60 :: u64) = unat t div 1000 mod 60"
    using 2 by (simp add: unat_div unat_mod)
qed

section \<open>Sizes\<close>

lemma div_half_even_error:
  assumes "0 < d"
  shows "2 * \<bar>int (div_half_even n d) * int d - int n\<bar> \<le> int d"
proof -
  let ?q = "n div d" and ?r = "n mod d"
  have n: "int n = int ?q * int d + int ?r" by (metis div_mult_mod_eq of_nat_add of_nat_mult)
  have r: "int ?r < int d" using assms by simp
  show ?thesis
  proof (cases "2 * ?r > d \<or> 2 * ?r = d \<and> odd ?q")
    case True
    then have "int (div_half_even n d) * int d - int n = int d - int ?r"
      by (simp add: div_half_even_def Let_def n distrib_right)
    with True r show ?thesis by auto
  next
    case False
    then have "int (div_half_even n d) * int d - int n = - int ?r"
      by (simp only: div_half_even_def Let_def n if_False)
    with False show ?thesis by auto
  qed
qed

lemma div_half_even_one [simp]: "div_half_even n 1 = n"
  by (simp add: div_half_even_def)

lemma bit_len_bounds: "n \<noteq> 0 \<Longrightarrow> 2 ^ (bit_len n - 1) \<le> n \<and> n < 2 ^ bit_len n"
proof (induction n rule: bit_len.induct)
  case (1 n)
  show ?case
  proof (cases "n div 2 = 0")
    case True
    with 1 have "n = 1" by auto
    then show ?thesis by (simp add: bit_len.simps)
  next
    case False
    with 1 have IH: "2 ^ (bit_len (n div 2) - 1) \<le> n div 2" "n div 2 < 2 ^ bit_len (n div 2)" by simp_all
    have b: "bit_len n = Suc (bit_len (n div 2))" using 1 by (simp add: bit_len.simps [of n])
    have "bit_len (n div 2) \<noteq> 0" using False by (simp add: bit_len.simps [of "n div 2"])
    then obtain k where k: "bit_len (n div 2) = Suc k" by (cases "bit_len (n div 2)") auto
    then show ?thesis using IH b by auto
  qed
qed

lemma u64_as_f64_error: "2 ^ 53 * \<bar>int (u64_as_f64 len) - int (unat len)\<bar> \<le> int (unat len)"
proof (cases "bit_len (unat len) \<le> 53")
  case True
  then show ?thesis by (simp add: u64_as_f64_def div_half_even_def)
next
  case False
  define e where "e = bit_len (unat len) - 53"
  have nz: "unat len \<noteq> 0"
  proof
    assume "unat len = 0"
    with False show False by (simp add: bit_len.simps)
  qed
  have "bit_len (unat len) - 1 = 52 + e" using False by (simp add: e_def)
  with bit_len_bounds [OF nz] have "2 ^ (52 + e) \<le> unat len" by simp
  then have big: "(2 :: int) ^ 52 * 2 ^ e \<le> int (unat len)"
    by (metis of_nat_le_iff of_nat_numeral of_nat_power power_add)
  have "2 * \<bar>int (u64_as_f64 len) - int (unat len)\<bar> \<le> 2 ^ e"
    using div_half_even_error [of "2 ^ e" "unat len"] by (simp add: u64_as_f64_def Let_def flip: e_def)
  then have "2 ^ 52 * (2 * \<bar>int (u64_as_f64 len) - int (unat len)\<bar>) \<le> 2 ^ 52 * 2 ^ e" by simp
  with big show ?thesis by simp
qed

text \<open>The unit shown for a size, and its number of bytes.\<close>

definition size_unit :: "nat \<Rightarrow> string \<times> nat" where
  "size_unit f = (if 2 ^ 30 \<le> f then (''GiB'', 2 ^ 30) else if 2 ^ 20 \<le> f then (''MiB'', 2 ^ 20)
     else if 2 ^ 10 \<le> f then (''KiB'', 2 ^ 10) else (''bytes'', 1))"

lemma pretty_bytes_size_unit:
  "pretty_bytes_size len = fmt_fixed2 (u64_as_f64 len) (snd (size_unit (u64_as_f64 len))) @
     fst (size_unit (u64_as_f64 len))"
  by (simp add: pretty_bytes_size_def size_unit_def KILOBYTE_def MEGABYTE_def GIGABYTE_def Let_def)

lemma uint_of_small: "0 \<le> x \<Longrightarrow> x < 2 ^ 64 \<Longrightarrow> uint (word_of_int x :: u64) = x"
  by (simp add: uint_word_of_int)

lemma uint_unsigned_abs: "uint (unsigned_abs delta) = \<bar>sint delta\<bar>"
proof -
  have "- delta = word_of_int (- sint delta)" "delta = word_of_int (sint delta)" by simp_all
  moreover have "- (2 ^ 63) \<le> sint delta" "sint delta < 2 ^ 63"
    using sint_ge [of delta] sint_lt [of delta] by simp_all
  ultimately have "sint delta < 0 \<Longrightarrow> uint (- delta) = - sint delta"
    "\<not> sint delta < 0 \<Longrightarrow> uint delta = sint delta"
    using uint_of_small [of "- sint delta"] uint_of_small [of "sint delta"] by simp_all
  then show ?thesis by (simp add: unsigned_abs_def)
qed

section \<open>Properties\<close>

text \<open>Property C34: the date printed for a timestamp is the date of the Gregorian calendar. It is the
  day reached from 1 January 1970 by as many steps to the next day as the timestamp has whole days,
  with the hours, minutes and seconds of the day; no intermediate value overflows, for any 64-bit
  timestamp.\<close>

theorem pretty_timestamp_is_calendar_date:
  "pretty_timestamp_utc t =
     (case (next_day ^^ (unat t div 86400000)) (1970, 1, 1) of (year, month, day) \<Rightarrow>
        fmt_zero 4 (nat year) @ ''-'' @ fmt_zero 2 (nat month) @ ''-'' @ fmt_zero 2 (nat day) @ '' '' @
        fmt_zero 2 (unat t div 3600000 mod 24) @ '':'' @ fmt_zero 2 (unat t div 60000 mod 60) @ '':'' @
        fmt_zero 2 (unat t div 1000 mod 60) @ '' UTC'')"
proof -
  let ?days = "t div 1000 div 86400"
  have d: "uint ?days = int (unat t div 86400000)" by (metis timestamp_days uint_nat)
  have "unat t < 2 ^ 64" using unsigned_less [of t] by simp
  then have "unat t div 86400000 < 2 ^ 38" by (simp add: div_less_iff_less_mult)
  then have "uint ?days + 719468 < 2 ^ 64" using d by simp
  from civil_from_days_words [OF this] civil_days [of "unat t div 86400000"] d
  have "(next_day ^^ (unat t div 86400000)) (1970, 1, 1) =
      map_prod uint (map_prod uint uint) (civil_from_days ?days)" by simp
  then show ?thesis
    by (cases "civil_from_days ?days") (simp add: pretty_timestamp_utc_def timestamp_time Let_def)
qed

text \<open>Property C35: the size printed is accurate. It is a number of hundredths of its unit followed by
  the unit; the number is within half a hundredth of the size as a double, and the double is within
  one part in \<open>2\<^sup>5\<^sup>3\<close> of the size.\<close>

theorem pretty_bytes_size_accurate:
  "\<exists>f q. pretty_bytes_size len = fmt_hundredths q @ fst (size_unit f) \<and>
     2 * \<bar>int q * int (snd (size_unit f)) - 100 * int f\<bar> \<le> int (snd (size_unit f)) \<and>
     2 ^ 53 * \<bar>int f - uint len\<bar> \<le> uint len"
proof -
  let ?f = "u64_as_f64 len"
  have "0 < snd (size_unit ?f)" by (simp add: size_unit_def)
  from div_half_even_error [OF this, of "100 * ?f"] u64_as_f64_error [of len] show ?thesis
    by - (rule exI [of _ ?f], rule exI [of _ "div_half_even (100 * ?f) (snd (size_unit ?f))"],
      simp add: pretty_bytes_size_unit fmt_fixed2_def)
qed

text \<open>A delta is printed as its sign and the size of its absolute value, for every
  signed 64-bit value, the smallest one included.\<close>

lemma pretty_signed_is_sign_and_size:
  "\<exists>magnitude :: u64. uint magnitude = \<bar>sint delta\<bar> \<and>
     pretty_signed_bytes_size delta = (if sint delta < 0 then ''-'' else ''+'') @ pretty_bytes_size magnitude"
  by (rule exI [of _ "unsigned_abs delta"]) (simp add: uint_unsigned_abs pretty_signed_bytes_size_def)

end
