(* ===== verification/Rendered_Result.thy ===== *)
theory Rendered_Result
  imports Utils "HOL-Library.Multiset" "HOL-Library.Sublist"
begin

text \<open>
  The result of an analysis and its rendering (\<^verbatim>\<open>src/rendered_result.rs\<close>): the statistics of a class,
  the JSON result and the text report with its tables. Sorting with \<open>Reverse\<close> keys is the stable
  \<open>sort_key\<close> at the reversed order, a type with its own \<open>linorder\<close> instance. Writing to a string
  cannot fail, so the pieces are appended; the only panic left is that of an empty table. Files and
  the clock are left out.
\<close>

section \<open>Reversed order\<close>

datatype 'a reverse = Reverse (unreverse: 'a)

instantiation reverse :: (linorder) linorder
begin

definition less_eq_reverse :: "'a reverse \<Rightarrow> 'a reverse \<Rightarrow> bool" where
  "a \<le> b \<longleftrightarrow> unreverse b \<le> unreverse a"

definition less_reverse :: "'a reverse \<Rightarrow> 'a reverse \<Rightarrow> bool" where
  "a < b \<longleftrightarrow> unreverse b < unreverse a"

instance
  by standard (auto simp: less_eq_reverse_def less_reverse_def intro: reverse.expand)

end

lemma Reverse_le [simp]: "Reverse a \<le> Reverse b \<longleftrightarrow> b \<le> a"
  by (simp add: less_eq_reverse_def)

lemma Reverse_less [simp]: "Reverse a < Reverse b \<longleftrightarrow> b < a"
  by (simp add: less_reverse_def)

section \<open>Model\<close>

record class_allocation_stats =
  class_name :: string
  instance_count :: u64
  largest_allocation_bytes :: u64
  allocation_size_bytes :: u64

definition class_allocation_stats_new :: "string \<Rightarrow> u64 \<Rightarrow> u64 \<Rightarrow> u64 \<Rightarrow> class_allocation_stats" where
  "class_allocation_stats_new name instances largest allocation =
     \<lparr>class_name = name, instance_count = instances, largest_allocation_bytes = largest,
      allocation_size_bytes = allocation\<rparr>"

definition JSON_SCHEMA_VERSION :: u32 where
  "JSON_SCHEMA_VERSION = 1"

record tool_info =
  ti_name :: string
  ti_version :: string

record dump_info =
  di_file :: string
  di_file_size_bytes :: u64
  di_format :: string
  di_id_size_bytes :: u32
  di_captured_at_epoch_millis :: "u64 option"
  di_captured_at_utc :: "string option"

definition dump_info_new :: "string \<Rightarrow> u64 \<Rightarrow> string \<Rightarrow> u32 \<Rightarrow> u64 \<Rightarrow> dump_info" where
  "dump_info_new file file_size_bytes format id_size_bytes timestamp_epoch_millis =
     (let captured_at_epoch_millis =
            (if timestamp_epoch_millis \<noteq> 0 then Some timestamp_epoch_millis else None);
          captured_at_utc = map_option pretty_timestamp_utc captured_at_epoch_millis
      in \<lparr>di_file = file, di_file_size_bytes = file_size_bytes, di_format = format,
          di_id_size_bytes = id_size_bytes, di_captured_at_epoch_millis = captured_at_epoch_millis,
          di_captured_at_utc = captured_at_utc\<rparr>)"

record heap_info =
  hi_total_shallow_bytes :: u64
  hi_class_count :: usize
  hi_top_allocated_classes :: "class_allocation_stats list"
  hi_top_largest_instances :: "class_allocation_stats list"

record json_result =
  jr_schema_version :: u32
  jr_tool :: tool_info
  jr_dump :: dump_info
  jr_heap :: heap_info

text \<open>The two sorts the program performs in place.\<close>

definition sort_by_allocation :: "class_allocation_stats list \<Rightarrow> class_allocation_stats list" where
  "sort_by_allocation = sort_key (\<lambda>b. Reverse (allocation_size_bytes b))"

definition sort_by_largest :: "class_allocation_stats list \<Rightarrow> class_allocation_stats list" where
  "sort_by_largest = sort_key (\<lambda>b. Reverse (largest_allocation_bytes b))"

text \<open>The result and the slice as it is left. The name and version of the package are those of
  the build, a parameter.\<close>

definition json_result_new ::
  "tool_info \<Rightarrow> dump_info \<Rightarrow> class_allocation_stats list \<Rightarrow> usize \<Rightarrow> json_result \<times> class_allocation_stats list" where
  "json_result_new tool dump memory_usage top_n =
     (let total_shallow_bytes = sum_list (map allocation_size_bytes memory_usage);
          class_count = length memory_usage;
          memory_usage = sort_by_allocation memory_usage;
          top_allocated_classes = take top_n memory_usage;
          memory_usage = sort_by_largest memory_usage;
          top_largest_instances = take top_n memory_usage
      in (\<lparr>jr_schema_version = JSON_SCHEMA_VERSION, jr_tool = tool, jr_dump = dump,
           jr_heap = \<lparr>hi_total_shallow_bytes = total_shallow_bytes, hi_class_count = class_count,
             hi_top_allocated_classes = top_allocated_classes,
             hi_top_largest_instances = top_largest_instances\<rparr>\<rparr>,
          memory_usage))"

record rendered_result =
  rs_summary :: string
  rs_thread_info :: string
  rs_memory_usage :: "class_allocation_stats list"
  rs_duplicated_strings :: "string option"
  rs_captured_strings :: "string option"
  rs_warnings :: "string option"

text \<open>A formatted row: size, count, largest size, class name.\<close>

type_synonym table_row = "string \<times> u64 \<times> string \<times> string"

definition newline :: string where
  "newline = [CHR 0x0A]"

definition spaces :: "nat \<Rightarrow> string" where
  "spaces n = replicate n CHR '' ''"

definition column_padding :: "string \<Rightarrow> usize \<Rightarrow> string" where
  "column_padding column_name max_item_length = spaces (max_item_length - char_count column_name)"

definition padding_for_header :: "table_row list \<Rightarrow> (table_row \<Rightarrow> usize) \<Rightarrow> string \<Rightarrow> panic + string" where
  "padding_for_header rows field_len header_label =
     (if rows = [] then Inl EmptyResults
      else Inr (column_padding header_label (Max (set (map field_len rows)))))"

definition render_table_vertical_line :: "string \<Rightarrow> string \<Rightarrow> string \<Rightarrow> string \<Rightarrow> string" where
  "render_table_vertical_line total_size_header instance_count_header largest_instance_header class_name_header =
     ''+'' @ replicate (char_count total_size_header) CHR ''-'' @
     ''+'' @ replicate (char_count instance_count_header) CHR ''-'' @
     ''+'' @ replicate (char_count largest_instance_header) CHR ''-'' @
     ''+'' @ replicate (char_count class_name_header) CHR ''-'' @ ''+'' @ newline"

definition format_row :: "class_allocation_stats \<Rightarrow> table_row" where
  "format_row s = (pretty_bytes_size (allocation_size_bytes s), instance_count s,
     pretty_bytes_size (largest_allocation_bytes s), class_name s)"

definition render_row :: "usize \<Rightarrow> usize \<Rightarrow> usize \<Rightarrow> usize \<Rightarrow> table_row \<Rightarrow> string" where
  "render_row total_size_len instance_len largest_len class_name_len row =
     (case row of (allocation_size, instances, largest_allocation_size, name) \<Rightarrow>
       ''| '' @ column_padding allocation_size total_size_len @ allocation_size @
       '' | '' @ column_padding (fmt_nat (unat instances)) instance_len @ fmt_nat (unat instances) @
       '' | '' @ column_padding largest_allocation_size largest_len @ largest_allocation_size @
       '' | '' @ name @ column_padding name class_name_len @ '' |'' @ newline)"

text \<open>What \<open>render_table\<close> appends to the analysis.\<close>

definition render_table :: "usize \<Rightarrow> class_allocation_stats list \<Rightarrow> panic + string" where
  "render_table top_n rows =
     (let rows_formatted = map format_row (take top_n rows)
      in try_then (padding_for_header rows_formatted (\<lambda>(a, _, _, _). char_count a) ''Total size'')
           (\<lambda>total_size_header_padding.
         try_then (padding_for_header rows_formatted (\<lambda>(_, n, _, _). char_count (fmt_nat (unat n))) ''Instances'')
           (\<lambda>instance_count_header_padding.
         try_then (padding_for_header rows_formatted (\<lambda>(_, _, l, _). char_count l) ''Largest'')
           (\<lambda>largest_instance_padding.
         try_then (padding_for_header rows_formatted (\<lambda>(_, _, _, c). char_count c) ''Class name'')
           (\<lambda>class_name_padding.
           let total_size_len = char_count ''Total size'' + char_count total_size_header_padding;
               instance_len = char_count ''Instances'' + char_count instance_count_header_padding;
               largest_len = char_count ''Largest'' + char_count largest_instance_padding;
               class_name_len = char_count ''Class name'' + char_count class_name_padding;
               total_size_header = '' '' @ total_size_header_padding @ ''Total size '';
               instance_count_header = '' '' @ instance_count_header_padding @ ''Instances '';
               largest_instance_header = '' '' @ largest_instance_padding @ ''Largest '';
               class_name_header = '' Class name'' @ class_name_padding @ '' '';
               line = render_table_vertical_line total_size_header instance_count_header
                        largest_instance_header class_name_header
           in Inr (line @
                ''|'' @ total_size_header @ ''|'' @ instance_count_header @ ''|'' @
                  largest_instance_header @ ''|'' @ class_name_header @ ''|'' @ newline @
                line @
                concat (map (render_row total_size_len instance_len largest_len class_name_len)
                  rows_formatted) @
                line))))))"

definition render_memory_usage :: "class_allocation_stats list \<Rightarrow> usize \<Rightarrow> panic + string" where
  "render_memory_usage memory_usage top_n =
     (let total_size = sum_list (map allocation_size_bytes memory_usage);
          banner = ''Found a total of '' @ pretty_bytes_size total_size @
            '' of raw shallow heap objects in the dump.'' @ newline;
          memory_usage = sort_by_allocation memory_usage
      in try_then (render_table top_n memory_usage) (\<lambda>allocated.
           let memory_usage = sort_by_largest memory_usage
           in try_then (render_table top_n memory_usage) (\<lambda>largest.
                Inr (banner @
                  newline @ ''Top '' @ fmt_nat top_n @ '' raw shallow heap classes:'' @ newline @ newline @ allocated @
                  newline @ ''Top '' @ fmt_nat top_n @ '' largest instances:'' @ newline @ newline @ largest))))"

definition or_nothing :: "string option \<Rightarrow> string" where
  "or_nothing s = (case s of None \<Rightarrow> '''' | Some s \<Rightarrow> s)"

definition serialize :: "rendered_result \<Rightarrow> usize \<Rightarrow> panic + string" where
  "serialize self top_n =
     try_then (render_memory_usage (rs_memory_usage self) top_n) (\<lambda>memory.
       Inr (rs_summary self @ newline @ rs_thread_info self @ newline @ memory @
         or_nothing (map_option (\<lambda>s. s @ newline) (rs_duplicated_strings self)) @
         or_nothing (rs_captured_strings self) @ or_nothing (rs_warnings self)))"

section \<open>Sorting\<close>

text \<open>Taking the first entries of a list sorted by a reversed key keeps the largest ones.\<close>

lemma take_top_greatest:
  fixes f :: "'a \<Rightarrow> 'b::linorder"
  assumes "a \<in> set (take n (sort_key (\<lambda>x. Reverse (f x)) xs))"
    and "b \<in> set (drop n (sort_key (\<lambda>x. Reverse (f x)) xs))"
  shows "f b \<le> f a"
proof -
  let ?ys = "sort_key (\<lambda>x. Reverse (f x)) xs"
  let ?g = "\<lambda>x. Reverse (f x)"
  have "sorted (map ?g (take n ?ys) @ map ?g (drop n ?ys))" by (simp flip: map_append)
  then have "\<forall>x \<in> set (map ?g (take n ?ys)). \<forall>y \<in> set (map ?g (drop n ?ys)). x \<le> y"
    unfolding sorted_append by blast
  moreover have "?g a \<in> set (map ?g (take n ?ys))" unfolding set_map using assms(1) by (rule imageI)
  moreover have "?g b \<in> set (map ?g (drop n ?ys))" unfolding set_map using assms(2) by (rule imageI)
  ultimately have "?g a \<le> ?g b" by blast
  then show ?thesis by simp
qed

lemma mset_sorts [simp]:
  "mset (sort_by_allocation xs) = mset xs" "mset (sort_by_largest xs) = mset xs"
  "length (sort_by_allocation xs) = length xs" "length (sort_by_largest xs) = length xs"
  by (simp_all add: sort_by_allocation_def sort_by_largest_def)

section \<open>Widths\<close>

lemma char_count_append [simp]: "char_count (a @ b) = char_count a + char_count b"
  by (simp add: char_count_def)

lemma char_count_Nil [simp]: "char_count [] = 0"
  by (simp add: char_count_def)

lemma char_count_Cons: "char_count (c # s) = (if is_cont (of_char c) then 0 else 1) + char_count s"
  by (simp add: char_count_def)

lemma plain_bytes: "\<not> is_cont 32" "\<not> is_cont 45" "\<not> is_cont 43" "\<not> is_cont 124"
  by code_simp+

lemma char_count_replicate:
  "char_count (replicate n CHR '' '') = n" "char_count (replicate n CHR ''-'') = n"
  by (induction n) (simp_all add: char_count_Cons plain_bytes)

lemma char_count_spaces [simp]: "char_count (spaces n) = n"
  by (simp add: spaces_def char_count_replicate plain_bytes)

lemma padded_cell:
  "char_count x \<le> w \<Longrightarrow> char_count (column_padding x w) + char_count x = w"
  by (simp add: column_padding_def)

text \<open>The width of a column.\<close>

definition column_width :: "table_row list \<Rightarrow> (table_row \<Rightarrow> usize) \<Rightarrow> string \<Rightarrow> nat" where
  "column_width rows field_len label = char_count label + (Max (set (map field_len rows)) - char_count label)"

lemma field_le_column_width: "row \<in> set rows \<Longrightarrow> field_len row \<le> column_width rows field_len label"
proof -
  assume "row \<in> set rows"
  then have "field_len row \<le> Max (set (map field_len rows))" by (intro Max_ge) simp_all
  then show ?thesis by (simp add: column_width_def)
qed

lemma header_width:
  "char_count label + char_count (column_padding label (Max (set (map field_len rows)))) = column_width rows field_len label"
  by (simp add: column_width_def column_padding_def)

lemma label_counts:
  "char_count ''Total size'' = 10" "char_count ''Instances'' = 9" "char_count ''Largest'' = 7"
  "char_count ''Class name'' = 10" "char_count ''Total size '' = 11" "char_count ''Instances '' = 10"
  "char_count ''Largest '' = 8" "char_count '' Class name'' = 11" "char_count '' '' = 1" "char_count ''|'' = 1"
  by code_simp+

text \<open>A rendered row without its line break.\<close>

definition row_cells :: "usize \<Rightarrow> usize \<Rightarrow> usize \<Rightarrow> usize \<Rightarrow> table_row \<Rightarrow> string" where
  "row_cells w1 w2 w3 w4 row = (case row of (a, n, l, c) \<Rightarrow>
       ''| '' @ column_padding a w1 @ a @ '' | '' @ column_padding (fmt_nat (unat n)) w2 @ fmt_nat (unat n) @
       '' | '' @ column_padding l w3 @ l @ '' | '' @ c @ column_padding c w4 @ '' |'')"

lemma render_row_cells: "render_row w1 w2 w3 w4 row = row_cells w1 w2 w3 w4 row @ newline"
  by (cases row) (simp add: render_row_def row_cells_def)

lemma concat_row_cells:
  "concat (map (\<lambda>l. l @ newline) (map (row_cells w1 w2 w3 w4) rows)) = concat (map (render_row w1 w2 w3 w4) rows)"
  by (induction rows) (simp_all add: render_row_cells)

lemma row_cells_width:
  assumes "char_count a \<le> w1" "char_count (fmt_nat (unat n)) \<le> w2" "char_count l \<le> w3" "char_count c \<le> w4"
  shows "char_count (row_cells w1 w2 w3 w4 (a, n, l, c)) = w1 + w2 + w3 + w4 + 13"
  using padded_cell [OF assms(1)] padded_cell [OF assms(2)] padded_cell [OF assms(3)] padded_cell [OF assms(4)]
  by (simp add: row_cells_def char_count_Cons plain_bytes)

definition rule_line :: "nat \<Rightarrow> nat \<Rightarrow> nat \<Rightarrow> nat \<Rightarrow> string" where
  "rule_line w1 w2 w3 w4 = ''+'' @ replicate (w1 + 2) CHR ''-'' @ ''+'' @ replicate (w2 + 2) CHR ''-'' @
     ''+'' @ replicate (w3 + 2) CHR ''-'' @ ''+'' @ replicate (w4 + 2) CHR ''-'' @ ''+''"

lemma rule_line_width: "char_count (rule_line w1 w2 w3 w4) = w1 + w2 + w3 + w4 + 13"
  by (simp add: rule_line_def char_count_Cons char_count_replicate plain_bytes)

lemma vertical_line:
  assumes "char_count h1 = w1 + 2" "char_count h2 = w2 + 2" "char_count h3 = w3 + 2" "char_count h4 = w4 + 2"
  shows "render_table_vertical_line h1 h2 h3 h4 = rule_line w1 w2 w3 w4 @ newline"
  using assms by (simp add: render_table_vertical_line_def rule_line_def)

lemma render_table_lines:
  assumes "take top_n rows \<noteq> []"
  shows "\<exists>w lines. render_table top_n rows = Inr (concat (map (\<lambda>l. l @ newline) lines)) \<and>
    length lines = min top_n (length rows) + 4 \<and> list_all (\<lambda>l. char_count l = w) lines"
proof -
  define R where "R = map format_row (take top_n rows)"
  let ?f1 = "\<lambda>(a, _, _, _). char_count a" and ?f2 = "\<lambda>(_, n, _, _). char_count (fmt_nat (unat n))"
  let ?f3 = "\<lambda>(_, _, l, _). char_count l" and ?f4 = "\<lambda>(_, _, _, c). char_count c"
  let ?w1 = "column_width R ?f1 ''Total size''" and ?w2 = "column_width R ?f2 ''Instances''"
  let ?w3 = "column_width R ?f3 ''Largest''" and ?w4 = "column_width R ?f4 ''Class name''"
  let ?p1 = "column_padding ''Total size'' (Max (set (map ?f1 R)))"
  let ?p2 = "column_padding ''Instances'' (Max (set (map ?f2 R)))"
  let ?p3 = "column_padding ''Largest'' (Max (set (map ?f3 R)))"
  let ?p4 = "column_padding ''Class name'' (Max (set (map ?f4 R)))"
  let ?h1 = "'' '' @ ?p1 @ ''Total size ''" and ?h2 = "'' '' @ ?p2 @ ''Instances ''"
  let ?h3 = "'' '' @ ?p3 @ ''Largest ''" and ?h4 = "'' Class name'' @ ?p4 @ '' ''"
  let ?rule = "rule_line ?w1 ?w2 ?w3 ?w4"
  let ?header = "''|'' @ ?h1 @ ''|'' @ ?h2 @ ''|'' @ ?h3 @ ''|'' @ ?h4 @ ''|''"
  let ?lines = "[?rule, ?header, ?rule] @ map (row_cells ?w1 ?w2 ?w3 ?w4) R @ [?rule]"
  have h: "char_count ?h1 = ?w1 + 2" "char_count ?h2 = ?w2 + 2" "char_count ?h3 = ?w3 + 2"
    "char_count ?h4 = ?w4 + 2"
    using header_width [of "''Total size''" ?f1 R] header_width [of "''Instances''" ?f2 R]
      header_width [of "''Largest''" ?f3 R] header_width [of "''Class name''" ?f4 R]
    by (simp_all only: char_count_append label_counts)
  have ne: "R \<noteq> []" using assms by (simp add: R_def)
  have rendered: "render_table top_n rows = Inr (concat (map (\<lambda>l. l @ newline) ?lines))"
    by (simp only: render_table_def Let_def padding_for_header_def ne if_False try_then_simps header_width
        vertical_line [OF h] map_append concat_append concat_row_cells list.map concat.simps append_assoc append_Nil
        append_Nil2 flip: R_def)
  have len: "length ?lines = min top_n (length rows) + 4" by (simp add: R_def)
  have width: "char_count l = ?w1 + ?w2 + ?w3 + ?w4 + 13" if "l \<in> set ?lines" for l
  proof -
    from that consider "l = ?rule" | "l = ?header" | row where "row \<in> set R" "l = row_cells ?w1 ?w2 ?w3 ?w4 row"
      by auto
    then show ?thesis
    proof cases
      case 3
      obtain a n b c where row: "row = (a, n, b, c)" by (cases row)
      show ?thesis unfolding 3(2) row
        by (rule row_cells_width)
          (use field_le_column_width [OF 3(1), of ?f1] field_le_column_width [OF 3(1), of ?f2]
            field_le_column_width [OF 3(1), of ?f3] field_le_column_width [OF 3(1), of ?f4] row in auto)
    qed (simp_all only: rule_line_width, use h in \<open>simp only: char_count_append label_counts\<close>)
  qed
  have "list_all (\<lambda>l. char_count l = ?w1 + ?w2 + ?w3 + ?w4 + 13) ?lines"
    unfolding list_all_iff using width by blast
  with rendered len show ?thesis by blast
qed

lemma render_table_empty: "take top_n rows = [] \<Longrightarrow> render_table top_n rows = Inl EmptyResults"
  by (simp add: render_table_def padding_for_header_def)

lemma render_memory_usage_empty:
  "render_memory_usage memory_usage top_n = Inl e \<longleftrightarrow> e = EmptyResults \<and> (memory_usage = [] \<or> top_n = 0)"
proof (cases "memory_usage = [] \<or> top_n = 0")
  case True
  then have "take top_n (sort_by_allocation memory_usage) = []" by (auto simp: sort_by_allocation_def)
  then show ?thesis using True by (auto simp: render_memory_usage_def Let_def render_table_empty)
next
  case False
  then have "length memory_usage \<noteq> 0" by simp
  then have "take top_n (sort_by_allocation memory_usage) \<noteq> []"
    "take top_n (sort_by_largest (sort_by_allocation memory_usage)) \<noteq> []"
    using False by (metis length_0_conv mset_sorts(3) mset_sorts(4) take_eq_Nil)+
  with render_table_lines [of top_n "sort_by_allocation memory_usage"]
    render_table_lines [of top_n "sort_by_largest (sort_by_allocation memory_usage)"] False show ?thesis
    by (auto simp: render_memory_usage_def Let_def)
qed

section \<open>Properties\<close>

text \<open>Property C33: the report panics exactly when there is nothing to show: when the dump has neither
  an instance nor an array, or when no row is asked for.\<close>

theorem serialize_panics_iff_empty:
  "serialize self top_n = Inl e \<longleftrightarrow> e = EmptyResults \<and> (rs_memory_usage self = [] \<or> top_n = 0)"
  by (auto simp: serialize_def try_then_Inl render_memory_usage_empty)

text \<open>Tables are aligned. A table has one line per row shown and four lines around them,
  and all its lines have the same number of characters, whatever the class names.\<close>

lemma table_is_aligned:
  assumes "rows \<noteq> []" and "0 < top_n"
  shows "\<exists>w lines. render_table top_n rows = Inr (concat (map (\<lambda>l. l @ newline) lines)) \<and>
    length lines = min top_n (length rows) + 4 \<and> list_all (\<lambda>l. char_count l = w) lines"
  by (rule render_table_lines) (use assms in simp)

text \<open>The JSON result shows the largest classes. Its two lists have the requested length
  or all the classes; every class left out of the first list has at most the total size of each
  class in it, every class left out of the second at most the largest size; the total is over all
  classes, and the slice that is sorted in place keeps its contents.\<close>

lemma json_shows_top_classes:
  assumes "json_result_new tool dump memory_usage top_n = (result, memory_usage')"
  shows "\<exists>rest1 rest2.
    mset (hi_top_allocated_classes (jr_heap result)) + mset rest1 = mset memory_usage \<and>
    mset (hi_top_largest_instances (jr_heap result)) + mset rest2 = mset memory_usage \<and>
    length (hi_top_allocated_classes (jr_heap result)) = min top_n (length memory_usage) \<and>
    length (hi_top_largest_instances (jr_heap result)) = min top_n (length memory_usage) \<and>
    list_all (\<lambda>a. list_all (\<lambda>b. allocation_size_bytes b \<le> allocation_size_bytes a) rest1)
      (hi_top_allocated_classes (jr_heap result)) \<and>
    list_all (\<lambda>a. list_all (\<lambda>b. largest_allocation_bytes b \<le> largest_allocation_bytes a) rest2)
      (hi_top_largest_instances (jr_heap result)) \<and>
    hi_total_shallow_bytes (jr_heap result) = sum_list (map allocation_size_bytes memory_usage) \<and>
    hi_class_count (jr_heap result) = length memory_usage \<and> mset memory_usage' = mset memory_usage"
proof -
  let ?s1 = "sort_by_allocation memory_usage" and ?s2 = "sort_by_largest (sort_by_allocation memory_usage)"
  have r: "hi_top_allocated_classes (jr_heap result) = take top_n ?s1"
    "hi_top_largest_instances (jr_heap result) = take top_n ?s2"
    "hi_total_shallow_bytes (jr_heap result) = sum_list (map allocation_size_bytes memory_usage)"
    "hi_class_count (jr_heap result) = length memory_usage" "memory_usage' = ?s2"
    using assms by (auto simp: json_result_new_def Let_def)
  have m: "mset (take top_n xs) + mset (drop top_n xs) = mset xs" for xs :: "class_allocation_stats list"
    by (metis append_take_drop_id mset_append)
  have "allocation_size_bytes b \<le> allocation_size_bytes a" if "a \<in> set (take top_n ?s1)" "b \<in> set (drop top_n ?s1)" for a b
    using take_top_greatest [of a top_n allocation_size_bytes memory_usage b] that
    by (simp add: sort_by_allocation_def)
  moreover have "largest_allocation_bytes b \<le> largest_allocation_bytes a" if "a \<in> set (take top_n ?s2)" "b \<in> set (drop top_n ?s2)" for a b
    using take_top_greatest [of a top_n largest_allocation_bytes ?s1 b] that
    by (simp add: sort_by_largest_def)
  ultimately show ?thesis unfolding r using m [of ?s1] m [of ?s2]
    by (intro exI [of _ "drop top_n ?s1"] exI [of _ "drop top_n ?s2"]) (simp add: list_all_iff min.commute)
qed

end
