(* ===== verification/Memory_Usage.thy ===== *)
theory Memory_Usage
  imports Instance_Size Rendered_Result "HOL-Library.Char_ord" "HOL-Library.List_Lexorder"
    "HOL-Library.Product_Lexorder"
begin

text \<open>
  What the recorder reports when the records have ended (\<^verbatim>\<open>src/result_recorder.rs\<close>): class names,
  the memory usage per class and array type, the stack traces of the threads, the summary, the
  strings and the warning about missing classes. The order in which the hash maps iterate is the
  parameter \<open>hash_order\<close>; its only law is that an iteration visits every entry once. The program
  sorts everything it takes out of the maps, and the results are shown not to depend on the order.
\<close>

section \<open>Iteration order\<close>

record hash_order =
  ho_strings :: "(u64 \<times> string) list \<Rightarrow> (u64 \<times> string) list"
  ho_instances :: "(u64 \<times> class_instance_counter) list \<Rightarrow> (u64 \<times> class_instance_counter) list"
  ho_primitives :: "(field_type \<times> array_counter) list \<Rightarrow> (field_type \<times> array_counter) list"
  ho_objects :: "(u64 \<times> array_counter) list \<Rightarrow> (u64 \<times> array_counter) list"
  ho_traces :: "(u32 \<times> stack_trace_data) list \<Rightarrow> (u32 \<times> stack_trace_data) list"

locale hash_iteration =
  fixes H :: hash_order
  assumes strings_perm: "mset (ho_strings H m1) = mset m1"
    and instances_perm: "mset (ho_instances H m2) = mset m2"
    and primitives_perm: "mset (ho_primitives H m3) = mset m3"
    and objects_perm: "mset (ho_objects H m4) = mset m4"
    and traces_perm: "mset (ho_traces H m5) = mset m5"

definition insertion_order :: hash_order where
  "insertion_order = \<lparr>ho_strings = (\<lambda>m. m), ho_instances = (\<lambda>m. m), ho_primitives = (\<lambda>m. m),
     ho_objects = (\<lambda>m. m), ho_traces = (\<lambda>m. m)\<rparr>"

definition reversed_order :: hash_order where
  "reversed_order = \<lparr>ho_strings = rev, ho_instances = rev, ho_primitives = rev, ho_objects = rev,
     ho_traces = rev\<rparr>"

interpretation insertion: hash_iteration insertion_order
  by unfold_locales (simp_all add: insertion_order_def)

interpretation reversed: hash_iteration reversed_order
  by unfold_locales (simp_all add: reversed_order_def)

section \<open>Class names\<close>

definition get_class_name_string :: "result_recorder \<Rightarrow> u64 \<Rightarrow> u64 set \<Rightarrow> string \<times> u64 set" where
  "get_class_name_string self class_id missing_class_ids =
     (case Option.bind (Option.bind (hm_get (rr_class_data_by_id self) class_id) (vec_get (rr_class_data self)))
         (\<lambda>class_data. hm_get (rr_utf8_strings_by_id self) (lc_class_name_id class_data)) of
        Some name \<Rightarrow> (str_replace CHR ''/'' CHR ''.'' name, missing_class_ids)
      | None \<Rightarrow> (''<unknown class 0x'' @ fmt_hex (unat class_id) @ ''>'', insert class_id missing_class_ids))"

section \<open>Memory usage\<close>

text \<open>An iterator whose function may panic, not return, and extend the set of missing classes.\<close>

fun collect_rows ::
  "('x \<Rightarrow> u64 set \<Rightarrow> (panic + 'r \<times> u64 set) option) \<Rightarrow> 'x list \<Rightarrow> u64 set \<Rightarrow> (panic + 'r list \<times> u64 set) option" where
  "collect_rows f [] missing = Some (Inr ([], missing))"
| "collect_rows f (x # xs) missing =
     (case f x missing of
        None \<Rightarrow> None
      | Some (Inl e) \<Rightarrow> Some (Inl e)
      | Some (Inr (row, missing)) \<Rightarrow>
          map_option (\<lambda>res. try_then res (\<lambda>(rows, missing). Inr (row # rows, missing)))
            (collect_rows f xs missing))"

definition class_row ::
  "result_recorder \<Rightarrow> u64 \<times> class_instance_counter \<Rightarrow> u64 set \<Rightarrow> (panic + class_allocation_stats \<times> u64 set) option" where
  "class_row self entry missing_class_ids =
     (case entry of (class_id, v) \<Rightarrow>
        (let (name, missing_class_ids) = get_class_name_string self class_id missing_class_ids
         in map_option (\<lambda>res. try_then res (\<lambda>(size, missing_class_ids).
              let total_size = size * number_of_instances v
              in Inr (class_allocation_stats_new name (number_of_instances v) size total_size, missing_class_ids)))
            (calculate_instance_size self class_id missing_class_ids)))"

text \<open>\<open>format!("{field_type:?}").to_lowercase()\<close>\<close>

fun field_type_label :: "field_type \<Rightarrow> string" where
  "field_type_label FT_Object = ''object''"
| "field_type_label FT_Bool = ''bool''"
| "field_type_label FT_Char = ''char''"
| "field_type_label FT_Float = ''float''"
| "field_type_label FT_Double = ''double''"
| "field_type_label FT_Byte = ''byte''"
| "field_type_label FT_Short = ''short''"
| "field_type_label FT_Int = ''int''"
| "field_type_label FT_Long = ''long''"

definition primitive_row ::
  "field_type \<times> array_counter \<Rightarrow> u64 set \<Rightarrow> (panic + class_allocation_stats \<times> u64 set) option" where
  "primitive_row entry missing_class_ids =
     (case entry of (field_type, ac) \<Rightarrow>
        Some (Inr (class_allocation_stats_new (field_type_label field_type @ ''[]'')
          (number_of_arrays ac) (max_size_bytes_seen ac) (total_size_bytes ac), missing_class_ids)))"

definition clean_class_name :: "string \<Rightarrow> panic + string" where
  "clean_class_name raw_class_name =
     (if prefix ''[[L'' raw_class_name then str_slice raw_class_name 3 (length raw_class_name - 1)
      else if prefix ''[L'' raw_class_name then str_slice raw_class_name 2 (length raw_class_name - 1)
      else Inr raw_class_name)"

definition object_row ::
  "result_recorder \<Rightarrow> u64 \<times> array_counter \<Rightarrow> u64 set \<Rightarrow> (panic + class_allocation_stats \<times> u64 set) option" where
  "object_row self entry missing_class_ids =
     (case entry of (class_id, ac) \<Rightarrow>
        (let (raw_class_name, missing_class_ids) = get_class_name_string self class_id missing_class_ids
         in Some (try_then (clean_class_name raw_class_name) (\<lambda>cleaned_class_name.
              Inr (class_allocation_stats_new (cleaned_class_name @ ''[]'') (number_of_arrays ac)
                (max_size_bytes_seen ac) (total_size_bytes ac), missing_class_ids)))))"

text \<open>The comparison of \<open>sort_unstable_by\<close> is the descending order on all four fields, so rows
  that compare equal are equal.\<close>

definition stats_key :: "class_allocation_stats \<Rightarrow> (string \<times> u64 \<times> u64 \<times> u64) reverse" where
  "stats_key s = Reverse (class_name s, allocation_size_bytes s, instance_count s, largest_allocation_bytes s)"

definition aggregate_memory_usage ::
  "hash_order \<Rightarrow> result_recorder \<Rightarrow> u64 set \<Rightarrow> (panic + class_allocation_stats list \<times> u64 set) option" where
  "aggregate_memory_usage H self missing_class_ids =
     (case collect_rows (class_row self) (ho_instances H (rr_classes_all_instance_total_size_by_id self))
         missing_class_ids of
        None \<Rightarrow> None
      | Some (Inl e) \<Rightarrow> Some (Inl e)
      | Some (Inr (classes_dump_vec, missing_class_ids)) \<Rightarrow>
     (case collect_rows primitive_row (ho_primitives H (rr_primitive_array_counters self)) missing_class_ids of
        None \<Rightarrow> None
      | Some (Inl e) \<Rightarrow> Some (Inl e)
      | Some (Inr (array_primitives_dump_vec, missing_class_ids)) \<Rightarrow>
     (case collect_rows (object_row self) (ho_objects H (rr_object_array_counters self)) missing_class_ids of
        None \<Rightarrow> None
      | Some (Inl e) \<Rightarrow> Some (Inl e)
      | Some (Inr (array_objects_dump_vec, missing_class_ids)) \<Rightarrow>
          Some (Inr (sort_key stats_key (classes_dump_vec @ array_primitives_dump_vec @ array_objects_dump_vec),
            missing_class_ids)))))"

section \<open>Strings\<close>

definition captured_values :: "hash_order \<Rightarrow> result_recorder \<Rightarrow> string list" where
  "captured_values H self = sort (map snd (ho_strings H (rr_utf8_strings_by_id self)))"

definition render_captured_strings :: "hash_order \<Rightarrow> result_recorder \<Rightarrow> string" where
  "render_captured_strings H self =
     newline @ ''List of Strings'' @ newline @ concat (map (\<lambda>s. s @ newline) (captured_values H self))"

text \<open>\<open>dedup\<close> on a vector: consecutive repetitions are dropped.\<close>

definition render_duplicated_strings :: "hash_order \<Rightarrow> result_recorder \<Rightarrow> string option" where
  "render_duplicated_strings H self =
     (let strings = captured_values H self;
          all_len = length strings;
          dedup_len = length (remdups_adj strings)
      in if all_len = dedup_len then None
         else Some (newline @ ''Found '' @ fmt_nat (all_len - dedup_len) @ '' duplicated strings out of '' @
           fmt_nat all_len @ '' unique strings'' @ newline))"

section \<open>Stack traces\<close>

definition pretty_line_number :: "i32 \<Rightarrow> string" where
  "pretty_line_number line_number =
     (if line_number = -1 then ''unknown line number''
      else if line_number = -2 then ''compiled method''
      else if line_number = -3 then ''native method''
      else fmt_int (sint line_number))"

definition render_stack_frame :: "result_recorder \<Rightarrow> u64 \<Rightarrow> u64 set \<Rightarrow> string \<times> u64 set" where
  "render_stack_frame self stack_frame_id missing_class_ids =
     (case hm_get (rr_stack_frame_by_id self) stack_frame_id of
        None \<Rightarrow> (''  at <unknown stack frame 0x'' @ fmt_hex (unat stack_frame_id) @ ''>'' @ newline, missing_class_ids)
      | Some stack_frame \<Rightarrow>
          (let (name, missing_class_ids) =
                 (case Option.bind (hm_get (rr_class_data_by_serial_number self) (sf_class_serial_number stack_frame))
                     (vec_get (rr_class_data self)) of
                    Some class_data \<Rightarrow> get_class_name_string self (lc_class_object_id class_data) missing_class_ids
                  | None \<Rightarrow> (''<unknown class (serial '' @ fmt_nat (unat (sf_class_serial_number stack_frame)) @ '')>'',
                      missing_class_ids));
               method_name =
                 (case hm_get (rr_utf8_strings_by_id self) (sf_method_name_id stack_frame) of
                    None \<Rightarrow> ''unknown method name'' | Some b \<Rightarrow> b);
               file_name =
                 (case hm_get (rr_utf8_strings_by_id self) (sf_source_file_name_id stack_frame) of
                    None \<Rightarrow> ''unknown source file'' | Some b \<Rightarrow> b)
           in (''  at '' @ name @ ''.'' @ method_name @ '' ('' @ file_name @ '':'' @
                 pretty_line_number (sf_line_number stack_frame) @ '')'' @ newline, missing_class_ids)))"

fun render_stack_frames :: "result_recorder \<Rightarrow> u64 list \<Rightarrow> u64 set \<Rightarrow> string \<times> u64 set" where
  "render_stack_frames self [] missing_class_ids = ([], missing_class_ids)"
| "render_stack_frames self (i # ids) missing_class_ids =
     (let (frame, missing_class_ids) = render_stack_frame self i missing_class_ids;
          (frames, missing_class_ids) = render_stack_frames self ids missing_class_ids
      in (frame @ frames, missing_class_ids))"

fun render_threads ::
  "result_recorder \<Rightarrow> nat \<Rightarrow> (u32 \<times> stack_trace_data) list \<Rightarrow> u64 set \<Rightarrow> string \<times> u64 set" where
  "render_threads self index [] missing_class_ids = ([], missing_class_ids)"
| "render_threads self index ((serial, stack_data) # traces) missing_class_ids =
     (let (frames, missing_class_ids) = render_stack_frames self (st_stack_frame_ids stack_data) missing_class_ids;
          (threads, missing_class_ids) = render_threads self (index + 1) traces missing_class_ids
      in (newline @ ''Thread '' @ fmt_nat (index + 1) @ newline @ frames @ threads, missing_class_ids))"

definition render_thread_info :: "hash_order \<Rightarrow> result_recorder \<Rightarrow> u64 set \<Rightarrow> string \<times> u64 set" where
  "render_thread_info H self missing_class_ids =
     (let stack_traces = filter (\<lambda>(_, stack). st_stack_frame_ids stack \<noteq> [])
            (ho_traces H (rr_stack_trace_by_serial_number self));
          stack_traces = sort_key fst stack_traces;
          (threads, missing_class_ids) = render_threads self 0 stack_traces missing_class_ids
      in (newline @ ''Found '' @ fmt_nat (length stack_traces) @ '' threads with stacktraces:'' @ newline @ threads,
          missing_class_ids))"

section \<open>Warning and summary\<close>

fun join :: "string \<Rightarrow> string list \<Rightarrow> string" where
  "join sep [] = []"
| "join sep [s] = s"
| "join sep (s # t # ts) = s @ sep @ join sep (t # ts)"

definition render_missing_class_warning :: "u64 set \<Rightarrow> string option" where
  "render_missing_class_warning missing_class_ids =
     (if missing_class_ids = {} then None
      else
        (let ids = sorted_list_of_set missing_class_ids;
             displayed_ids = map (\<lambda>i. ''0x'' @ fmt_hex (unat i)) (take 10 ids);
             displayed_ids = (if length ids > length displayed_ids then displayed_ids @ [''...''] else displayed_ids)
         in Some (newline @ ''Warning: '' @ fmt_nat (length ids) @
              '' class definition(s) referenced in the dump were never loaded (ids: '' @
              join '', '' displayed_ids @ '').'' @ newline @
              ''Affected objects are reported as '' @ [CHR 0x27] @ ''<unknown class>'' @ [CHR 0x27] @
              '' and sized as bare object headers.'' @ newline)))"

text \<open>A line of the summary: a label, a count and a line break.\<close>

definition summary_line :: "string \<Rightarrow> nat \<Rightarrow> string" where
  "summary_line label n = label @ '': '' @ fmt_nat n @ newline"

definition render_summary :: "result_recorder \<Rightarrow> string" where
  "render_summary self =
     (let capture_time =
            (if rr_timestamp self = 0 then []
             else newline @ ''Dump captured at '' @ pretty_timestamp_utc (rr_timestamp self) @ ''.'' @ newline);
          top_summary =
            newline @ ''File content summary:'' @ newline @ newline @
            summary_line ''UTF-8 Strings'' (hm_len (rr_utf8_strings_by_id self)) @
            summary_line ''Classes loaded'' (hm_len (rr_class_data_by_id self)) @
            summary_line ''Classes unloaded'' (unat (rr_classes_unloaded self)) @
            summary_line ''Stack traces'' (unat (rr_stack_traces self)) @
            summary_line ''Stack frames'' (unat (rr_stack_frames self)) @
            summary_line ''Start threads'' (unat (rr_start_threads self)) @
            summary_line ''Allocation sites'' (unat (rr_allocation_sites self)) @
            summary_line ''End threads'' (unat (rr_end_threads self)) @
            summary_line ''Control settings'' (unat (rr_control_settings self)) @
            ''CPU samples: '' @ fmt_nat (unat (rr_cpu_samples self));
          heap_summary =
            summary_line ''Heap summaries'' (unat (rr_heap_summaries self)) @
            fmt_nat (unat (rr_heap_dumps self)) @ '' heap dumps containing in total '' @
            fmt_nat (unat (rr_heap_dump_segments_all_sub_records self)) @ '' segments:'' @ newline @
            summary_line ''..GC root unknown'' (unat (rr_heap_dump_segments_gc_root_unknown self)) @
            summary_line ''..GC root thread objects'' (unat (rr_heap_dump_segments_gc_root_thread_object self)) @
            summary_line ''..GC root JNI global'' (unat (rr_heap_dump_segments_gc_root_jni_global self)) @
            summary_line ''..GC root JNI local'' (unat (rr_heap_dump_segments_gc_root_jni_local self)) @
            summary_line ''..GC root Java frame'' (unat (rr_heap_dump_segments_gc_root_java_frame self)) @
            summary_line ''..GC root native stack'' (unat (rr_heap_dump_segments_gc_root_native_stack self)) @
            summary_line ''..GC root sticky class'' (unat (rr_heap_dump_segments_gc_root_sticky_class self)) @
            summary_line ''..GC root thread block'' (unat (rr_heap_dump_segments_gc_root_thread_block self)) @
            summary_line ''..GC root monitor used'' (unat (rr_heap_dump_segments_gc_root_monitor_used self)) @
            summary_line ''..GC primitive array dump'' (unat (rr_heap_dump_segments_gc_primitive_array_dump self)) @
            summary_line ''..GC object array dump'' (unat (rr_heap_dump_segments_gc_object_array_dump self)) @
            summary_line ''..GC class dump'' (unat (rr_heap_dump_segments_gc_class_dump self)) @
            ''..GC instance dump: '' @ fmt_nat (unat (rr_heap_dump_segments_gc_instance_dump self))
      in capture_time @ top_summary @ newline @ heap_summary)"

section \<open>The recorder thread\<close>

text \<open>What the thread sends when the channel of records is closed.\<close>

definition recorder_result :: "hash_order \<Rightarrow> result_recorder \<Rightarrow> (panic + rendered_result) option" where
  "recorder_result H self =
     (let (thread_info, missing_class_ids) = render_thread_info H self {}
      in map_option (\<lambda>res. try_then res (\<lambda>(memory_usage, missing_class_ids).
           Inr \<lparr>rs_summary = render_summary self, rs_thread_info = thread_info,
                rs_memory_usage = memory_usage,
                rs_duplicated_strings = render_duplicated_strings H self,
                rs_captured_strings = (if rr_list_strings self then Some (render_captured_strings H self) else None),
                rs_warnings = render_missing_class_warning missing_class_ids\<rparr>))
         (aggregate_memory_usage H self missing_class_ids))"

text \<open>The loop over the vectors of records it receives.\<close>

fun recorder_run :: "hash_order \<Rightarrow> result_recorder \<Rightarrow> hprof_record list list \<Rightarrow> (panic + rendered_result) option" where
  "recorder_run H self [] = recorder_result H self"
| "recorder_run H self (records # batches) =
     (case record_records self records of
        Inl e \<Rightarrow> Some (Inl e)
      | Inr self \<Rightarrow> recorder_run H self batches)"

end
