(* ===== verification/Memory_Laws.thy ===== *)
theory Memory_Laws
  imports Memory_Usage
begin

text \<open>
  Laws of the recorder's report: it does not depend on the order in which the hash maps iterate nor
  on how the records are grouped into vectors, and its rows are those of the classes and arrays of
  the dump.
\<close>

section \<open>Missing classes only accumulate\<close>

text \<open>A computation that threads the set of missing classes and only adds to it.\<close>

definition with_missing :: "u64 set \<Rightarrow> (panic + 'r \<times> u64 set) option \<Rightarrow> (panic + 'r \<times> u64 set) option" where
  "with_missing ms = map_option (map_sum (\<lambda>e. e) (\<lambda>(r, m). (r, ms \<union> m)))"

definition additive :: "(u64 set \<Rightarrow> (panic + 'r \<times> u64 set) option) \<Rightarrow> bool" where
  "additive f \<longleftrightarrow> (\<forall>ms. f ms = with_missing ms (f {}))"

lemma with_missing_simps [simp]:
  "with_missing ms None = None" "with_missing ms (Some (Inl e)) = Some (Inl e)"
  "with_missing ms (Some (Inr (r, m))) = Some (Inr (r, ms \<union> m))"
  by (simp_all add: with_missing_def)

lemma outcome_cases [case_names Loop Panicked Value]:
  fixes res :: "(panic + 'r \<times> u64 set) option"
  obtains "res = None" | e where "res = Some (Inl e)" | r m where "res = Some (Inr (r, m))"
proof (cases res)
  case None
  then show ?thesis by (rule that(1))
next
  case (Some s)
  show ?thesis
  proof (cases s)
    case (Inl e)
    with Some that(2) show ?thesis by simp
  next
    case (Inr p)
    with Some that(3) show ?thesis by (cases p) simp
  qed
qed

lemma additiveD: "additive f \<Longrightarrow> f ms = with_missing ms (f {})"
  unfolding additive_def by (rule spec)

lemma additive_Inr: "additive f \<Longrightarrow> f ms = Some (Inr (r, ms')) \<longleftrightarrow> (\<exists>m. f {} = Some (Inr (r, m)) \<and> ms' = ms \<union> m)"
  by (cases "f {}" rule: outcome_cases) (auto simp: additiveD [of f ms])

lemma class_name_additive:
  "get_class_name_string self c ms = (fst (get_class_name_string self c {}), ms \<union> snd (get_class_name_string self c {}))"
  by (auto simp: get_class_name_string_def split: option.splits)

lemma recursive_additive: "additive (calculate_instance_size_recursive self c)"
proof (cases "chain_ends (hm_get (rr_classes_single_instance_size_by_id self)) c")
  case True
  then show ?thesis unfolding additive_def
  proof (induction rule: chain_ends.induct)
    case (undefined_class c)
    then show ?case
      by (simp add: calculate_instance_size_recursive.simps [of self c] object_header_size_def)
  next
    case (root_class c ci)
    then show ?case
      by (simp add: calculate_instance_size_recursive.simps [of self c] object_header_size_def)
  next
    case (sub_class c ci)
    let ?s = "ci_super_class_object_id ci"
    obtain res where res: "calculate_instance_size_recursive self ?s {} = Some res"
      using recursive_returns [OF sub_class.hyps(3)] by blast
    have "calculate_instance_size_recursive self ?s ms = with_missing ms (Some res)" for ms
      using spec [OF sub_class.IH, of ms] unfolding res .
    moreover have "Some res = None \<or> (\<exists>e. res = Inl e) \<or> (\<exists>r m. res = Inr (r, m))"
      by (cases "Some res" rule: outcome_cases) auto
    ultimately show ?case using sub_class.hyps
      by (elim disjE exE) (simp_all add: calculate_instance_size_recursive.simps [of self c] Let_def
          try_then_def split: sum.split)
  qed
next
  case False
  then have "calculate_instance_size_recursive self c ms = None" for ms
    using recursive_ends by (metis not_None_eq)
  then show ?thesis by (simp add: additive_def)
qed

lemma instance_size_additive: "additive (calculate_instance_size self c)"
  unfolding additive_def
proof
  fix ms
  have r: "calculate_instance_size_recursive self c ms = with_missing ms (calculate_instance_size_recursive self c {})"
    using recursive_additive additiveD by blast
  show "calculate_instance_size self c ms = with_missing ms (calculate_instance_size self c {})"
    unfolding calculate_instance_size_def r
    by (cases "calculate_instance_size_recursive self c {}" rule: outcome_cases)
      (auto simp: try_then_def split: sum.splits)
qed

lemma class_row_additive: "additive (class_row self x)"
  unfolding additive_def
proof
  fix ms
  obtain c v where x: "x = (c, v)" by (cases x)
  obtain n m where n: "get_class_name_string self c {} = (n, m)" by (cases "get_class_name_string self c {}")
  then have n': "get_class_name_string self c ms = (n, ms \<union> m)" by (subst class_name_additive) simp
  have "calculate_instance_size self c (ms \<union> m) = with_missing (ms \<union> m) (calculate_instance_size self c {})"
    "calculate_instance_size self c m = with_missing m (calculate_instance_size self c {})"
    using instance_size_additive additiveD by blast+
  then show "class_row self x ms = with_missing ms (class_row self x {})"
    by (cases "calculate_instance_size self c {}" rule: outcome_cases)
      (simp_all add: class_row_def x n n' Let_def Un_assoc)
qed

lemma primitive_row_additive: "additive (primitive_row x)"
  by (cases x) (simp add: additive_def primitive_row_def)

lemma object_row_additive: "additive (object_row self x)"
  unfolding additive_def
proof
  fix ms
  obtain c v where x: "x = (c, v)" by (cases x)
  obtain n m where n: "get_class_name_string self c {} = (n, m)" by (cases "get_class_name_string self c {}")
  then have n': "get_class_name_string self c ms = (n, ms \<union> m)" by (subst class_name_additive) simp
  show "object_row self x ms = with_missing ms (object_row self x {})"
    by (cases "clean_class_name n") (simp_all add: object_row_def x n n')
qed

section \<open>Iteration order\<close>

definition row_of :: "(u64 set \<Rightarrow> (panic + 'r \<times> u64 set) option) \<Rightarrow> 'r" where
  "row_of f = fst (projr (the (f {})))"

definition missing_of :: "(u64 set \<Rightarrow> (panic + 'r \<times> u64 set) option) \<Rightarrow> u64 set" where
  "missing_of f = snd (projr (the (f {})))"

definition succeeds :: "(u64 set \<Rightarrow> (panic + 'r \<times> u64 set) option) \<Rightarrow> bool" where
  "succeeds f \<longleftrightarrow> (\<exists>r m. f {} = Some (Inr (r, m)))"

lemma collect_rows_iff:
  assumes "\<And>x. additive (f x)"
  shows "collect_rows f xs ms = Some (Inr (rows, ms')) \<longleftrightarrow>
    list_all (\<lambda>x. succeeds (f x)) xs \<and> rows = map (\<lambda>x. row_of (f x)) xs \<and>
    ms' = ms \<union> (\<Union>x \<in> set xs. missing_of (f x))"
proof (induction xs arbitrary: ms rows)
  case (Cons x xs)
  show ?case
  proof (cases "succeeds (f x)")
    case True
    then obtain r m where f: "f x {} = Some (Inr (r, m))" by (auto simp: succeeds_def)
    then have "f x ms = Some (Inr (r, ms \<union> m))" using additiveD [OF assms, of x ms] by simp
    moreover have "row_of (f x) = r" "missing_of (f x) = m" by (simp_all add: row_of_def missing_of_def f)
    ultimately show ?thesis using Cons [of "ms \<union> m" "tl rows"] True
      by (cases rows) (auto simp: try_then_Inr Un_assoc)
  next
    case False
    then have "f x ms \<noteq> Some (Inr (r, m))" for r m
      using additive_Inr [OF assms, of x ms] by (auto simp: succeeds_def)
    then show ?thesis using False by (auto split: option.splits sum.splits)
  qed
qed auto

lemma collect_rows_perm:
  assumes "\<And>x. additive (f x)" and "mset xs = mset ys"
    and "collect_rows f xs ms = Some (Inr (rows, ms'))"
  shows "\<exists>rows'. collect_rows f ys ms = Some (Inr (rows', ms')) \<and> mset rows' = mset rows"
proof -
  from assms(2) have s: "set xs = set ys" by (metis set_mset_mset)
  from assms(3) have "list_all (\<lambda>x. succeeds (f x)) ys" "rows = map (\<lambda>x. row_of (f x)) xs"
    "ms' = ms \<union> (\<Union>x \<in> set ys. missing_of (f x))"
    using s by (simp_all add: collect_rows_iff [OF assms(1)] list_all_iff)
  with assms(2) show ?thesis
    by (intro exI [of _ "map (\<lambda>x. row_of (f x)) ys"]) (simp add: collect_rows_iff [OF assms(1)] mset_map)
qed

lemma stats_key_inj: "inj stats_key"
  by (rule injI) (simp add: stats_key_def)

lemma sort_key_perm: "inj_on f (set xs) \<Longrightarrow> mset xs = mset ys \<Longrightarrow> sort_key f xs = sort_key f ys"
  by (rule sort_key_inj_key_eq) simp_all

context hash_iteration
begin

text \<open>Two iterations, under this order and another, visit the same entries.\<close>

lemma same_entries:
  assumes "hash_iteration H'"
  shows "mset (ho_strings H m1) = mset (ho_strings H' m1)" "mset (ho_instances H m2) = mset (ho_instances H' m2)"
    "mset (ho_primitives H m3) = mset (ho_primitives H' m3)" "mset (ho_objects H m4) = mset (ho_objects H' m4)"
    "mset (ho_traces H m5) = mset (ho_traces H' m5)"
  by (simp_all only: strings_perm instances_perm primitives_perm objects_perm traces_perm
      hash_iteration.strings_perm [OF assms] hash_iteration.instances_perm [OF assms]
      hash_iteration.primitives_perm [OF assms] hash_iteration.objects_perm [OF assms]
      hash_iteration.traces_perm [OF assms])

lemma aggregate_any_order:
  assumes H': "hash_iteration H'" and "aggregate_memory_usage H self ms = Some (Inr (rows, ms'))"
  shows "aggregate_memory_usage H' self ms = Some (Inr (rows, ms'))"
proof -
  from assms(2) obtain r1 m1 r2 m2 r3 where
    c1: "collect_rows (class_row self) (ho_instances H (rr_classes_all_instance_total_size_by_id self)) ms = Some (Inr (r1, m1))"
    and c2: "collect_rows primitive_row (ho_primitives H (rr_primitive_array_counters self)) m1 = Some (Inr (r2, m2))"
    and c3: "collect_rows (object_row self) (ho_objects H (rr_object_array_counters self)) m2 = Some (Inr (r3, ms'))"
    and rows: "rows = sort_key stats_key (r1 @ r2 @ r3)"
    by (auto simp: aggregate_memory_usage_def split: option.splits sum.splits)
  obtain q1 where q1: "collect_rows (class_row self) (ho_instances H' (rr_classes_all_instance_total_size_by_id self)) ms =
      Some (Inr (q1, m1))" "mset q1 = mset r1"
    using collect_rows_perm [OF class_row_additive same_entries(2) [OF H'] c1] by blast
  obtain q2 where q2: "collect_rows primitive_row (ho_primitives H' (rr_primitive_array_counters self)) m1 =
      Some (Inr (q2, m2))" "mset q2 = mset r2"
    using collect_rows_perm [OF primitive_row_additive same_entries(3) [OF H'] c2] by blast
  obtain q3 where q3: "collect_rows (object_row self) (ho_objects H' (rr_object_array_counters self)) m2 =
      Some (Inr (q3, ms'))" "mset q3 = mset r3"
    using collect_rows_perm [OF object_row_additive same_entries(4) [OF H'] c3] by blast
  have "sort_key stats_key (q1 @ q2 @ q3) = sort_key stats_key (r1 @ r2 @ r3)"
    by (rule sort_key_perm) (simp_all add: inj_on_subset [OF stats_key_inj] q1 q2 q3)
  with q1(1) q2(1) q3(1) rows show ?thesis by (simp add: aggregate_memory_usage_def)
qed

lemma captured_any_order:
  assumes "hash_iteration H'"
  shows "captured_values H self = captured_values H' self"
  unfolding captured_values_def by (rule sort_key_perm) (simp_all add: mset_map same_entries [OF assms])

lemma traces_any_order:
  assumes "hash_iteration H'" and "hm_wf m"
  shows "sort_key fst (filter P (ho_traces H m)) = sort_key fst (filter P (ho_traces H' m))"
proof (rule sort_key_perm)
  have s: "set (ho_traces H m) = set m" using traces_perm [of m] by (metis set_mset_mset)
  have "inj_on fst (set m)" using assms(2) by (simp add: hm_wf_def distinct_map)
  then show "inj_on fst (set (filter P (ho_traces H m)))" by (rule inj_on_subset) (auto simp: s)
  show "mset (filter P (ho_traces H m)) = mset (filter P (ho_traces H' m))"
    by (simp add: mset_filter same_entries [OF assms(1)])
qed

lemma recorder_result_any_order:
  assumes H': "hash_iteration H'" and "recorder_inv z self" and "recorder_result H self = Some (Inr r)"
  shows "recorder_result H' self = Some (Inr r)"
proof -
  have wf: "hm_wf (rr_stack_trace_by_serial_number self)" using assms(2) by (simp add: recorder_inv_def)
  have "length (filter P (ho_traces H m)) = length (filter P (ho_traces H' m))" for P m
    by (metis mset_filter same_entries(5) [OF H'] size_mset)
  then have t: "render_thread_info H self ms = render_thread_info H' self ms" for ms
    by (simp only: render_thread_info_def Let_def traces_any_order [OF H' wf] length_sort)
  have s: "render_duplicated_strings H self = render_duplicated_strings H' self"
    "render_captured_strings H self = render_captured_strings H' self"
    by (simp_all add: render_duplicated_strings_def render_captured_strings_def captured_any_order [OF H'])
  show ?thesis using assms(3) aggregate_any_order [OF H']
    by (auto simp: recorder_result_def t s try_then_Inr split: prod.splits)
qed

end

text \<open>The loop over vectors of records: it only depends on the records.\<close>

lemma recorder_run_concat:
  "recorder_run H self batches =
     (case record_records self (concat batches) of Inl e \<Rightarrow> Some (Inl e) | Inr self \<Rightarrow> recorder_result H self)"
proof (induction batches arbitrary: self)
  case (Cons b bs)
  then show ?case by (cases "record_records self b") (simp_all add: record_records_append)
qed simp

section \<open>Rows\<close>

definition class_label :: "result_recorder \<Rightarrow> u64 \<Rightarrow> string" where
  "class_label self c = fst (get_class_name_string self c {})"

lemma aggregate_rows:
  assumes "aggregate_memory_usage insertion_order self ms = Some (Inr (rows, ms'))"
  shows "mset rows = mset (map (\<lambda>x. row_of (class_row self x)) (rr_classes_all_instance_total_size_by_id self)) +
      mset (map (\<lambda>x. row_of (primitive_row x)) (rr_primitive_array_counters self)) +
      mset (map (\<lambda>x. row_of (object_row self x)) (rr_object_array_counters self))"
  using assms
  by (auto simp: aggregate_memory_usage_def insertion_order_def collect_rows_iff class_row_additive
      primitive_row_additive object_row_additive split: option.splits sum.splits)

lemma class_row_value:
  assumes "instance_bytes z (hm_get (rr_classes_single_instance_size_by_id self)) c n ms"
    and "rr_id_size self = z" "z = 4 \<or> z = 8" "round_up 8 n < 2 ^ 32"
  shows "row_of (class_row self (c, v)) = class_allocation_stats_new (class_label self c) (number_of_instances v)
    (word_of_nat (round_up 8 n)) (word_of_nat (round_up 8 n) * number_of_instances v)"
  using instance_size_value [OF assms]
  by (cases "get_class_name_string self c {}") (simp add: row_of_def class_row_def class_label_def Let_def)

section \<open>Array names\<close>

text \<open>A string that does not start in the middle of a character, as every valid string.\<close>

definition starts_at_char :: "string \<Rightarrow> bool" where
  "starts_at_char s \<longleftrightarrow> s = [] \<or> \<not> is_cont (of_char (hd s))"

lemma slice_inner:
  assumes "starts_at_char n" and "k = length p"
  shows "str_slice (p @ n @ '';'') k (length (p @ n @ '';'') - 1) = Inr n"
proof -
  have semi: "\<not> is_cont (of_char CHR '';'')" by code_simp
  have "is_char_boundary (p @ n @ '';'') (length p + length n)"
    using semi by (simp add: is_char_boundary_def nth_append)
  moreover have "is_char_boundary (p @ n @ '';'') (length p)"
    using assms(1) semi by (cases n) (simp_all add: is_char_boundary_def nth_append starts_at_char_def)
  ultimately show ?thesis by (simp add: str_slice_def assms(2))
qed

lemma slice_short: "b < a \<Longrightarrow> str_slice s a b = Inl SliceOutOfRange"
  by (simp add: str_slice_def)

text \<open>The report of a run, for other orders and another grouping of the records.\<close>

lemma recorder_run_any_order:
  assumes "hash_iteration H" and "hash_iteration H'" and "concat batches = concat batches'"
    and "recorder_run H (result_recorder_new z l t) batches = Some (Inr r)"
  shows "recorder_run H' (result_recorder_new z l t) batches' = Some (Inr r)"
proof -
  obtain self where self: "record_records (result_recorder_new z l t) (concat batches) = Inr self"
    using assms(4) by (auto simp: recorder_run_concat split: sum.splits)
  then have inv: "recorder_inv z self" by (rule recorder_inv_records [OF recorder_inv_new])
  have "recorder_result H self = Some (Inr r)" using assms(4) self by (simp add: recorder_run_concat)
  from hash_iteration.recorder_result_any_order [OF assms(1,2) inv this] self assms(3) show ?thesis
    by (simp add: recorder_run_concat)
qed

section \<open>Properties\<close>

text \<open>Property C7: the report does not depend on the hash function. When the recorder reports a
  result, it reports the same result whatever the order in which its maps iterate and however the
  records were grouped into vectors.\<close>

theorem report_is_deterministic:
  assumes "hash_iteration H" and "hash_iteration H'" and "concat batches = concat batches'"
    and "recorder_run H (result_recorder_new z l t) batches = Some (Inr r)"
  shows "recorder_run H' (result_recorder_new z l t) batches' = Some (Inr r)"
  by (rule recorder_run_any_order [OF assms])

theorem report_is_deterministic_witness:
  "\<exists>r. recorder_run insertion_order (result_recorder_new 8 True 0) [[Utf8String 1 ''b''], [Utf8String 2 ''a'']] = Some (Inr r) \<and>
     recorder_run reversed_order (result_recorder_new 8 True 0) [[Utf8String 1 ''b'', Utf8String 2 ''a'']] = Some (Inr r)"
proof -
  obtain r where r: "recorder_run insertion_order (result_recorder_new 8 True 0)
      [[Utf8String 1 ''b''], [Utf8String 2 ''a'']] = Some (Inr r)"
    by (simp add: recorder_result_def render_thread_info_def aggregate_memory_usage_def insertion_order_def
        result_recorder_new_def hm_empty_def Let_def)
  with report_is_deterministic [OF insertion.hash_iteration_axioms reversed.hash_iteration_axioms _ r,
      of "[[Utf8String 1 ''b'', Utf8String 2 ''a'']]"] show ?thesis by simp
qed

text \<open>The rows of the report. The memory usage has one row per class with instances, per
  element type of primitive arrays and per class of object arrays; the row of a class holds its
  name, the number of its instances, the size of one instance and the product of the two.\<close>

lemma memory_usage_rows:
  assumes "hash_iteration H" and "aggregate_memory_usage H self missing = Some (Inr (rows, missing'))"
    and "recorder_inv z self" and "z = 4 \<or> z = 8"
    and "hm_get (rr_classes_all_instance_total_size_by_id self) c = Some v"
    and "instance_bytes z (hm_get (rr_classes_single_instance_size_by_id self)) c n ms" and "round_up 8 n < 2 ^ 32"
  shows "class_allocation_stats_new (class_label self c) (number_of_instances v)
      (word_of_nat (round_up 8 n)) (word_of_nat (round_up 8 n) * number_of_instances v) \<in> set rows \<and>
    length rows = hm_len (rr_classes_all_instance_total_size_by_id self) +
      hm_len (rr_primitive_array_counters self) + hm_len (rr_object_array_counters self)"
proof -
  have "aggregate_memory_usage insertion_order self missing = Some (Inr (rows, missing'))"
    by (rule hash_iteration.aggregate_any_order [OF assms(1) insertion.hash_iteration_axioms assms(2)])
  note rows = aggregate_rows [OF this]
  have z: "rr_id_size self = z" using assms(3) by (simp add: recorder_inv_def)
  have "(c, v) \<in> set (rr_classes_all_instance_total_size_by_id self)"
    using assms(5) by (simp add: hm_get_def map_of_SomeD)
  then have "row_of (class_row self (c, v)) \<in># mset rows" unfolding rows by force
  moreover have "size (mset rows) = hm_len (rr_classes_all_instance_total_size_by_id self) +
      hm_len (rr_primitive_array_counters self) + hm_len (rr_object_array_counters self)"
    unfolding rows by (simp add: hm_len_def)
  ultimately show ?thesis using class_row_value [OF assms(6) z assms(4,7), of v] by simp
qed

text \<open>The label of an array of objects. The name \<open>[Lname;\<close> or \<open>[[Lname;\<close> of an array
  class is reduced to \<open>name\<close>, for every name that does not start in the middle of a character.\<close>

lemma array_name_is_cleaned:
  assumes "starts_at_char n"
  shows "clean_class_name (''[L'' @ n @ '';'') = Inr n \<and> clean_class_name (''[[L'' @ n @ '';'') = Inr n"
  using slice_inner [OF assms, of 2 "''[L''"] slice_inner [OF assms, of 3 "''[[L''"]
  by (simp add: clean_class_name_def)

text \<open>A dump can make the recorder panic while it reports. A class that is named \<open>[L\<close> or
  \<open>[[L\<close>, without a name and a semicolon, and has an array in the dump makes the slice of its name go
  out of range.\<close>

lemma malformed_array_name_panics:
  assumes "name = ''[L'' \<or> name = ''[[L''"
  shows "recorder_run insertion_order (result_recorder_new 8 l t)
     [[Utf8String 1 name,
       LoadClass \<lparr>lc_serial_number = 1, lc_class_object_id = 5, lc_stack_trace_serial_number = 0, lc_class_name_id = 1\<rparr>,
       GcSegment (ObjectArrayDump 9 0 0 5)]] = Some (Inl SliceOutOfRange)"
proof -
  have z: "8 = (4 :: u32) \<or> 8 = (8 :: u32)" by simp
  have "clean_class_name (str_replace CHR ''/'' CHR ''.'' name) = Inl SliceOutOfRange"
    using assms by (auto simp: clean_class_name_def str_replace_def slice_short)
  then show ?thesis
    by (simp add: recorder_result_def render_thread_info_def aggregate_memory_usage_def insertion_order_def
        object_row_def get_class_name_string_def vec_get_def object_array_size_value [OF z]
        result_recorder_new_def hm_empty_def hm_insert_def hm_get_def hm_entry_update_def Let_def)
qed

end
