(* ===== verification/File_Header_Parser.thy ===== *)
theory File_Header_Parser
  imports Primitive_Parsers Rust_Strings
begin

text \<open>
  The file header (\<^verbatim>\<open>src/parser/file_header_parser.rs\<close>), the program's error type
  (\<^verbatim>\<open>src/errors.rs\<close>) and the checks of \<open>slurp_header\<close> (\<^verbatim>\<open>src/slurp.rs\<close>). A reader is the list
  of bytes it has not yet given out. The payloads of the errors that wrap other libraries'
  errors are left out, and their texts are a parameter of \<open>error_display\<close>; the message of
  \<open>InvalidHprofFile\<close> is the debug text of the parser's error, which stands for it here.
\<close>

section \<open>Model\<close>

datatype hprof_slurp_error =
    InputFileNotFound string
  | InvalidIdSize
  | InvalidHeaderSize
  | InvalidHprofFile nom_err
  | ClapError
  | StdIoError
  | StdThreadError panic
  | SerdeError

text \<open>The texts of the errors; a boxed value of unknown type is shown as \<open>Any { .. }\<close>.\<close>

definition error_display :: "(hprof_slurp_error \<Rightarrow> string) \<Rightarrow> hprof_slurp_error \<Rightarrow> string" where
  "error_display library_text e =
     (case e of
        InputFileNotFound name \<Rightarrow> ''input file `'' @ name @ ''` not found''
      | InvalidIdSize \<Rightarrow> ''invalid pointer size - the value should be either `4` or `8`''
      | InvalidHeaderSize \<Rightarrow> ''invalid content after header''
      | InvalidHprofFile _ \<Rightarrow> ''invalid Hprof file - '' @ library_text e
      | ClapError \<Rightarrow> ''CLI argument error ('' @ library_text e @ '')''
      | StdIoError \<Rightarrow> ''standard I/O error ('' @ library_text e @ '')''
      | StdThreadError _ \<Rightarrow> ''standard thread error (Any { .. })''
      | SerdeError \<Rightarrow> ''serialization error ('' @ library_text e @ '')'')"

record file_header =
  fh_format :: string
  fh_size_pointers :: u32
  fh_timestamp :: u64

definition file_header_from_bytes :: "bytes \<Rightarrow> u32 \<Rightarrow> u64 \<Rightarrow> file_header" where
  "file_header_from_bytes format_b size_pointers timestamp =
     \<lparr>fh_format = from_utf8_lossy format_b, fh_size_pointers = size_pointers,
      fh_timestamp = timestamp\<rparr>"

definition parse_file_header :: "nom \<Rightarrow> file_header parser" where
  "parse_file_header N =
     map_p (pair_p (parse_c_string N) (pair_p (parse_u32 N) (parse_u64 N)))
       (\<lambda>(format, size_pointers, timestamp). file_header_from_bytes format size_pointers timestamp)"

definition FILE_HEADER_LENGTH :: usize where
  "FILE_HEADER_LENGTH = 31"

text \<open>The outcome of reading the header: the error or the header, and what the reader still
  holds. The parser raises no panic here; the type keeps the possibility visible.\<close>

definition slurp_header ::
  "nom \<Rightarrow> bytes \<Rightarrow> panic + (hprof_slurp_error + file_header \<times> bytes)" where
  "slurp_header N reader =
     (if length reader < FILE_HEADER_LENGTH then Inr (Inl StdIoError)
      else (case parse_file_header N (take FILE_HEADER_LENGTH reader) of
          Panic e \<Rightarrow> Inl e
        | Err e \<Rightarrow> Inr (Inl (InvalidHprofFile e))
        | Ok rest header \<Rightarrow>
            if fh_size_pointers header \<noteq> 4 \<and> fh_size_pointers header \<noteq> 8
            then Inr (Inl InvalidIdSize)
            else if rest \<noteq> [] then Inr (Inl InvalidHeaderSize)
            else Inr (Inr (header, drop FILE_HEADER_LENGTH reader))))"

text \<open>The header as a writer lays it out.\<close>

definition enc_file_header :: "bytes \<Rightarrow> u32 \<Rightarrow> u64 \<Rightarrow> bytes" where
  "enc_file_header format size_pointers timestamp =
     format @ 0 # be_word 4 size_pointers @ be_word 8 timestamp"

section \<open>Lemmas\<close>

lemma length_enc_file_header [simp]: "length (enc_file_header f z t) = length f + 13"
  by (simp add: enc_file_header_def)

context nom_streaming
begin

lemma file_header_encoded:
  "0 \<notin> set f \<Longrightarrow> parse_file_header N (enc_file_header f z t @ j) = Ok j (file_header_from_bytes f z t)"
  by (simp add: parse_file_header_def enc_file_header_def pair_p_def flat_map_p_def map_p_def
      roundtrip_simps)

lemma fixed_width_split:
  assumes "fixed_width_be k (p :: 'w::len word parser)" "LENGTH('w) = 8 * k" "k \<le> length i"
  shows "\<exists>w r. i = be_word k w @ r \<and> p i = Ok r w"
proof -
  let ?c = "take k i"
  let ?w = "word_of_nat (be_val ?c) :: 'w word"
  have len: "length ?c = k" using assms(3) by simp
  have "be_val ?c < 2 ^ LENGTH('w)" using be_val_bound [of ?c] len assms(2) by (simp add: power_mult)
  then have "unat ?w = be_val ?c" by (simp add: unat_of_nat)
  then have "be_word k ?w = ?c" using be_enc_be_val [of ?c] len by (simp add: be_word_def)
  moreover have "p i = Ok (drop k i) ?w" using assms by (simp add: fixed_width_be_def)
  ultimately show ?thesis by (metis append_take_drop_id)
qed

text \<open>Inversion: what a successful run has read.\<close>

lemma parse_file_header_Ok:
  assumes "parse_file_header N i = Ok r h"
  obtains f z t where "0 \<notin> set f" and "i = enc_file_header f z t @ r"
    and "h = file_header_from_bytes f z t"
proof -
  from assms obtain r1 f r2 z t where
    c: "parse_c_string N i = Ok r1 f" and z: "parse_u32 N r1 = Ok r2 z"
    and t: "parse_u64 N r2 = Ok r t" and h: "h = file_header_from_bytes f z t"
    by (auto simp: parse_file_header_def pair_p_def flat_map_p_def map_p_def split: iresult.splits)
  from z have "4 \<le> length r1" using consumesD [OF consumes_primitives(3) z] by simp
  with fixed_width_split [OF primitive_laws(3)] z have "r1 = be_word 4 z @ r2" by fastforce
  moreover from t have "8 \<le> length r2" using consumesD [OF consumes_primitives(4) t] by simp
  with fixed_width_split [OF primitive_laws(4)] t have "r2 = be_word 8 t @ r" by fastforce
  ultimately have "i = enc_file_header f z t @ r"
    using parse_c_string_Ok [OF c] by (simp add: enc_file_header_def)
  with parse_c_string_Ok [OF c] h that show ?thesis by blast
qed

lemma parse_c_string_no_zero: "0 \<notin> set i \<Longrightarrow> parse_c_string N i = Err (Incomplete Unknown)"
  using take_until_ok by (simp add: parse_c_string_def terminated_p_def flat_map_p_def take_until_law_def)

lemma parse_file_header_no_panic: "parse_file_header N i \<noteq> Panic e"
proof -
  have "panics_in {} (parse_c_string N)"
    unfolding panics_in_def
  proof (intro allI impI)
    fix i e
    assume p: "parse_c_string N i = Panic e"
    show "e \<in> {}"
    proof (cases "0 \<in> set i")
      case True
      then obtain f r where "i = f @ 0 # r" "0 \<notin> set f" by (metis split_list_first)
      with p parse_c_string_append show ?thesis by simp
    qed (use p parse_c_string_no_zero in simp)
  qed
  then have "panics_in {} (parse_file_header N)"
    unfolding parse_file_header_def by (intro progress_intros)
  then show ?thesis by (auto simp: panics_in_def)
qed

lemma slurp_header_accepts:
  assumes "length f = 18" "0 \<notin> set f" "z = 4 \<or> z = 8"
  shows "slurp_header N (enc_file_header f z t @ rest) = Inr (Inr (file_header_from_bytes f z t, rest))"
proof -
  have "parse_file_header N (enc_file_header f z t) = Ok [] (file_header_from_bytes f z t)"
    using file_header_encoded [OF assms(2), of z t "[]"] by simp
  with assms show ?thesis
    by (auto simp: slurp_header_def FILE_HEADER_LENGTH_def file_header_from_bytes_def)
qed

lemma slurp_header_Ok:
  assumes "slurp_header N reader = Inr (Inr (h, rest))"
  shows "\<exists>f z t. length f = 18 \<and> 0 \<notin> set f \<and> (z = 4 \<or> z = 8) \<and>
    reader = enc_file_header f z t @ rest \<and> h = file_header_from_bytes f z t"
proof -
  have long: "31 \<le> length reader" and p: "parse_file_header N (take 31 reader) = Ok [] h"
    and z: "fh_size_pointers h = 4 \<or> fh_size_pointers h = 8" and rest: "rest = drop 31 reader"
    using assms
    by (auto simp: slurp_header_def FILE_HEADER_LENGTH_def split: if_splits iresult.splits)
  from p obtain f z t where f: "0 \<notin> set f" and i: "take 31 reader = enc_file_header f z t @ []"
    and h: "h = file_header_from_bytes f z t" by (rule parse_file_header_Ok)
  from arg_cong [OF i, of length] long have "length f = 18" by simp
  moreover have "reader = enc_file_header f z t @ rest"
    using append_take_drop_id [of 31 reader] i rest by simp
  ultimately show ?thesis using f h z by (auto simp: file_header_from_bytes_def)
qed

end

section \<open>Properties\<close>

text \<open>Property C31: what the header check accepts. The header is accepted exactly when the file
  starts with a format name of 18 bytes other than zero, a zero byte, an identifier size of 4 or 8
  and a timestamp; the header returned holds these values and the reader stands right after
  them.\<close>

theorem slurp_header_accepts_iff:
  assumes "nom_streaming N"
  shows "slurp_header N reader = Inr (Inr (h, rest)) \<longleftrightarrow>
    (\<exists>f z t. length f = 18 \<and> 0 \<notin> set f \<and> (z = 4 \<or> z = 8) \<and>
       reader = enc_file_header f z t @ rest \<and> h = file_header_from_bytes f z t)"
  using nom_streaming.slurp_header_accepts [OF assms] nom_streaming.slurp_header_Ok [OF assms] by blast

theorem slurp_header_accepts_iff_witness:
  "slurp_header nom_ref (enc_file_header (replicate 18 65) 8 9 @ [1, 2]) =
     Inr (Inr (file_header_from_bytes (replicate 18 65) 8 9, [1, 2]))"
proof -
  have "length (replicate 18 (65 :: u8)) = 18" "0 \<notin> set (replicate 18 (65 :: u8))" by simp_all
  then show ?thesis using slurp_header_accepts_iff [OF ref.nom_streaming_axioms] by blast
qed

text \<open>Property C32: reading a header never panics; a file that is refused gives one of the four
  errors: an input error for a file shorter than the header, a parse error when the first 31 bytes
  do not hold a whole header, and otherwise an error for the identifier size or for a header of
  another size.\<close>

theorem slurp_header_errors:
  assumes "nom_streaming N"
  shows "\<exists>res. slurp_header N reader = Inr res \<and>
    (case res of
       Inl StdIoError \<Rightarrow> length reader < 31
     | Inl (InvalidHprofFile e) \<Rightarrow> 31 \<le> length reader \<and> parse_file_header N (take 31 reader) = Err e
     | Inl InvalidIdSize \<Rightarrow> \<exists>r h. parse_file_header N (take 31 reader) = Ok r h \<and>
         fh_size_pointers h \<noteq> 4 \<and> fh_size_pointers h \<noteq> 8
     | Inl InvalidHeaderSize \<Rightarrow> \<exists>r h. parse_file_header N (take 31 reader) = Ok r h \<and> r \<noteq> []
     | Inl _ \<Rightarrow> False
     | Inr (h, rest) \<Rightarrow> rest = drop 31 reader)"
  using nom_streaming.parse_file_header_no_panic [OF assms, of "take 31 reader"]
  by (auto simp: slurp_header_def FILE_HEADER_LENGTH_def split: iresult.splits)

theorem slurp_header_errors_witness:
  "\<exists>res. slurp_header nom_ref (replicate 30 7) = Inr res \<and>
    (case res of
       Inl StdIoError \<Rightarrow> length (replicate 30 (7 :: u8)) < 31
     | Inl (InvalidHprofFile e) \<Rightarrow> 31 \<le> length (replicate 30 (7 :: u8)) \<and>
         parse_file_header nom_ref (take 31 (replicate 30 7)) = Err e
     | Inl InvalidIdSize \<Rightarrow> \<exists>r h. parse_file_header nom_ref (take 31 (replicate 30 7)) = Ok r h \<and>
         fh_size_pointers h \<noteq> 4 \<and> fh_size_pointers h \<noteq> 8
     | Inl InvalidHeaderSize \<Rightarrow> \<exists>r h. parse_file_header nom_ref (take 31 (replicate 30 7)) = Ok r h \<and> r \<noteq> []
     | Inl _ \<Rightarrow> False
     | Inr (h, rest) \<Rightarrow> rest = drop 31 (replicate 30 7))"
  by (rule slurp_header_errors [OF ref.nom_streaming_axioms])

end
