(* ===== verification/Prefetch_Reader.thy ===== *)
theory Prefetch_Reader
  imports Slurp_Prelude
begin

text \<open>
  The pre-fetching thread of \<^verbatim>\<open>src/prefetch_reader.rs\<close>. The reader is the list of bytes left in
  the file; the loop sends one buffer after another until the announced file length is reached.
  It is a partial function: with a read size of 0 it would send empty buffers forever. A
  pooled buffer is resized and then filled completely, so its old contents do not matter.
\<close>

section \<open>Model\<close>

record prefetch_reader =
  pr_reader :: bytes
  pr_file_len :: usize
  pr_processed_len :: usize
  pr_read_size :: usize

definition prefetch_reader_new :: "bytes \<Rightarrow> usize \<Rightarrow> usize \<Rightarrow> usize \<Rightarrow> prefetch_reader" where
  "prefetch_reader_new reader file_len processed_len read_size =
     \<lparr>pr_reader = reader, pr_file_len = file_len, pr_processed_len = processed_len,
      pr_read_size = read_size\<rparr>"

text \<open>The subtraction of 64-bit \<open>usize\<close> values wraps.\<close>

definition usize_sub :: "usize \<Rightarrow> usize \<Rightarrow> usize" where
  "usize_sub a b = (if b \<le> a then a - b else a + 2 ^ 64 - b)"

text \<open>The buffers sent, and the panic that ended the thread if there was one.\<close>

partial_function (option) prefetch_loop :: "prefetch_reader \<Rightarrow> (bytes list \<times> panic option) option" where
  "prefetch_loop self =
     (if pr_processed_len self = pr_file_len self then Some ([], None)
      else
        (let remaining = usize_sub (pr_file_len self) (pr_processed_len self);
             next_size = min remaining (pr_read_size self)
         in if length (pr_reader self) < next_size then Some ([], Some ReadBufferFailed)
            else Option.bind
              (prefetch_loop (self\<lparr>pr_reader := drop next_size (pr_reader self),
                                   pr_processed_len := pr_processed_len self + next_size\<rparr>))
              (\<lambda>(sent, e). Some (take next_size (pr_reader self) # sent, e))))"

text \<open>The specification: a byte sequence cut into pieces of a given size.\<close>

fun chunks_of :: "nat \<Rightarrow> bytes \<Rightarrow> bytes list" where
  "chunks_of k bs = (if bs = [] \<or> k = 0 then [] else take k bs # chunks_of k (drop k bs))"

declare chunks_of.simps [simp del]

section \<open>Lemmas\<close>

lemma concat_chunks_of: "0 < k \<Longrightarrow> concat (chunks_of k bs) = bs"
  by (induction k bs rule: chunks_of.induct) (simp add: chunks_of.simps)

lemma chunks_of_sizes: "c \<in> set (chunks_of k bs) \<Longrightarrow> c \<noteq> [] \<and> length c \<le> k"
proof (induction k bs rule: chunks_of.induct)
  case (1 k bs)
  then show ?case by (auto simp: chunks_of.simps [of k bs] split: if_splits)
qed

lemma prefetch_loop_chunks:
  assumes "0 < pr_read_size self" and "pr_processed_len self \<le> pr_file_len self"
    and "length (pr_reader self) = pr_file_len self - pr_processed_len self"
  shows "prefetch_loop self = Some (chunks_of (pr_read_size self) (pr_reader self), None)"
  using assms
proof (induction "length (pr_reader self)" arbitrary: self rule: less_induct)
  case less
  show ?case
  proof (cases "pr_processed_len self = pr_file_len self")
    case True
    with less.prems(3) show ?thesis by (simp add: prefetch_loop.simps chunks_of.simps)
  next
    case False
    let ?n = "min (pr_file_len self - pr_processed_len self) (pr_read_size self)"
    let ?self' = "self\<lparr>pr_reader := drop ?n (pr_reader self),
        pr_processed_len := pr_processed_len self + ?n\<rparr>"
    have "prefetch_loop ?self' = Some (chunks_of (pr_read_size ?self') (pr_reader ?self'), None)"
      by (rule less.hyps) (use False less.prems in auto)
    moreover have "take ?n (pr_reader self) = take (pr_read_size self) (pr_reader self)"
      "drop ?n (pr_reader self) = drop (pr_read_size self) (pr_reader self)"
      using less.prems(3) by (simp_all add: min_def)
    moreover have "pr_reader self \<noteq> []" using False less.prems by auto
    ultimately show ?thesis
      using False less.prems
      by (simp add: prefetch_loop.simps [of self] chunks_of.simps [of _ "pr_reader self"]
          usize_sub_def Let_def)
  qed
qed

text \<open>A file shorter than announced ends the thread with the read error.\<close>

lemma prefetch_loop_short:
  assumes "0 < pr_read_size self" and "pr_processed_len self \<le> pr_file_len self"
    and "length (pr_reader self) < pr_file_len self - pr_processed_len self"
  shows "\<exists>sent. prefetch_loop self = Some (sent, Some ReadBufferFailed)"
  using assms
proof (induction "length (pr_reader self)" arbitrary: self rule: less_induct)
  case less
  let ?n = "min (pr_file_len self - pr_processed_len self) (pr_read_size self)"
  show ?case
  proof (cases "length (pr_reader self) < ?n")
    case True
    with less.prems show ?thesis
      by (simp add: prefetch_loop.simps [of self] usize_sub_def Let_def)
  next
    case False
    let ?self' = "self\<lparr>pr_reader := drop ?n (pr_reader self),
        pr_processed_len := pr_processed_len self + ?n\<rparr>"
    have "\<exists>sent. prefetch_loop ?self' = Some (sent, Some ReadBufferFailed)"
      by (rule less.hyps) (use False less.prems in auto)
    with False less.prems show ?thesis
      by (auto simp: prefetch_loop.simps [of self] usize_sub_def Let_def)
  qed
qed

section \<open>Properties\<close>

text \<open>The pre-fetching thread sends the whole file. When the reader holds the bytes that
  are announced, the loop ends without a panic, the buffers it sent put together are exactly these
  bytes, and each buffer holds between one byte and the read size.\<close>

lemma prefetch_sends_file:
  assumes "0 < read_size" and "processed_len + length reader = file_len"
  shows "\<exists>sent. prefetch_loop (prefetch_reader_new reader file_len processed_len read_size) = Some (sent, None)
     \<and> concat sent = reader \<and> list_all (\<lambda>b. 1 \<le> length b \<and> length b \<le> read_size) sent"
  using prefetch_loop_chunks [of "prefetch_reader_new reader file_len processed_len read_size"] assms
    concat_chunks_of [of read_size reader] chunks_of_sizes [of _ read_size reader]
  by (fastforce simp: prefetch_reader_new_def list_all_iff Suc_le_eq)

text \<open>A file that is cut while it is read ends the thread with the panic of the failed
  read, never with a silent end.\<close>

lemma prefetch_short_file:
  assumes "0 < read_size" and "processed_len + length reader < file_len"
  shows "\<exists>sent. prefetch_loop (prefetch_reader_new reader file_len processed_len read_size) =
     Some (sent, Some ReadBufferFailed)"
  using prefetch_loop_short [of "prefetch_reader_new reader file_len processed_len read_size"] assms
  by (fastforce simp: prefetch_reader_new_def)

end
