(* ===== verification/Slurp_Threads.thy ===== *)
theory Slurp_Threads
  imports Parsed_Records Memory_Laws File_Header_Parser Prefetch_Reader
begin

text \<open>
  The threads of \<open>slurp_file\<close> (\<^verbatim>\<open>src/slurp.rs\<close>) as a step relation: the pre-fetcher, the parser, the
  recorder and the main thread with the unbounded channels between them. A step is what a thread
  does between two points where it may block or where the outcome depends on another thread being
  alive. A channel is the list of the messages in it; it is closed for its receiver when the sending
  thread has ended and the list is empty, and closed for its sender when the receiving thread has
  ended. The pools of buffers and of record vectors carry only empty vectors, so the model counts
  them. The progress bar and the spawning of threads are left out.
\<close>

section \<open>Threads and channels\<close>

definition READ_BUFFER_SIZE :: usize where
  "READ_BUFFER_SIZE = 64 * 1024 * 1024"

text \<open>The pre-fetcher waits for a buffer of the pool, or has a buffer to send.\<close>

datatype prefetch_thread = PF_Want prefetch_reader | PF_Send prefetch_reader bytes | PF_Done | PF_Dead panic

text \<open>The parser waits for data, waits for an empty vector of the pool with the records it has
  read, or has a vector of records to send.\<close>

datatype parser_thread =
    PS_Recv stream_parser
  | PS_Want stream_parser "hprof_record list"
  | PS_Send stream_parser "hprof_record list"
  | PS_Done
  | PS_Dead panic

datatype recorder_thread = RC_Recv result_recorder | RC_Done | RC_Dead panic

text \<open>The main thread follows the progress, waits for the result, joins the threads, and has
  returned or panicked.\<close>

datatype main_thread =
    M_Progress
  | M_Result
  | M_Join rendered_result
  | M_Finished "hprof_slurp_error + rendered_result"
  | M_Aborted

record sys =
  s_pf :: prefetch_thread
  s_data :: "bytes list"
  s_pooled_data :: nat
  s_ps :: parser_thread
  s_progress :: "usize list"
  s_records :: "hprof_record list list"
  s_pooled_vecs :: nat
  s_rc :: recorder_thread
  s_result :: "rendered_result list"
  s_main :: main_thread

fun pf_alive :: "prefetch_thread \<Rightarrow> bool" where
  "pf_alive (PF_Want _) = True"
| "pf_alive (PF_Send _ _) = True"
| "pf_alive PF_Done = False"
| "pf_alive (PF_Dead _) = False"

fun ps_alive :: "parser_thread \<Rightarrow> bool" where
  "ps_alive (PS_Recv _) = True"
| "ps_alive (PS_Want _ _) = True"
| "ps_alive (PS_Send _ _) = True"
| "ps_alive PS_Done = False"
| "ps_alive (PS_Dead _) = False"

fun rc_alive :: "recorder_thread \<Rightarrow> bool" where
  "rc_alive (RC_Recv _) = True"
| "rc_alive RC_Done = False"
| "rc_alive (RC_Dead _) = False"

definition slurp_init :: "bool \<Rightarrow> bool \<Rightarrow> file_header \<Rightarrow> usize \<Rightarrow> bytes \<Rightarrow> sys" where
  "slurp_init debug_mode list_strings header file_len reader =
     (let id_size = fh_size_pointers header
      in \<lparr>s_pf = PF_Want (prefetch_reader_new reader file_len FILE_HEADER_LENGTH READ_BUFFER_SIZE),
          s_data = [], s_pooled_data = 2,
          s_ps = PS_Recv (stream_parser_new debug_mode id_size file_len FILE_HEADER_LENGTH []),
          s_progress = [], s_records = [], s_pooled_vecs = 1,
          s_rc = RC_Recv (result_recorder_new id_size list_strings (fh_timestamp header)),
          s_result = [], s_main = M_Progress\<rparr>)"

definition next_size :: "prefetch_reader \<Rightarrow> usize" where
  "next_size self = min (usize_sub (pr_file_len self) (pr_processed_len self)) (pr_read_size self)"

section \<open>Steps\<close>

inductive step :: "nom \<Rightarrow> hash_order \<Rightarrow> sys \<Rightarrow> sys \<Rightarrow> bool" for N H where
  pf_end: "s_pf s = PF_Want pr \<Longrightarrow> pr_processed_len pr = pr_file_len pr \<Longrightarrow>
    step N H s (s\<lparr>s_pf := PF_Done\<rparr>)"
| pf_read: "s_pf s = PF_Want pr \<Longrightarrow> pr_processed_len pr \<noteq> pr_file_len pr \<Longrightarrow> s_pooled_data s = Suc k \<Longrightarrow>
    next_size pr \<le> length (pr_reader pr) \<Longrightarrow>
    step N H s (s\<lparr>s_pooled_data := k,
      s_pf := PF_Send (pr\<lparr>pr_reader := drop (next_size pr) (pr_reader pr),
          pr_processed_len := pr_processed_len pr + next_size pr\<rparr>) (take (next_size pr) (pr_reader pr))\<rparr>)"
| pf_short: "s_pf s = PF_Want pr \<Longrightarrow> pr_processed_len pr \<noteq> pr_file_len pr \<Longrightarrow> s_pooled_data s = Suc k \<Longrightarrow>
    length (pr_reader pr) < next_size pr \<Longrightarrow>
    step N H s (s\<lparr>s_pooled_data := k, s_pf := PF_Dead ReadBufferFailed\<rparr>)"
| pf_starved: "s_pf s = PF_Want pr \<Longrightarrow> pr_processed_len pr \<noteq> pr_file_len pr \<Longrightarrow> s_pooled_data s = 0 \<Longrightarrow>
    \<not> ps_alive (s_ps s) \<Longrightarrow> step N H s (s\<lparr>s_pf := PF_Dead ChannelClosed\<rparr>)"
| pf_send: "s_pf s = PF_Send pr b \<Longrightarrow> ps_alive (s_ps s) \<Longrightarrow>
    step N H s (s\<lparr>s_pf := PF_Want pr, s_data := s_data s @ [b]\<rparr>)"
| pf_closed: "s_pf s = PF_Send pr b \<Longrightarrow> \<not> ps_alive (s_ps s) \<Longrightarrow>
    step N H s (s\<lparr>s_pf := PF_Dead ChannelClosed\<rparr>)"
| ps_silent: "s_ps s = PS_Recv sp \<Longrightarrow> s_data s = b # bs \<Longrightarrow>
    stream_iteration N sp b [] = Some (Inr (sp', Silent)) \<Longrightarrow>
    step N H s (s\<lparr>s_data := bs, s_pooled_data := Suc (s_pooled_data s), s_ps := PS_Recv sp'\<rparr>)"
| ps_emit: "s_ps s = PS_Recv sp \<Longrightarrow> s_data s = b # bs \<Longrightarrow>
    stream_iteration N sp b [] = Some (Inr (sp', Emit n rs)) \<Longrightarrow>
    step N H s (s\<lparr>s_data := bs, s_pooled_data := Suc (s_pooled_data s), s_progress := s_progress s @ [n],
      s_ps := PS_Want sp' rs\<rparr>)"
| ps_panic: "s_ps s = PS_Recv sp \<Longrightarrow> s_data s = b # bs \<Longrightarrow>
    stream_iteration N sp b [] = Some (Inl e) \<Longrightarrow>
    step N H s (s\<lparr>s_data := bs, s_pooled_data := Suc (s_pooled_data s), s_ps := PS_Dead e\<rparr>)"
| ps_end: "s_ps s = PS_Recv sp \<Longrightarrow> s_data s = [] \<Longrightarrow> \<not> pf_alive (s_pf s) \<Longrightarrow>
    step N H s (s\<lparr>s_ps := PS_Done\<rparr>)"
| ps_vec: "s_ps s = PS_Want sp rs \<Longrightarrow> s_pooled_vecs s = Suc k \<Longrightarrow>
    step N H s (s\<lparr>s_pooled_vecs := k, s_ps := PS_Send sp rs\<rparr>)"
| ps_no_vec: "s_ps s = PS_Want sp rs \<Longrightarrow> s_pooled_vecs s = 0 \<Longrightarrow> \<not> rc_alive (s_rc s) \<Longrightarrow>
    step N H s (s\<lparr>s_ps := PS_Dead ChannelClosed\<rparr>)"
| ps_send: "s_ps s = PS_Send sp rs \<Longrightarrow> rc_alive (s_rc s) \<Longrightarrow>
    step N H s (s\<lparr>s_records := s_records s @ [rs], s_ps := PS_Recv sp\<rparr>)"
| ps_closed: "s_ps s = PS_Send sp rs \<Longrightarrow> \<not> rc_alive (s_rc s) \<Longrightarrow>
    step N H s (s\<lparr>s_ps := PS_Dead ChannelClosed\<rparr>)"
| rc_record: "s_rc s = RC_Recv rr \<Longrightarrow> s_records s = b # bs \<Longrightarrow> record_records rr b = Inr rr' \<Longrightarrow>
    step N H s (s\<lparr>s_records := bs, s_pooled_vecs := Suc (s_pooled_vecs s), s_rc := RC_Recv rr'\<rparr>)"
| rc_panic: "s_rc s = RC_Recv rr \<Longrightarrow> s_records s = b # bs \<Longrightarrow> record_records rr b = Inl e \<Longrightarrow>
    step N H s (s\<lparr>s_records := bs, s_rc := RC_Dead e\<rparr>)"
| rc_report: "s_rc s = RC_Recv rr \<Longrightarrow> s_records s = [] \<Longrightarrow> \<not> ps_alive (s_ps s) \<Longrightarrow>
    recorder_result H rr = Some (Inr r) \<Longrightarrow> step N H s (s\<lparr>s_result := s_result s @ [r], s_rc := RC_Done\<rparr>)"
| rc_fail: "s_rc s = RC_Recv rr \<Longrightarrow> s_records s = [] \<Longrightarrow> \<not> ps_alive (s_ps s) \<Longrightarrow>
    recorder_result H rr = Some (Inl e) \<Longrightarrow> step N H s (s\<lparr>s_rc := RC_Dead e\<rparr>)"
| main_progress: "s_main s = M_Progress \<Longrightarrow> s_progress s = n # ns \<Longrightarrow> step N H s (s\<lparr>s_progress := ns\<rparr>)"
| main_drained: "s_main s = M_Progress \<Longrightarrow> s_progress s = [] \<Longrightarrow> \<not> ps_alive (s_ps s) \<Longrightarrow>
    step N H s (s\<lparr>s_main := M_Result\<rparr>)"
| main_result: "s_main s = M_Result \<Longrightarrow> s_result s = r # rs \<Longrightarrow>
    step N H s (s\<lparr>s_result := rs, s_main := M_Join r\<rparr>)"
| main_abort: "s_main s = M_Result \<Longrightarrow> s_result s = [] \<Longrightarrow> \<not> rc_alive (s_rc s) \<Longrightarrow>
    step N H s (s\<lparr>s_main := M_Aborted\<rparr>)"
| join_pf: "s_main s = M_Join r \<Longrightarrow> s_pf s = PF_Dead e \<Longrightarrow>
    step N H s (s\<lparr>s_main := M_Finished (Inl (StdThreadError e))\<rparr>)"
| join_ps: "s_main s = M_Join r \<Longrightarrow> s_pf s = PF_Done \<Longrightarrow> s_ps s = PS_Dead e \<Longrightarrow>
    step N H s (s\<lparr>s_main := M_Finished (Inl (StdThreadError e))\<rparr>)"
| join_rc: "s_main s = M_Join r \<Longrightarrow> s_pf s = PF_Done \<Longrightarrow> s_ps s = PS_Done \<Longrightarrow> s_rc s = RC_Dead e \<Longrightarrow>
    step N H s (s\<lparr>s_main := M_Finished (Inl (StdThreadError e))\<rparr>)"
| join_all: "s_main s = M_Join r \<Longrightarrow> s_pf s = PF_Done \<Longrightarrow> s_ps s = PS_Done \<Longrightarrow> s_rc s = RC_Done \<Longrightarrow>
    step N H s (s\<lparr>s_main := M_Finished (Inr r)\<rparr>)"

fun main_over :: "main_thread \<Rightarrow> bool" where
  "main_over (M_Finished _) = True"
| "main_over M_Aborted = True"
| "main_over _ = False"

section \<open>The function\<close>

text \<open>\<open>slurp_file\<close> on the contents of a file (none when it cannot be opened or inspected): it returns,
  or the main thread panics. Which outcomes a file has is a relation, as the threads interleave.\<close>

datatype slurp_end = Returned "hprof_slurp_error + file_header \<times> rendered_result" | Crashed

inductive slurp_file :: "nom \<Rightarrow> hash_order \<Rightarrow> bytes option \<Rightarrow> bool \<Rightarrow> bool \<Rightarrow> slurp_end \<Rightarrow> bool"
  for N H dump_file debug_mode list_strings where
  no_file: "dump_file = None \<Longrightarrow> slurp_file N H dump_file debug_mode list_strings (Returned (Inl StdIoError))"
| header_panics: "dump_file = Some b \<Longrightarrow> slurp_header N b = Inl e \<Longrightarrow>
    slurp_file N H dump_file debug_mode list_strings Crashed"
| header_refused: "dump_file = Some b \<Longrightarrow> slurp_header N b = Inr (Inl e) \<Longrightarrow>
    slurp_file N H dump_file debug_mode list_strings (Returned (Inl e))"
| returns: "dump_file = Some b \<Longrightarrow> slurp_header N b = Inr (Inr (header, reader)) \<Longrightarrow>
    (step N H)\<^sup>*\<^sup>* (slurp_init debug_mode list_strings header (length b) reader) s \<Longrightarrow>
    s_main s = M_Finished res \<Longrightarrow>
    slurp_file N H dump_file debug_mode list_strings (Returned (map_sum (\<lambda>e. e) (Pair header) res))"
| crashes: "dump_file = Some b \<Longrightarrow> slurp_header N b = Inr (Inr (header, reader)) \<Longrightarrow>
    (step N H)\<^sup>*\<^sup>* (slurp_init debug_mode list_strings header (length b) reader) s \<Longrightarrow>
    s_main s = M_Aborted \<Longrightarrow> slurp_file N H dump_file debug_mode list_strings Crashed"

inductive_cases slurp_fileE: "slurp_file N H (Some b) debug_mode list_strings out"

end
