(* ===== verification/Slurp_Invariant.thy ===== *)
theory Slurp_Invariant
  imports Slurp_Threads
begin

text \<open>
  The invariant of the pipeline and its preservation by every step. It has four parts: no byte of the
  file is lost between the pre-fetcher and the parser, the parser has read exactly the records of the
  bytes it received, the recorder has recorded exactly what the parser sent, and the pools keep their
  buffers. The bytes received and the records recorded are ghost values, arguments of the invariant.
\<close>

section \<open>Invariant\<close>

fun pf_dead :: "prefetch_thread \<Rightarrow> bool" where
  "pf_dead (PF_Dead _) = True"
| "pf_dead _ = False"

fun ps_dead :: "parser_thread \<Rightarrow> bool" where
  "ps_dead (PS_Dead _) = True"
| "ps_dead _ = False"

text \<open>The bytes the pre-fetcher has not sent yet, and the records the parser has not sent yet.\<close>

fun unsent :: "prefetch_thread \<Rightarrow> bytes" where
  "unsent (PF_Want pr) = pr_reader pr"
| "unsent (PF_Send pr b) = b @ pr_reader pr"
| "unsent _ = []"

fun in_hand :: "parser_thread \<Rightarrow> hprof_record list" where
  "in_hand (PS_Want _ rs) = rs"
| "in_hand (PS_Send _ rs) = rs"
| "in_hand _ = []"

definition reader_ok :: "usize \<Rightarrow> prefetch_reader \<Rightarrow> bool" where
  "reader_ok file_len pr \<longleftrightarrow> pr_file_len pr = file_len \<and> 0 < pr_read_size pr \<and>
     pr_processed_len pr + length (pr_reader pr) = file_len"

fun pf_ok :: "usize \<Rightarrow> prefetch_thread \<Rightarrow> bool" where
  "pf_ok file_len (PF_Want pr) = reader_ok file_len pr"
| "pf_ok file_len (PF_Send pr b) = reader_ok file_len pr"
| "pf_ok file_len _ = True"

text \<open>The bytes: what the parser has received, what is in the channel and what is not sent yet are
  the contents of the file, unless the pre-fetcher has died, which happens after the parser only.\<close>

definition data_inv :: "bytes \<Rightarrow> usize \<Rightarrow> bytes \<Rightarrow> sys \<Rightarrow> bool" where
  "data_inv contents file_len recvd s \<longleftrightarrow>
     pf_ok file_len (s_pf s) \<and> (pf_dead (s_pf s) \<longrightarrow> s_pf s = PF_Dead ChannelClosed \<and> ps_dead (s_ps s)) \<and>
     (\<not> pf_dead (s_pf s) \<longrightarrow> recvd @ concat (s_data s) @ unsent (s_pf s) = contents)"

text \<open>What the file holds for the parser: records and an incomplete end, or something that makes
  it panic.\<close>

definition reads_all :: "nom \<Rightarrow> hprof_record_parser \<Rightarrow> bytes \<Rightarrow> hprof_record list \<Rightarrow> bool" where
  "reads_all N p0 contents xs \<longleftrightarrow> (\<exists>p r. parses (parse_hprof_record N) p0 contents xs (Waiting p r))"

definition fails_after :: "nom \<Rightarrow> hprof_record_parser \<Rightarrow> bytes \<Rightarrow> hprof_record list \<Rightarrow> panic \<Rightarrow> bool" where
  "fails_after N p0 contents xs e \<longleftrightarrow>
     (\<exists>ys. parses (parse_hprof_record N) p0 contents (xs @ ys) (Panicked e))"

text \<open>The parser: after the bytes \<open>recvd\<close> the records \<open>xs\<close> have been read; once it has
  ended, the whole file has been parsed or does not parse.\<close>

fun ps_ok :: "nom \<Rightarrow> hprof_record_parser \<Rightarrow> bytes \<Rightarrow> usize \<Rightarrow> bytes \<Rightarrow> hprof_record list \<Rightarrow> parser_thread \<Rightarrow> bool" where
  "ps_ok N p0 contents file_len recvd xs (PS_Recv sp) =
     (stream_inv N p0 FILE_HEADER_LENGTH sp recvd xs \<and> sp_file_len sp = file_len)"
| "ps_ok N p0 contents file_len recvd xs (PS_Want sp rs) =
     (stream_inv N p0 FILE_HEADER_LENGTH sp recvd (xs @ rs) \<and> sp_file_len sp = file_len)"
| "ps_ok N p0 contents file_len recvd xs (PS_Send sp rs) =
     (stream_inv N p0 FILE_HEADER_LENGTH sp recvd (xs @ rs) \<and> sp_file_len sp = file_len)"
| "ps_ok N p0 contents file_len recvd xs PS_Done =
     reads_all N p0 contents xs"
| "ps_ok N p0 contents file_len recvd xs (PS_Dead e) =
     fails_after N p0 contents xs e"

definition parser_inv ::
  "nom \<Rightarrow> hprof_record_parser \<Rightarrow> bytes \<Rightarrow> usize \<Rightarrow> bytes \<Rightarrow> hprof_record list \<Rightarrow> sys \<Rightarrow> bool" where
  "parser_inv N p0 contents file_len recvd xs s \<longleftrightarrow>
     ps_ok N p0 contents file_len recvd (xs @ concat (s_records s)) (s_ps s) \<and>
     (s_ps s = PS_Done \<longrightarrow> s_pf s = PF_Done) \<and>
     list_all recordable (xs @ concat (s_records s))"

text \<open>The recorder and the main thread: the recorder has recorded the records \<open>xs\<close>; it ends after
  the parser, with the report of \<open>xs\<close> on its way to the main thread, or with a panic of the
  report.\<close>

fun rc_ok :: "hash_order \<Rightarrow> result_recorder \<Rightarrow> hprof_record list \<Rightarrow> rendered_result list \<Rightarrow> main_thread \<Rightarrow> recorder_thread \<Rightarrow> bool" where
  "rc_ok H rr0 xs results m (RC_Recv rr) =
     (record_records rr0 xs = Inr rr \<and> results = [] \<and> (m = M_Progress \<or> m = M_Result))"
| "rc_ok H rr0 xs results m RC_Done =
     (\<exists>r. recorder_run H rr0 [xs] = Some (Inr r) \<and>
       (results = [r] \<and> (m = M_Progress \<or> m = M_Result) \<or>
        m = M_Join r \<or> m = M_Finished (Inr r) \<or> (\<exists>e. m = M_Finished (Inl (StdThreadError e)))))"
| "rc_ok H rr0 xs results m (RC_Dead e) =
     (recorder_run H rr0 [xs] = Some (Inl e) \<and> results = [] \<and> (m = M_Progress \<or> m = M_Result \<or> m = M_Aborted))"

text \<open>Success is reported when all threads have ended well, an error when the parser has died.\<close>

fun main_ok :: "prefetch_thread \<Rightarrow> parser_thread \<Rightarrow> main_thread \<Rightarrow> bool" where
  "main_ok pf ps (M_Finished (Inr r)) = (ps = PS_Done)"
| "main_ok pf ps (M_Finished (Inl e)) =
     (\<exists>p. e = StdThreadError p \<and> ps_dead ps \<and> (pf = PF_Dead p \<or> ps = PS_Dead p))"
| "main_ok pf ps _ = True"

definition recorder_inv_sys :: "hash_order \<Rightarrow> result_recorder \<Rightarrow> hprof_record list \<Rightarrow> sys \<Rightarrow> bool" where
  "recorder_inv_sys H rr0 xs s \<longleftrightarrow>
     rc_ok H rr0 xs (s_result s) (s_main s) (s_rc s) \<and>
     (ps_alive (s_ps s) \<longrightarrow> rc_alive (s_rc s) \<and> s_main s = M_Progress) \<and>
     (\<not> rc_alive (s_rc s) \<longrightarrow> s_records s = []) \<and>
     main_ok (s_pf s) (s_ps s) (s_main s)"

text \<open>The pools: a buffer is in the pool, in the channel or in the hands of the pre-fetcher.\<close>

definition pool_inv :: "sys \<Rightarrow> bool" where
  "pool_inv s \<longleftrightarrow>
     (\<not> pf_dead (s_pf s) \<longrightarrow>
        s_pooled_data s + length (s_data s) + (case s_pf s of PF_Send _ _ \<Rightarrow> 1 | _ \<Rightarrow> 0) = 2) \<and>
     s_pooled_vecs s + length (s_records s) + (case s_ps s of PS_Send _ _ \<Rightarrow> 1 | _ \<Rightarrow> 0) = 1"

definition sys_inv ::
  "nom \<Rightarrow> hash_order \<Rightarrow> hprof_record_parser \<Rightarrow> result_recorder \<Rightarrow> bytes \<Rightarrow> bytes \<Rightarrow> hprof_record list \<Rightarrow> sys \<Rightarrow> bool" where
  "sys_inv N H p0 rr0 contents recvd xs s \<longleftrightarrow>
     data_inv contents (FILE_HEADER_LENGTH + length contents) recvd s \<and>
     parser_inv N p0 contents (FILE_HEADER_LENGTH + length contents) recvd xs s \<and>
     recorder_inv_sys H rr0 xs s \<and> pool_inv s"

lemmas sys_inv_defs = sys_inv_def data_inv_def parser_inv_def recorder_inv_sys_def pool_inv_def

section \<open>Preservation\<close>

lemma next_size_ok:
  assumes "reader_ok file_len pr" and "pr_processed_len pr \<noteq> pr_file_len pr"
  shows "next_size pr = min (length (pr_reader pr)) (pr_read_size pr)" and "0 < next_size pr"
  using assms by (auto simp: reader_ok_def next_size_def usize_sub_def)

lemma ps_dead_if: "\<not> ps_alive p \<Longrightarrow> p \<noteq> PS_Done \<Longrightarrow> ps_dead p"
  by (cases p) simp_all

lemma main_ok_pf [simp]:
  "main_ok (PF_Want pr) ps m = main_ok PF_Done ps m" "main_ok (PF_Send pr b) ps m = main_ok PF_Done ps m"
  by (cases "(PF_Done, ps, m)" rule: main_ok.cases; simp)+

lemma main_ok_pf_dead: "main_ok PF_Done ps m \<Longrightarrow> main_ok (PF_Dead e) ps m"
  by (cases "(PF_Done, ps, m)" rule: main_ok.cases) auto

lemma rc_ok_mains:
  "rc_ok H rr0 xs rs M_Result rc = rc_ok H rr0 xs rs M_Progress rc"
  "rc_ok H rr0 xs (r # rs) M_Progress rc \<longleftrightarrow> rs = [] \<and> rc = RC_Done \<and> recorder_run H rr0 [xs] = Some (Inr r)"
  "rc_ok H rr0 xs rs (M_Join r) rc \<longleftrightarrow> rc = RC_Done \<and> recorder_run H rr0 [xs] = Some (Inr r)"
  by (cases rc; auto)+

lemma rc_ok_abort: "\<not> rc_alive rc \<Longrightarrow> rc_ok H rr0 xs [] M_Progress rc \<Longrightarrow> rc_ok H rr0 xs [] M_Aborted rc"
  by (cases rc) auto

context nom_streaming
begin

text \<open>What has been read of the beginning is read first of the whole.\<close>

lemma parsed_prefix:
  assumes w: "parses (parse_hprof_record N) p0 d xs (Waiting p r)"
    and q: "parses (parse_hprof_record N) p0 (d @ d') ys out"
  shows "prefix xs ys"
proof -
  obtain zs out' where "parses (parse_hprof_record N) p (r @ d') zs out'" using hprof.parses_total by blast
  with hprof.parses_resume w have "parses (parse_hprof_record N) p0 (d @ d') (xs @ zs) out'" by blast
  from hprof.parses_deterministic [OF q this] show ?thesis by auto
qed

text \<open>An iteration of the parser thread in a state of the invariant returns, and keeps the
  invariant of the parser or fails where parsing the file fails.\<close>

lemma iteration_in_sys:
  assumes inv: "sys_inv N H p0 rr0 contents recvd xs s" and ps: "s_ps s = PS_Recv sp" and d: "s_data s = b # bs"
  shows iteration_returns: "\<exists>res. stream_iteration N sp b [] = Some res"
    and iteration_panic: "stream_iteration N sp b [] = Some (Inl e) \<Longrightarrow>
            fails_after N p0 contents (xs @ concat (s_records s)) e"
    and iteration_ok: "stream_iteration N sp b [] = Some (Inr (sp', em)) \<Longrightarrow>
            stream_inv N p0 FILE_HEADER_LENGTH sp' (recvd @ b) (xs @ concat (s_records s) @ emitted em) \<and>
            sp_file_len sp' = FILE_HEADER_LENGTH + length contents"
proof -
  let ?rest = "concat bs @ unsent (s_pf s)"
  from inv ps d have c: "contents = (recvd @ b) @ ?rest"
    and st: "stream_inv N p0 FILE_HEADER_LENGTH sp recvd (xs @ concat (s_records s))"
    and fl: "sp_file_len sp = FILE_HEADER_LENGTH + length contents"
    by (auto simp: sys_inv_defs)
  from c fl have "FILE_HEADER_LENGTH + length (recvd @ b) \<le> sp_file_len sp" by simp
  note it = stream_iteration_cases [OF st this]
  from it show "\<exists>res. stream_iteration N sp b [] = Some res" by blast
  show "fails_after N p0 contents (xs @ concat (s_records s)) e"
    if it_e: "stream_iteration N sp b [] = Some (Inl e)"
  proof -
    from it it_e obtain ys where "parses (parse_hprof_record N) p0 (recvd @ b) ys (Panicked e)" by auto
    from hprof.parses_panic_append [OF this, of ?rest]
    have p: "parses (parse_hprof_record N) p0 (recvd @ (b @ ?rest)) ys (Panicked e)" by simp
    from parsed_prefix [OF st [unfolded stream_inv_def, THEN conjunct1] p] p show ?thesis
      unfolding c fails_after_def by (auto simp: prefix_def)
  qed
  show "stream_inv N p0 FILE_HEADER_LENGTH sp' (recvd @ b) (xs @ concat (s_records s) @ emitted em) \<and>
      sp_file_len sp' = FILE_HEADER_LENGTH + length contents"
    if "stream_iteration N sp b [] = Some (Inr (sp', em))"
    using that it fl by auto
qed

text \<open>The parser's steps that change what is known of the file, and the recorder's.\<close>

lemma ps_recv_preserves:
  assumes inv: "sys_inv N H p0 rr0 contents recvd xs s" and ps: "s_ps s = PS_Recv sp" and d: "s_data s = b # bs"
  shows "stream_iteration N sp b [] = Some (Inl e) \<Longrightarrow>
      sys_inv N H p0 rr0 contents (recvd @ b) xs
        (s\<lparr>s_data := bs, s_pooled_data := Suc (s_pooled_data s), s_ps := PS_Dead e\<rparr>)"
    and "stream_iteration N sp b [] = Some (Inr (sp', Silent)) \<Longrightarrow>
      sys_inv N H p0 rr0 contents (recvd @ b) xs
        (s\<lparr>s_data := bs, s_pooled_data := Suc (s_pooled_data s), s_ps := PS_Recv sp'\<rparr>)"
    and "stream_iteration N sp b [] = Some (Inr (sp', Emit n rs)) \<Longrightarrow>
      sys_inv N H p0 rr0 contents (recvd @ b) xs
        (s\<lparr>s_data := bs, s_pooled_data := Suc (s_pooled_data s), s_progress := s_progress s @ [n],
           s_ps := PS_Want sp' rs\<rparr>)"
  using assms
  by (auto simp: sys_inv_defs dest: iteration_ok [OF assms] iteration_panic [OF assms])

lemma ps_end_preserves:
  assumes "sys_inv N H p0 rr0 contents recvd xs s" and "s_ps s = PS_Recv sp" and "s_data s = []"
    and "\<not> pf_alive (s_pf s)"
  shows "sys_inv N H p0 rr0 contents recvd xs (s\<lparr>s_ps := PS_Done\<rparr>)"
  using assms by (cases "s_pf s") (auto simp: sys_inv_defs stream_inv_def reads_all_def)

lemma ps_send_preserves:
  assumes "sys_inv N H p0 rr0 contents recvd xs s" and "s_ps s = PS_Send sp rs"
  shows "sys_inv N H p0 rr0 contents recvd xs (s\<lparr>s_records := s_records s @ [rs], s_ps := PS_Recv sp\<rparr>)"
proof -
  from assms have "stream_inv N p0 FILE_HEADER_LENGTH sp recvd (xs @ concat (s_records s) @ rs)"
    by (auto simp: sys_inv_defs)
  then have "list_all recordable (xs @ concat (s_records s) @ rs)"
    unfolding stream_inv_def using parses_recordable by blast
  with assms show ?thesis by (auto simp: sys_inv_defs)
qed

lemma rc_record_preserves:
  assumes "sys_inv N H p0 rr0 contents recvd xs s" and "s_rc s = RC_Recv rr" and "s_records s = b # bs"
    and "record_records rr b = Inr rr'"
  shows "sys_inv N H p0 rr0 contents recvd (xs @ b)
     (s\<lparr>s_records := bs, s_pooled_vecs := Suc (s_pooled_vecs s), s_rc := RC_Recv rr'\<rparr>)"
  using assms by (auto simp: sys_inv_defs record_records_append)

lemma rc_accepts:
  assumes "sys_inv N H p0 rr0 contents recvd xs s" and "s_rc s = RC_Recv rr" and "s_records s = b # bs"
    and "rr_id_size rr0 = 4 \<or> rr_id_size rr0 = 8"
  shows "\<exists>rr'. record_records rr b = Inr rr'"
  using assms record_records_accepts [of rr0 "xs @ b"]
  by (auto simp: sys_inv_defs record_records_append)

lemma step_preserves:
  assumes "step N H s s'" and inv: "sys_inv N H p0 rr0 contents recvd xs s"
    and z: "rr_id_size rr0 = 4 \<or> rr_id_size rr0 = 8"
  shows "\<exists>recvd' xs'. sys_inv N H p0 rr0 contents recvd' xs' s'"
  using assms(1)
proof (cases rule: step.cases)
  case (pf_short pr k)
  with inv next_size_ok [of "FILE_HEADER_LENGTH + length contents" pr] show ?thesis
    by (auto simp: sys_inv_defs)
next
  case (ps_silent sp b bs sp')
  with ps_recv_preserves [OF inv] show ?thesis by blast
next
  case (ps_emit sp b bs sp' n rs)
  with ps_recv_preserves [OF inv] show ?thesis by blast
next
  case (ps_panic sp b bs e)
  with ps_recv_preserves [OF inv] show ?thesis by blast
next
  case (ps_end sp)
  with ps_end_preserves [OF inv] show ?thesis by blast
next
  case (ps_send sp rs)
  with ps_send_preserves [OF inv] show ?thesis by blast
next
  case (rc_record rr b bs rr')
  with rc_record_preserves [OF inv] show ?thesis by blast
next
  case (rc_panic rr b bs e)
  with rc_accepts [OF inv] z show ?thesis by fastforce
qed (insert inv, (rule exI [of _ recvd], rule exI [of _ xs]) [1],
     (auto simp: sys_inv_defs reader_ok_def ps_dead_if rc_ok_mains intro: rc_ok_abort main_ok_pf_dead) [1])+

end

end
