(* ===== verification/Slurp_Pipeline.thy ===== *)
theory Slurp_Pipeline
  imports Slurp_Invariant
begin

text \<open>
  What the pipeline of \<open>slurp_file\<close> guarantees: its first state satisfies the invariant, no reachable
  state is a deadlock, every step lowers a weight, so that every run ends, and the outcome is the
  report of the records of the file or the error of a thread. The sequential specification is in
  the predicates \<open>reads_all\<close> and \<open>fails_after\<close> and in \<open>recorder_run\<close>.
\<close>

section \<open>The start of the pipeline\<close>

definition parser_start :: "bool \<Rightarrow> file_header \<Rightarrow> hprof_record_parser" where
  "parser_start debug_mode header = hprof_record_parser_new debug_mode (fh_size_pointers header)"

definition recorder_start :: "bool \<Rightarrow> file_header \<Rightarrow> result_recorder" where
  "recorder_start list_strings header =
     result_recorder_new (fh_size_pointers header) list_strings (fh_timestamp header)"

abbreviation start_of :: "bool \<Rightarrow> bool \<Rightarrow> file_header \<Rightarrow> bytes \<Rightarrow> sys" where
  "start_of debug_mode list_strings header contents \<equiv>
     slurp_init debug_mode list_strings header (FILE_HEADER_LENGTH + length contents) contents"

definition supported_header :: "file_header \<Rightarrow> bool" where
  "supported_header header \<longleftrightarrow> fh_size_pointers header = 4 \<or> fh_size_pointers header = 8"

lemma recorder_start_id_size [simp]: "rr_id_size (recorder_start ls header) = fh_size_pointers header"
  by (simp add: recorder_start_def result_recorder_new_def)

fun pf_weight :: "prefetch_thread \<Rightarrow> nat" where
  "pf_weight (PF_Want pr) = 20 * length (pr_reader pr) + 2"
| "pf_weight (PF_Send pr b) = 20 * length (pr_reader pr) + 17"
| "pf_weight _ = 0"

fun ps_weight :: "parser_thread \<Rightarrow> nat" where
  "ps_weight (PS_Recv _) = 1"
| "ps_weight (PS_Want _ _) = 7"
| "ps_weight (PS_Send _ _) = 6"
| "ps_weight _ = 0"

fun main_weight :: "main_thread \<Rightarrow> nat" where
  "main_weight M_Progress = 4"
| "main_weight M_Result = 3"
| "main_weight (M_Join _) = 2"
| "main_weight _ = 0"

definition weight :: "sys \<Rightarrow> nat" where
  "weight s = pf_weight (s_pf s) + 12 * length (s_data s) + ps_weight (s_ps s) + length (s_progress s) +
     3 * length (s_records s) + (if rc_alive (s_rc s) then 1 else 0) + main_weight (s_main s)"

context nom_streaming
begin

lemma start_inv:
  "sys_inv N H (parser_start dbg header) (recorder_start ls header) contents [] [] (start_of dbg ls header contents)"
  using stream_inv_new [of dbg "fh_size_pointers header" FILE_HEADER_LENGTH]
  by (auto simp: sys_inv_defs slurp_init_def parser_start_def recorder_start_def Let_def
      prefetch_reader_new_def reader_ok_def READ_BUFFER_SIZE_def stream_parser_new_def)

lemma reachable_inv:
  assumes "(step N H)\<^sup>*\<^sup>* (start_of dbg ls header contents) s" and "supported_header header"
  shows "\<exists>recvd xs. sys_inv N H (parser_start dbg header) (recorder_start ls header) contents recvd xs s"
  using assms(1)
proof (induction rule: rtranclp_induct)
  case base
  show ?case using start_inv by blast
next
  case (step s s')
  with step_preserves assms(2) show ?case by (fastforce simp: supported_header_def)
qed

section \<open>No deadlock\<close>

text \<open>A thread that is not blocked can move.\<close>

lemma prefetcher_moves:
  assumes inv: "sys_inv N H p0 rr0 contents recvd xs s" and pf: "pf_alive (s_pf s)"
    and free: "0 < s_pooled_data s \<or> \<not> ps_alive (s_ps s) \<or> (\<exists>pr b. s_pf s = PF_Send pr b)"
  shows "\<exists>s'. step N H s s'"
proof (cases "s_pf s")
  case (PF_Want pr)
  with free obtain k where "pr_processed_len pr = pr_file_len pr \<or> s_pooled_data s = Suc k \<or>
      s_pooled_data s = 0 \<and> \<not> ps_alive (s_ps s)" by (cases "s_pooled_data s") auto
  with PF_Want show ?thesis by (meson step.pf_end step.pf_read step.pf_short step.pf_starved not_le)
next
  case (PF_Send pr b)
  then show ?thesis by (meson step.pf_send step.pf_closed)
qed (use pf in simp_all)

lemma recorder_records:
  assumes "s_rc s = RC_Recv rr" and "s_records s \<noteq> []"
  shows "\<exists>s'. step N H s s'"
proof -
  from assms(2) obtain b bs where "s_records s = b # bs" by (cases "s_records s") auto
  with assms(1) show ?thesis by (cases "record_records rr b") (blast intro: step.rc_record step.rc_panic)+
qed

lemma parser_or_other_moves:
  assumes inv: "sys_inv N H p0 rr0 contents recvd xs s" and ps: "ps_alive (s_ps s)"
  shows "\<exists>s'. step N H s s'"
proof (cases "s_ps s")
  case (PS_Recv sp)
  show ?thesis
  proof (cases "s_data s")
    case Nil
    show ?thesis
    proof (cases "pf_alive (s_pf s)")
      case True
      have "0 < s_pooled_data s \<or> (\<exists>pr b. s_pf s = PF_Send pr b)"
        using inv Nil True by (cases "s_pf s") (auto simp: sys_inv_defs)
      with prefetcher_moves [OF inv True] show ?thesis by blast
    qed (use PS_Recv Nil in \<open>blast intro: step.ps_end\<close>)
  next
    case (Cons b bs)
    from iteration_returns [OF inv PS_Recv Cons] obtain res where it: "stream_iteration N sp b [] = Some res" ..
    show ?thesis
    proof (cases res)
      case (Inl e)
      with it PS_Recv Cons show ?thesis by (blast intro: step.ps_panic)
    next
      case (Inr r)
      obtain sp' em where "r = (sp', em)" by (cases r)
      with it Inr PS_Recv Cons show ?thesis
        by (cases em) (blast intro: step.ps_silent step.ps_emit)+
    qed
  qed
next
  case (PS_Want sp rs)
  show ?thesis
  proof (cases "s_pooled_vecs s")
    case 0
    with inv PS_Want have "s_records s \<noteq> []" "\<exists>rr. s_rc s = RC_Recv rr"
      by (auto simp: sys_inv_defs elim: rc_alive.elims)
    then show ?thesis using recorder_records by blast
  qed (use PS_Want in \<open>blast intro: step.ps_vec\<close>)
next
  case (PS_Send sp rs)
  then show ?thesis by (meson step.ps_send step.ps_closed)
qed (use ps in simp_all)

lemma joinable:
  assumes inv: "sys_inv N H p0 rr0 contents recvd xs s" and m: "s_main s = M_Join r"
  shows "\<exists>s'. step N H s s'"
proof -
  from inv m have rc: "s_rc s = RC_Done" and ps: "\<not> ps_alive (s_ps s)"
    by (auto simp: sys_inv_defs rc_ok_mains)
  show ?thesis
  proof (cases "s_pf s")
    case PF_Done
    with m rc ps show ?thesis by (cases "s_ps s") (auto intro: step.join_ps step.join_all)
  next
    case (PF_Dead e)
    with m show ?thesis by (blast intro: step.join_pf)
  qed (use prefetcher_moves [OF inv] ps in auto)
qed

lemma not_stuck:
  assumes inv: "sys_inv N H p0 rr0 contents recvd xs s" and open_: "\<not> main_over (s_main s)"
    and returns: "recorder_run H rr0 [xs] \<noteq> None"
  shows "\<exists>s'. step N H s s'"
proof (cases "ps_alive (s_ps s)")
  case True
  with parser_or_other_moves [OF inv] show ?thesis .
next
  case ended: False
  have recorder: "\<exists>s'. step N H s s'" if rc: "s_rc s = RC_Recv rr" for rr
  proof (cases "s_records s = []")
    case True
    from rc inv returns obtain res where "recorder_result H rr = Some res" by (auto simp: sys_inv_defs)
    with True ended rc show ?thesis by (cases res) (blast intro: step.rc_report step.rc_fail)+
  qed (use recorder_records rc in blast)
  show ?thesis
  proof (cases "s_main s")
    case M_Progress
    with ended show ?thesis by (cases "s_progress s") (blast intro: step.main_progress step.main_drained)+
  next
    case M_Result
    show ?thesis
    proof (cases "s_result s")
      case Nil
      with M_Result have "\<exists>s'. step N H s s'" if "\<not> rc_alive (s_rc s)"
        using that by (blast intro: step.main_abort)
      with recorder show ?thesis by (cases "s_rc s") auto
    qed (use M_Result in \<open>blast intro: step.main_result\<close>)
  next
    case (M_Join r)
    with joinable [OF inv] show ?thesis by blast
  qed (use open_ in simp_all)
qed

section \<open>Termination\<close>

text \<open>Every step lowers a weight. A byte not yet read outweighs all that its buffer can cause.\<close>

lemma step_decreases:
  assumes "step N H s s'" and inv: "sys_inv N H p0 rr0 contents recvd xs s"
  shows "weight s' < weight s"
  using assms(1)
proof (cases rule: step.cases)
  case (pf_read pr k)
  with inv have "reader_ok (FILE_HEADER_LENGTH + length contents) pr" by (simp add: sys_inv_defs)
  from next_size_ok [OF this] pf_read have "0 < next_size pr" "next_size pr \<le> length (pr_reader pr)" by auto
  with pf_read show ?thesis by (simp add: weight_def)
qed (auto simp: weight_def)

lemma run_bound:
  assumes "(step N H ^^ k) (start_of dbg ls header contents) s" and "supported_header header"
  shows "k + weight s \<le> weight (start_of dbg ls header contents)"
  using assms(1)
proof (induction k arbitrary: s)
  case (Suc k)
  then obtain s1 where k: "(step N H ^^ k) (start_of dbg ls header contents) s1" and st: "step N H s1 s"
    by auto
  from k have "(step N H)\<^sup>*\<^sup>* (start_of dbg ls header contents) s1" by (rule relpowp_imp_rtranclp)
  with reachable_inv [OF _ assms(2)] step_decreases [OF st] have "weight s < weight s1" by blast
  with Suc.IH [OF k] show ?case by simp
qed simp

text \<open>So from every reachable state some run leads to a state without a next step.\<close>

lemma reaches_end:
  assumes "(step N H)\<^sup>*\<^sup>* (start_of dbg ls header contents) s" and "supported_header header"
  shows "\<exists>s'. (step N H)\<^sup>*\<^sup>* s s' \<and> (\<nexists>s''. step N H s' s'')"
  using assms(1)
proof (induction "weight s" arbitrary: s rule: less_induct)
  case less
  show ?case
  proof (cases "\<exists>s''. step N H s s''")
    case True
    then obtain s'' where st: "step N H s s''" ..
    with reachable_inv [OF less.prems assms(2)] step_decreases have "weight s'' < weight s" by blast
    from less.hyps [OF this] less.prems st show ?thesis
      by (meson converse_rtranclp_into_rtranclp rtranclp.rtrancl_into_rtrancl)
  qed blast
qed

section \<open>What the threads compute\<close>

lemma finished_ok:
  assumes "sys_inv N H p0 rr0 contents recvd xs s" and "s_main s = M_Finished (Inr r)"
  shows "reads_all N p0 contents xs \<and> recorder_run H rr0 [xs] = Some (Inr r)"
  using assms by (cases "s_rc s") (auto simp: sys_inv_defs)

text \<open>What has been recorded, sent and read is the beginning of what the file holds.\<close>

lemma recorded_prefix:
  assumes inv: "sys_inv N H p0 rr0 contents recvd xs s"
    and p: "parses (parse_hprof_record N) p0 contents ys out"
  shows "prefix (xs @ concat (s_records s) @ in_hand (s_ps s)) ys"
proof -
  let ?zs = "concat (s_records s) @ in_hand (s_ps s)"
  from inv consider
      (reading) sp where "\<not> pf_dead (s_pf s)" "stream_inv N p0 FILE_HEADER_LENGTH sp recvd (xs @ ?zs)"
    | (whole) "reads_all N p0 contents (xs @ ?zs)"
    | (failed) e where "fails_after N p0 contents (xs @ ?zs) e"
    by (cases "s_ps s") (auto simp: sys_inv_defs)
  then have "prefix (xs @ ?zs) ys"
  proof cases
    case reading
    with inv obtain d' where "contents = recvd @ d'" by (auto simp: sys_inv_defs)
    with parsed_prefix [of p0 recvd "xs @ ?zs"] reading(2) p show ?thesis
      unfolding stream_inv_def by blast
  next
    case whole
    with hprof.parses_deterministic [OF p] show ?thesis by (auto simp: reads_all_def)
  next
    case failed
    with hprof.parses_deterministic [OF p] show ?thesis by (fastforce simp: fails_after_def prefix_def)
  qed
  then show ?thesis by simp
qed

lemma header_ok:
  assumes "slurp_header N b = Inr (Inr (h, rest))"
  shows "length b = FILE_HEADER_LENGTH + length rest" and "supported_header h"
  using slurp_header_Ok [OF assms]
  by (auto simp: FILE_HEADER_LENGTH_def supported_header_def file_header_from_bytes_def)

lemma reads_all_unique: "reads_all N p0 d xs \<Longrightarrow> reads_all N p0 d ys \<Longrightarrow> xs = ys"
  using hprof.parses_deterministic unfolding reads_all_def by blast

lemma reads_or_fails: "reads_all N p0 d xs \<Longrightarrow> \<not> fails_after N p0 d ys e"
  using hprof.parses_deterministic unfolding reads_all_def fails_after_def by blast

text \<open>A file that can be read: the pipeline can move until it has returned the report.\<close>

lemma good_file_moves:
  assumes h: "supported_header header" and all: "reads_all N (parser_start dbg header) contents xs"
    and rep: "recorder_run H (recorder_start ls header) [xs] = Some (Inr r)"
    and run: "(step N H)\<^sup>*\<^sup>* (start_of dbg ls header contents) s"
  shows "(\<exists>s'. step N H s s') \<or> s_main s = M_Finished (Inr r)"
proof -
  from reachable_inv [OF run h] obtain recvd ys where
    inv: "sys_inv N H (parser_start dbg header) (recorder_start ls header) contents recvd ys s" by blast
  have no_panic: "\<not> ps_dead (s_ps s)"
    using inv reads_or_fails [OF all] by (cases "s_ps s") (auto simp: sys_inv_defs)
  show ?thesis
  proof (cases "s_ps s = PS_Done \<and> s_records s = []")
    case True
    with inv reads_all_unique [OF all] have "ys = xs" by (auto simp: sys_inv_defs)
    with inv rep no_panic not_stuck [OF inv] show ?thesis
      by (cases "s_main s"; cases "s_rc s") (auto simp: sys_inv_defs)
  next
    case False
    show ?thesis
    proof (cases "ps_alive (s_ps s)")
      case True
      with parser_or_other_moves [OF inv] show ?thesis by blast
    next
      case ended: False
      with False no_panic ps_dead_if have "s_records s \<noteq> []" by blast
      with inv have "\<exists>rr. s_rc s = RC_Recv rr" by (auto simp: sys_inv_defs elim: rc_alive.elims)
      with recorder_records \<open>s_records s \<noteq> []\<close> show ?thesis by blast
    qed
  qed
qed

lemma good_file_completes:
  assumes "slurp_header N b = Inr (Inr (h, rest))" and "reads_all N (parser_start dbg h) rest xs"
    and "recorder_run H (recorder_start ls h) [xs] = Some (Inr r)"
  shows "slurp_file N H (Some b) dbg ls (Returned (Inr (h, r)))"
proof -
  note ok = header_ok [OF assms(1)]
  obtain s where s: "(step N H)\<^sup>*\<^sup>* (start_of dbg ls h rest) s" "\<nexists>s'. step N H s s'"
    using reaches_end [OF rtranclp.rtrancl_refl ok(2)] by blast
  from good_file_moves [OF ok(2) assms(2,3) s(1)] s(2) have "s_main s = M_Finished (Inr r)" by blast
  from slurp_file.returns [OF refl assms(1) _ this, of H dbg ls] s(1) ok(1) show ?thesis by simp
qed

lemma slurp_file_Inr:
  assumes "slurp_file N H (Some b) dbg ls (Returned (Inr (h, r)))"
  shows "\<exists>rest xs. slurp_header N b = Inr (Inr (h, rest)) \<and> reads_all N (parser_start dbg h) rest xs \<and>
     recorder_run H (recorder_start ls h) [xs] = Some (Inr r)"
  using assms
proof (rule slurp_fileE)
  fix header reader s and res :: "hprof_slurp_error + rendered_result"
  assume out: "Returned (Inr (h, r)) = Returned (map_sum (\<lambda>e. e) (Pair header) res)"
    and hd: "slurp_header N b = Inr (Inr (header, reader))"
    and run: "(step N H)\<^sup>*\<^sup>* (slurp_init dbg ls header (length b) reader) s" and m: "s_main s = M_Finished res"
  note ok = header_ok [OF hd]
  from out have "header = h" "res = Inr r" by (cases res; simp)+
  with reachable_inv [of H dbg ls header reader s] run ok m finished_ok hd show ?thesis by metis
qed simp_all

text \<open>It is the only outcome.\<close>

lemma good_state:
  assumes inv: "sys_inv N H p0 rr0 contents recvd ys s" and all: "reads_all N p0 contents xs"
    and rep: "recorder_run H rr0 [xs] = Some (Inr r)"
  shows "s_main s = M_Finished res \<Longrightarrow> res = Inr r" and "s_main s \<noteq> M_Aborted"
proof -
  have alive: "\<not> ps_dead (s_ps s)"
    using inv reads_or_fails [OF all] by (cases "s_ps s") (auto simp: sys_inv_defs)
  have ended: "ys = xs" if "\<not> rc_alive (s_rc s)" "s_main s \<noteq> M_Progress"
  proof -
    from inv that alive ps_dead_if have "s_ps s = PS_Done" "s_records s = []"
      by (auto simp: sys_inv_defs)
    with inv reads_all_unique [OF all] show ?thesis by (auto simp: sys_inv_defs)
  qed
  show "res = Inr r" if m: "s_main s = M_Finished res"
  proof (cases res)
    case (Inl e)
    with inv m alive show ?thesis by (auto simp: sys_inv_defs)
  next
    case (Inr r')
    with inv m ended rep show ?thesis by (cases "s_rc s") (auto simp: sys_inv_defs)
  qed
  show "s_main s \<noteq> M_Aborted"
    using inv ended rep by (cases "s_rc s") (auto simp: sys_inv_defs)
qed

lemma good_file_outcome:
  assumes hd: "slurp_header N b = Inr (Inr (h, rest))" and "reads_all N (parser_start dbg h) rest xs"
    and "recorder_run H (recorder_start ls h) [xs] = Some (Inr r)"
    and out: "slurp_file N H (Some b) dbg ls out"
  shows "out = Returned (Inr (h, r))"
proof -
  note ok = header_ok [OF hd]
  have inv: "\<exists>recvd ys. sys_inv N H (parser_start dbg h) (recorder_start ls h) rest recvd ys s"
    if "(step N H)\<^sup>*\<^sup>* (slurp_init dbg ls h (length b) rest) s" for s
    using reachable_inv [OF _ ok(2)] that ok(1) by simp
  note good = good_state [OF _ assms(2,3)]
  from out show ?thesis
  proof (rule slurp_fileE)
    fix header reader s res
    assume "out = Returned (map_sum (\<lambda>e. e) (Pair header) res)" "slurp_header N b = Inr (Inr (header, reader))"
      "(step N H)\<^sup>*\<^sup>* (slurp_init dbg ls header (length b) reader) s" "s_main s = M_Finished res"
    with hd inv good(1) show ?thesis by fastforce
  next
    fix header reader s
    assume "slurp_header N b = Inr (Inr (header, reader))"
      "(step N H)\<^sup>*\<^sup>* (slurp_init dbg ls header (length b) reader) s" "s_main s = M_Aborted"
    with hd inv good(2) show ?thesis by fastforce
  qed (use hd in auto)
qed

text \<open>Whatever the file holds, \<open>slurp_file\<close> has an outcome when the recorder can report on every
  beginning of its records.\<close>

lemma ends_only_over:
  assumes "supported_header header" and run: "(step N H)\<^sup>*\<^sup>* (start_of dbg ls header contents) s"
    and returns: "\<And>ys out xs. parses (parse_hprof_record N) (parser_start dbg header) contents ys out \<Longrightarrow> prefix xs ys \<Longrightarrow>
      recorder_run H (recorder_start ls header) [xs] \<noteq> None"
  shows "(\<exists>s'. step N H s s') \<or> main_over (s_main s)"
proof -
  from reachable_inv [OF run assms(1)] obtain recvd xs where
    inv: "sys_inv N H (parser_start dbg header) (recorder_start ls header) contents recvd xs s" by blast
  obtain ys out where p: "parses (parse_hprof_record N) (parser_start dbg header) contents ys out"
    using hprof.parses_total by blast
  from not_stuck [OF inv] returns [OF p append_prefixD [OF recorded_prefix [OF inv p]]] show ?thesis by blast
qed

lemma any_file_completes:
  assumes hd: "slurp_header N b = Inr (Inr (h, rest))"
    and p: "parses (parse_hprof_record N) (parser_start dbg h) rest ys out"
    and returns: "\<And>xs. prefix xs ys \<Longrightarrow> recorder_run H (recorder_start ls h) [xs] \<noteq> None"
  shows "\<exists>out. slurp_file N H (Some b) dbg ls out"
proof -
  note ok = header_ok [OF hd]
  obtain s where s: "(step N H)\<^sup>*\<^sup>* (start_of dbg ls h rest) s" "\<nexists>s'. step N H s s'"
    using reaches_end [OF rtranclp.rtrancl_refl ok(2)] by blast
  from reachable_inv [OF s(1) ok(2)] obtain recvd xs where
    inv: "sys_inv N H (parser_start dbg h) (recorder_start ls h) rest recvd xs s" by blast
  from not_stuck [OF inv] s(2) returns [OF append_prefixD [OF recorded_prefix [OF inv p]]] have "main_over (s_main s)" by blast
  moreover from s(1) ok(1) have "(step N H)\<^sup>*\<^sup>* (slurp_init dbg ls h (length b) rest) s" by simp
  note slurp_file.returns [OF refl hd this] slurp_file.crashes [OF refl hd this]
  ultimately show ?thesis by (cases "s_main s") (simp_all, blast+)
qed

lemma failing_file_outcome:
  assumes hd: "slurp_header N b = Inr (Inr (h, rest))" and bad: "fails_after N (parser_start dbg h) rest [] e"
    and out: "slurp_file N H (Some b) dbg ls out"
  shows "out = Crashed \<or> out = Returned (Inl (StdThreadError e)) \<or> out = Returned (Inl (StdThreadError ChannelClosed))"
  using out
proof (rule slurp_fileE)
  fix header reader s res
  assume o: "out = Returned (map_sum (\<lambda>e. e) (Pair header) res)"
    and hd': "slurp_header N b = Inr (Inr (header, reader))"
    and run: "(step N H)\<^sup>*\<^sup>* (slurp_init dbg ls header (length b) reader) s" and m: "s_main s = M_Finished res"
  note ok = header_ok [OF hd]
  from hd hd' have [simp]: "header = h" "reader = rest" by simp_all
  from reachable_inv [of H dbg ls h rest s] run ok obtain recvd xs where
    inv: "sys_inv N H (parser_start dbg h) (recorder_start ls h) rest recvd xs s" by auto
  have "\<not> reads_all N (parser_start dbg h) rest ys" for ys using reads_or_fails bad by blast
  with finished_ok [OF inv] m obtain err where err: "res = Inl err" by (cases res) auto
  moreover have "fails_after N (parser_start dbg h) rest ys e' \<Longrightarrow> e' = e" for ys e'
    using bad hprof.parses_deterministic unfolding fails_after_def by blast
  ultimately have "err = StdThreadError e \<or> err = StdThreadError ChannelClosed"
    using inv m by (auto simp: sys_inv_defs)
  with o err show ?thesis by auto
qed (use hd in auto)

end

section \<open>The sequential program\<close>

text \<open>The components run one after the other: the header is checked, the loop of the pre-fetcher reads
  the whole file into buffers, the loop of the parser turns the buffers into records, and the recorder
  reports on them. A panic of any of them, or an error, is no result.\<close>

definition sequential_slurp ::
  "nom \<Rightarrow> hash_order \<Rightarrow> bytes \<Rightarrow> bool \<Rightarrow> bool \<Rightarrow> (file_header \<times> rendered_result) option" where
  "sequential_slurp N H b debug_mode list_strings =
     (case slurp_header N b of
        Inr (Inr (header, reader)) \<Rightarrow>
          (case prefetch_loop (prefetch_reader_new reader (length b) FILE_HEADER_LENGTH READ_BUFFER_SIZE) of
             Some (sent, None) \<Rightarrow>
               (case stream_outcome N
                   (stream_parser_new debug_mode (fh_size_pointers header) (length b) FILE_HEADER_LENGTH []) sent of
                  Some (Inr (rs, _)) \<Rightarrow>
                    (case recorder_run H (recorder_start list_strings header) [rs] of
                       Some (Inr r) \<Rightarrow> Some (header, r)
                     | _ \<Rightarrow> None)
                | _ \<Rightarrow> None)
           | _ \<Rightarrow> None)
      | _ \<Rightarrow> None)"

context nom_streaming
begin

lemma sequential_reads:
  assumes "slurp_header N b = Inr (Inr (h, rest))"
  obtains sent xs out where
    "prefetch_loop (prefetch_reader_new rest (length b) FILE_HEADER_LENGTH READ_BUFFER_SIZE) = Some (sent, None)"
    and "parses (parse_hprof_record N) (parser_start dbg h) rest xs out"
    and "stream_outcome N (stream_parser_new dbg (fh_size_pointers h) (length b) FILE_HEADER_LENGTH []) sent =
      Some (case out of Panicked e \<Rightarrow> Inl e | Waiting s r \<Rightarrow> Inr (xs, r))"
proof -
  note len = header_ok(1) [OF assms]
  obtain xs out where p: "parses (parse_hprof_record N) (parser_start dbg h) rest xs out"
    using hprof.parses_total by blast
  have "concat (chunks_of READ_BUFFER_SIZE rest) = rest"
    by (rule concat_chunks_of) (simp add: READ_BUFFER_SIZE_def)
  with p len stream_outcome_correct [of FILE_HEADER_LENGTH "chunks_of READ_BUFFER_SIZE rest" "length b"]
    prefetch_loop_chunks [of "prefetch_reader_new rest (length b) FILE_HEADER_LENGTH READ_BUFFER_SIZE"]
  show thesis
    by (intro that [of "chunks_of READ_BUFFER_SIZE rest" xs out])
      (simp_all add: parser_start_def prefetch_reader_new_def READ_BUFFER_SIZE_def)
qed

lemma sequential_slurp_iff:
  "sequential_slurp N H b dbg ls = Some (h, r) \<longleftrightarrow>
    (\<exists>rest xs. slurp_header N b = Inr (Inr (h, rest)) \<and> reads_all N (parser_start dbg h) rest xs \<and>
       recorder_run H (recorder_start ls h) [xs] = Some (Inr r))"
proof (cases "\<exists>h rest. slurp_header N b = Inr (Inr (h, rest))")
  case True
  then obtain h' rest where hd: "slurp_header N b = Inr (Inr (h', rest))" by blast
  from sequential_reads [OF this] obtain sent xs out where
    *: "prefetch_loop (prefetch_reader_new rest (length b) FILE_HEADER_LENGTH READ_BUFFER_SIZE) = Some (sent, None)"
    and p: "parses (parse_hprof_record N) (parser_start dbg h') rest xs out"
    and **: "stream_outcome N (stream_parser_new dbg (fh_size_pointers h') (length b) FILE_HEADER_LENGTH []) sent =
      Some (case out of Panicked e \<Rightarrow> Inl e | Waiting s r \<Rightarrow> Inr (xs, r))" .
  show ?thesis
  proof (cases out)
    case (Waiting t left)
    then have reads: "reads_all N (parser_start dbg h') rest ys \<longleftrightarrow> ys = xs" for ys
      using p hprof.parses_deterministic [OF p] unfolding reads_all_def by blast
    have "(\<exists>rest xs. slurp_header N b = Inr (Inr (h, rest)) \<and> reads_all N (parser_start dbg h) rest xs \<and>
        recorder_run H (recorder_start ls h) [xs] = Some (Inr r)) \<longleftrightarrow>
      h' = h \<and> recorder_run H (recorder_start ls h') [xs] = Some (Inr r)"
      using reads unfolding hd by (cases "h' = h") simp_all
    moreover have "sequential_slurp N H b dbg ls =
        (case recorder_run H (recorder_start ls h') [xs] of Some (Inr r) \<Rightarrow> Some (h', r) | _ \<Rightarrow> None)"
      using hd * ** Waiting by (simp add: sequential_slurp_def)
    ultimately show ?thesis
      by (cases "recorder_run H (recorder_start ls h') [xs]")
        (simp_all split: sum.split)
  next
    case (Panicked e)
    then have "\<not> reads_all N (parser_start dbg h') rest ys" for ys
      using hprof.parses_deterministic [OF p] unfolding reads_all_def by blast
    moreover have "sequential_slurp N H b dbg ls = None"
      using hd * ** Panicked by (simp add: sequential_slurp_def)
    ultimately show ?thesis using hd by auto
  qed
next
  case False
  then show ?thesis by (auto simp: sequential_slurp_def split: sum.splits)
qed

lemma sequential_slurp_outcome:
  assumes "sequential_slurp N H b dbg ls = Some (h, r)"
  shows "slurp_file N H (Some b) dbg ls out \<longleftrightarrow> out = Returned (Inr (h, r))"
  using assms good_file_completes good_file_outcome unfolding sequential_slurp_iff by blast

end

section \<open>A sample file\<close>

text \<open>A header and one record, and the same header before an unknown tag.\<close>

definition sample_header :: file_header where
  "sample_header = file_header_from_bytes (replicate 18 65) 8 0"

definition sample_file :: "bytes \<Rightarrow> bytes" where
  "sample_file rest = enc_file_header (replicate 18 65) 8 0 @ rest"

definition sample_record :: bytes where
  "sample_record = [0x2C, 0, 0, 0, 0, 0, 0, 0, 5]"

lemma sample_header_read: "slurp_header nom_ref (sample_file rest) = Inr (Inr (sample_header, rest))"
  unfolding sample_file_def sample_header_def by (rule ref.slurp_header_accepts) simp_all

lemma sample_starts:
  "parser_start dbg sample_header = hprof_record_parser_new dbg 8"
  "recorder_start ls sample_header = result_recorder_new 8 ls 0"
  by (simp_all add: parser_start_def recorder_start_def sample_header_def file_header_from_bytes_def)

lemma sample_reads: "reads_all nom_ref (parser_start dbg sample_header) sample_record [HeapDumpEnd 5]"
proof -
  let ?p = "hprof_record_parser_new"
  have "parse_hprof_record nom_ref (?p True 8) sample_record = (?p True 8, Ok [] (HeapDumpEnd 5))"
    "parse_hprof_record nom_ref (?p False 8) sample_record = (?p False 8, Ok [] (HeapDumpEnd 5))" by code_simp+
  then have "parse_hprof_record nom_ref (?p dbg 8) sample_record = (?p dbg 8, Ok [] (HeapDumpEnd 5))" by (cases dbg) simp_all
  moreover have "parse_hprof_record nom_ref (?p dbg 8) [] = (?p dbg 8, Err (Incomplete (Size 1)))"
    by (rule ref.parse_hprof_record_Nil)
  ultimately show ?thesis unfolding reads_all_def sample_starts by (auto intro: parses.intros)
qed

lemma sample_fails_parses:
  "parses (parse_hprof_record nom_ref) (parser_start False sample_header) [0x99] [] (Panicked (UnhandledRecordTag 0x99))"
proof -
  let ?p = "hprof_record_parser_new False 8"
  have "parse_hprof_record nom_ref ?p [0x99] = (?p, Panic (UnhandledRecordTag 0x99))" by code_simp
  then show ?thesis unfolding sample_starts by (rule parses.intros)
qed

lemma sample_fails: "fails_after nom_ref (parser_start False sample_header) [0x99] [] (UnhandledRecordTag 0x99)"
  using sample_fails_parses by (auto simp: fails_after_def)

lemma sample_report:
  obtains r where "recorder_run insertion_order (recorder_start ls sample_header) [[HeapDumpEnd 5]] = Some (Inr r)"
  by (simp add: sample_starts recorder_result_def render_thread_info_def aggregate_memory_usage_def
      insertion_order_def result_recorder_new_def hm_empty_def Let_def)

lemma empty_report:
  obtains r where "recorder_run insertion_order (recorder_start ls sample_header) [[]] = Some (Inr r)"
  by (simp add: sample_starts recorder_result_def render_thread_info_def aggregate_memory_usage_def
      insertion_order_def result_recorder_new_def hm_empty_def Let_def)

section \<open>Properties\<close>

text \<open>\<open>slurp_file\<close> refines the sequential reading of a file. It can return a header and a
  report exactly when the header is accepted, the rest of the file parses without a panic, and the report
  is the one the recorder makes of all the records of the file in their order, whatever the order in
  which the threads run.\<close>

lemma slurp_file_succeeds_iff:
  assumes "nom_streaming N"
  shows "slurp_file N H (Some b) dbg ls (Returned (Inr (h, r))) \<longleftrightarrow>
    (\<exists>rest xs. slurp_header N b = Inr (Inr (h, rest)) \<and> reads_all N (parser_start dbg h) rest xs \<and>
       recorder_run H (recorder_start ls h) [xs] = Some (Inr r))"
  using nom_streaming.slurp_file_Inr [OF assms] nom_streaming.good_file_completes [OF assms] by blast

text \<open>Property C2: the threads compute what the components compute one after the other. When the
  sequential program gives a header and a report, \<open>slurp_file\<close> has this one outcome, in every
  interleaving of its threads; when it gives none, \<open>slurp_file\<close> never returns a report.\<close>

theorem slurp_file_is_sequential:
  assumes "nom_streaming N"
  shows "case sequential_slurp N H b dbg ls of
      Some x \<Rightarrow> (\<forall>out. slurp_file N H (Some b) dbg ls out \<longleftrightarrow> out = Returned (Inr x))
    | None \<Rightarrow> (\<nexists>x. slurp_file N H (Some b) dbg ls (Returned (Inr x)))"
proof (cases "sequential_slurp N H b dbg ls")
  case None
  then have "sequential_slurp N H b dbg ls \<noteq> Some (h, r)" for h r by simp
  then have "\<not> slurp_file N H (Some b) dbg ls (Returned (Inr (h, r)))" for h r
    unfolding nom_streaming.sequential_slurp_iff [OF assms] by (blast dest: nom_streaming.slurp_file_Inr [OF assms])
  with None show ?thesis by simp
next
  case (Some x)
  obtain h r where "x = (h, r)" by (cases x)
  with nom_streaming.sequential_slurp_outcome [OF assms] Some show ?thesis by simp
qed

theorem slurp_file_is_sequential_witness:
  "\<exists>r. sequential_slurp nom_ref insertion_order (sample_file sample_record) False True = Some (sample_header, r) \<and>
     slurp_file nom_ref insertion_order (Some (sample_file sample_record)) False True (Returned (Inr (sample_header, r)))"
proof -
  obtain r where "recorder_run insertion_order (recorder_start True sample_header) [[HeapDumpEnd 5]] = Some (Inr r)"
    by (rule sample_report)
  with sample_header_read sample_reads
  have s: "sequential_slurp nom_ref insertion_order (sample_file sample_record) False True = Some (sample_header, r)"
    unfolding ref.sequential_slurp_iff by blast
  with slurp_file_is_sequential [OF ref.nom_streaming_axioms, of insertion_order "sample_file sample_record" False True]
  show ?thesis by simp
qed

text \<open>Property C3: the pipeline delivers. On a file that can be read, no state the threads can reach is a
  deadlock: some thread can move, or the main thread has returned the report. Together with the bound on
  the number of steps, every way the threads can run ends with the report.\<close>

theorem pipeline_delivers:
  assumes "nom_streaming N" and "slurp_header N b = Inr (Inr (h, rest))"
    and "reads_all N (parser_start dbg h) rest xs"
    and "recorder_run H (recorder_start ls h) [xs] = Some (Inr r)"
    and "(step N H ^^ k) (slurp_init dbg ls h (length b) rest) s"
  shows "k \<le> 20 * length rest + 8 \<and> ((\<exists>s'. step N H s s') \<or> s_main s = M_Finished (Inr r))"
proof -
  note ok = nom_streaming.header_ok [OF assms(1,2)]
  have w: "weight (start_of dbg ls h rest) = 20 * length rest + 8"
    by (simp add: weight_def slurp_init_def prefetch_reader_new_def Let_def)
  from assms(5) ok(1) have run: "(step N H ^^ k) (start_of dbg ls h rest) s" by simp
  from nom_streaming.run_bound [OF assms(1) run ok(2)] w
    nom_streaming.good_file_moves [OF assms(1) ok(2) assms(3,4) relpowp_imp_rtranclp [OF run]]
  show ?thesis by simp
qed

theorem pipeline_delivers_witness:
  "\<exists>r. (0 :: nat) \<le> 20 * length sample_record + 8 \<and>
    ((\<exists>s'. step nom_ref insertion_order
        (slurp_init False True sample_header (length (sample_file sample_record)) sample_record) s') \<or>
     s_main (slurp_init False True sample_header (length (sample_file sample_record)) sample_record) =
       M_Finished (Inr r))"
proof -
  let ?s = "slurp_init False True sample_header (length (sample_file sample_record)) sample_record"
  obtain r where r: "recorder_run insertion_order (recorder_start True sample_header) [[HeapDumpEnd 5]] = Some (Inr r)"
    by (rule sample_report)
  have "(step nom_ref insertion_order ^^ 0) ?s ?s" by simp
  from pipeline_delivers [OF ref.nom_streaming_axioms sample_header_read sample_reads r this] show ?thesis by blast
qed

text \<open>Property C12: every run of the threads ends, for every file with a supported header, also one that
  makes a thread panic. A run has at most 20 steps for a byte of the file and 8 more; and when the recorder
  returns on every beginning of the records of the file, a run can only stop when the main thread has
  returned or panicked, so a thread that dies never leaves the others waiting for ever.\<close>

theorem pipeline_terminates:
  assumes "nom_streaming N" and "supported_header header"
    and "(step N H ^^ k) (slurp_init dbg ls header (FILE_HEADER_LENGTH + length contents) contents) s"
  shows "k \<le> 20 * length contents + 8 \<and>
    ((\<forall>ys out xs. parses (parse_hprof_record N) (parser_start dbg header) contents ys out \<longrightarrow> prefix xs ys \<longrightarrow>
       recorder_run H (recorder_start ls header) [xs] \<noteq> None) \<longrightarrow>
     (\<exists>s'. step N H s s') \<or> main_over (s_main s))"
proof -
  have "weight (start_of dbg ls header contents) = 20 * length contents + 8"
    by (simp add: weight_def slurp_init_def prefetch_reader_new_def Let_def)
  with nom_streaming.run_bound [OF assms(1,3,2)] nom_streaming.ends_only_over [OF assms(1,2) relpowp_imp_rtranclp [OF assms(3)]]
  show ?thesis by auto
qed

theorem pipeline_terminates_witness: "(1 :: nat) \<le> 20 * length sample_record + 8"
proof -
  have z: "supported_header sample_header"
    by (simp add: supported_header_def sample_header_def file_header_from_bytes_def)
  let ?s = "start_of False False sample_header sample_record"
  have "\<exists>s. step nom_ref insertion_order ?s s"
    by (rule ref.parser_or_other_moves [OF ref.start_inv]) (simp add: slurp_init_def Let_def)
  then obtain s where "(step nom_ref insertion_order ^^ 1) ?s s" by auto
  from pipeline_terminates [OF ref.nom_streaming_axioms z this] show ?thesis by blast
qed

text \<open>A file that makes the parser panic is never reported as processed. Every outcome of
  \<open>slurp_file\<close> is then an error of a thread, either the panic of the parser itself or that of the
  pre-fetcher that finds its channel closed, or a panic of the main thread.\<close>

lemma failing_file_is_an_error:
  assumes "nom_streaming N" and "slurp_header N b = Inr (Inr (h, rest))"
    and "fails_after N (parser_start dbg h) rest [] e" and "slurp_file N H (Some b) dbg ls out"
  shows "out = Crashed \<or> out = Returned (Inl (StdThreadError e)) \<or>
    out = Returned (Inl (StdThreadError ChannelClosed))"
  by (rule nom_streaming.failing_file_outcome [OF assms])

end
