(* ===== verification/Slurp_Bounds.thy ===== *)
theory Slurp_Bounds
  imports Slurp_Pipeline
begin

text \<open>
  What holds of the pipeline of \<open>slurp_file\<close> at every moment: the pools bound what is under way between
  the threads, no byte of the file is lost or reordered, and what the recorder has recorded is always the
  beginning of the records of the file. The bounds need an invariant of their own, since a thread that has
  died has dropped what it held.
\<close>

section \<open>Flow of buffers\<close>

text \<open>A buffer under way holds at least a byte and no more than the read size.\<close>

definition buffer_ok :: "bytes \<Rightarrow> bool" where
  "buffer_ok b \<longleftrightarrow> b \<noteq> [] \<and> length b \<le> READ_BUFFER_SIZE"

fun pf_held :: "prefetch_thread \<Rightarrow> bytes list" where
  "pf_held (PF_Send _ b) = [b]"
| "pf_held _ = []"

fun pf_reads :: "prefetch_thread \<Rightarrow> bool" where
  "pf_reads (PF_Want pr) = (pr_read_size pr = READ_BUFFER_SIZE)"
| "pf_reads (PF_Send pr _) = (pr_read_size pr = READ_BUFFER_SIZE)"
| "pf_reads _ = True"

definition flow_inv :: "sys \<Rightarrow> bool" where
  "flow_inv s \<longleftrightarrow>
     s_pooled_data s + length (s_data s) + length (pf_held (s_pf s)) \<le> 2 \<and>
     list_all buffer_ok (s_data s @ pf_held (s_pf s)) \<and> pf_reads (s_pf s)"

lemma flow_start: "flow_inv (slurp_init dbg ls header file_len reader)"
  by (simp add: flow_inv_def slurp_init_def prefetch_reader_new_def Let_def)

context nom_streaming
begin

lemma flow_step:
  assumes "step N H s s'" and "flow_inv s" and inv: "sys_inv N H p0 rr0 contents recvd xs s"
  shows "flow_inv s'"
  using assms(1)
proof (cases rule: step.cases)
  case (pf_read pr k)
  with inv have "reader_ok (FILE_HEADER_LENGTH + length contents) pr" by (simp add: sys_inv_defs)
  from next_size_ok [OF this] pf_read have n: "0 < next_size pr" "next_size pr \<le> length (pr_reader pr)" by auto
  moreover have "next_size pr \<le> pr_read_size pr" by (simp add: next_size_def)
  ultimately have "buffer_ok (take (next_size pr) (pr_reader pr))"
    using pf_read assms(2) by (auto simp: buffer_ok_def flow_inv_def)
  with pf_read assms(2) show ?thesis by (simp add: flow_inv_def)
qed (use assms(2) in \<open>auto simp: flow_inv_def\<close>)

lemma reachable_flow:
  assumes "(step N H)\<^sup>*\<^sup>* (start_of dbg ls header contents) s" and "supported_header header"
  shows "flow_inv s"
  using assms(1)
proof (induction rule: rtranclp_induct)
  case base
  show ?case by (rule flow_start)
next
  case (step s s')
  with reachable_inv [OF step.hyps(1) assms(2)] flow_step show ?case by blast
qed

lemma reachable_facts:
  assumes run: "(step N H)\<^sup>*\<^sup>* (start_of dbg ls header contents) s" and "supported_header header"
  shows "length (s_data s) \<le> 2" and "list_all buffer_ok (s_data s)" and "length (s_records s) \<le> 1"
    and "\<not> pf_dead (s_pf s) \<Longrightarrow> suffix (concat (s_data s) @ unsent (s_pf s)) contents"
    and "s_rc s = RC_Recv rr \<Longrightarrow> \<exists>xs. record_records (recorder_start ls header) xs = Inr rr \<and>
      (\<forall>ys out. parses (parse_hprof_record N) (parser_start dbg header) contents ys out \<longrightarrow>
        prefix (xs @ concat (s_records s) @ in_hand (s_ps s)) ys)"
proof -
  from reachable_inv [OF assms] obtain recvd xs where
    inv: "sys_inv N H (parser_start dbg header) (recorder_start ls header) contents recvd xs s" by blast
  show "length (s_data s) \<le> 2" "list_all buffer_ok (s_data s)"
    using reachable_flow [OF assms] by (simp_all add: flow_inv_def)
  show "length (s_records s) \<le> 1" using inv by (simp add: sys_inv_defs)
  show "suffix (concat (s_data s) @ unsent (s_pf s)) contents" if "\<not> pf_dead (s_pf s)"
    using inv that by (auto simp: sys_inv_defs suffix_def)
  show "\<exists>xs. record_records (recorder_start ls header) xs = Inr rr \<and>
      (\<forall>ys out. parses (parse_hprof_record N) (parser_start dbg header) contents ys out \<longrightarrow>
        prefix (xs @ concat (s_records s) @ in_hand (s_ps s)) ys)" if "s_rc s = RC_Recv rr"
    using inv that recorded_prefix [OF inv] by (intro exI [of _ xs]) (auto simp: sys_inv_defs)
qed

end

section \<open>Properties\<close>

text \<open>Property C17: what is under way between the threads is bounded and is part of the file. In every state
  the threads can reach at most two buffers wait for the parser, each with one byte to 64 MiB, and at most
  one vector of records waits for the recorder, although the channels are unbounded; while the pre-fetcher
  has not failed, the waiting buffers and what it has not sent are the end of the file, in order; and while
  the recorder runs, what it has recorded, what waits for it and what the parser holds are the first records
  of the file, in order.\<close>

theorem pipeline_invariant:
  assumes "nom_streaming N" and "supported_header header"
    and "(step N H)\<^sup>*\<^sup>* (slurp_init dbg ls header (FILE_HEADER_LENGTH + length contents) contents) s"
  shows "length (s_data s) \<le> 2 \<and> (\<forall>b \<in> set (s_data s). 1 \<le> length b \<and> length b \<le> 64 * 1024 * 1024) \<and>
    length (s_records s) \<le> 1 \<and>
    (\<not> pf_dead (s_pf s) \<longrightarrow> suffix (concat (s_data s) @ unsent (s_pf s)) contents) \<and>
    (\<forall>rr. s_rc s = RC_Recv rr \<longrightarrow> (\<exists>xs. record_records (recorder_start ls header) xs = Inr rr \<and>
      (\<forall>ys out. parses (parse_hprof_record N) (parser_start dbg header) contents ys out \<longrightarrow>
        prefix (xs @ concat (s_records s) @ in_hand (s_ps s)) ys)))"
proof -
  note facts = nom_streaming.reachable_facts [OF assms(1,3,2)]
  have "\<forall>b \<in> set (s_data s). 1 \<le> length b \<and> length b \<le> 64 * 1024 * 1024"
    using facts(2) by (auto simp: list_all_iff buffer_ok_def READ_BUFFER_SIZE_def Suc_le_eq)
  with facts(1,3,4) facts(5) show ?thesis by blast
qed

theorem pipeline_invariant_witness:
  "\<exists>s. (step nom_ref insertion_order) (start_of False False sample_header sample_record) s \<and>
     length (s_data s) \<le> 2 \<and> length (s_records s) \<le> 1"
proof -
  have z: "supported_header sample_header"
    by (simp add: supported_header_def sample_header_def file_header_from_bytes_def)
  let ?s = "start_of False False sample_header sample_record"
  have "\<exists>s. step nom_ref insertion_order ?s s"
    by (rule ref.parser_or_other_moves [OF ref.start_inv]) (simp add: slurp_init_def Let_def)
  then obtain s where s: "step nom_ref insertion_order ?s s" by blast
  from pipeline_invariant [OF ref.nom_streaming_axioms z r_into_rtranclp [of "step nom_ref insertion_order", OF s]] s
  show ?thesis by blast
qed

end
