(* ===== verification/Debug_Mode.thy ===== *)
theory Debug_Mode
  imports Slurp_Bounds Record_Format
begin

text \<open>
  The debug mode: the lines that the parser and the thread around it print. The printing parser of
  \<^verbatim>\<open>src/parser/record_parser.rs\<close> has the lines printed so far in its state, so the loop of
  \<open>parse_streaming\<close> runs on it as it is. \<open>debug_lines\<close> are the lines of a file when the loops of the
  threads run one after the other, and \<open>step_out\<close> are the threads of \<open>slurp_file\<close> with their output: in
  whatever order they run, they print these lines.
\<close>

section \<open>Model\<close>

definition found_line :: "u8 \<Rightarrow> usize \<Rightarrow> string" where
  "found_line tag len =
     ''Found record tag:'' @ fmt_nat (unat tag) @ '' remaining bytes:'' @ fmt_nat len @ newline"

definition incomplete_line :: "usize \<Rightarrow> usize \<Rightarrow> string" where
  "incomplete_line n len =
     ''Incomplete: '' @ fmt_nat n @ '' bytes required to finish parsing object & current buffer len '' @
     fmt_nat len @ newline"

text \<open>What one call of the parser prints: the tag of a top-level record, before it is parsed.\<close>

definition record_lines :: "nom \<Rightarrow> hprof_record_parser \<Rightarrow> bytes \<Rightarrow> string list" where
  "record_lines N self i =
     (if hp_heap_dump_remaining_len self = 0 then
        (case parse_u8 N i of
           Ok r1 tag \<Rightarrow> if hp_debug_mode self then [found_line tag (length i)] else []
         | _ \<Rightarrow> [])
      else [])"

definition printing_parser ::
  "nom \<Rightarrow> hprof_record_parser \<times> string list \<Rightarrow> bytes \<Rightarrow> (hprof_record_parser \<times> string list) \<times> hprof_record iresult" where
  "printing_parser N self_out i =
     (case self_out of (self, out) \<Rightarrow>
        (case parse_hprof_record N self i of (self', res) \<Rightarrow> ((self', out @ record_lines N self i), res)))"

text \<open>What an iteration of the receive loop prints.\<close>

definition iteration_lines :: "nom \<Rightarrow> stream_parser \<Rightarrow> bytes \<Rightarrow> string list option" where
  "iteration_lines N self pooled_buffer =
     (let loop_buffer = sp_loop_buffer self @ pooled_buffer
      in if sp_needed self > length loop_buffer then Some []
      else (case lazy_many1 N (printing_parser N) (sp_parser self, []) (sp_pooled_vec self) loop_buffer of
          None \<Rightarrow> None
        | Some ((_, out), _, Err (Incomplete (Size n))) \<Rightarrow>
            Some (out @ (if sp_debug_mode self then [incomplete_line n (length loop_buffer)] else []))
        | Some ((_, out), _, _) \<Rightarrow> Some out))"

text \<open>What the thread prints, until the channel closes or it panics.\<close>

fun stream_lines :: "nom \<Rightarrow> stream_parser \<Rightarrow> bytes list \<Rightarrow> string list option" where
  "stream_lines N self [] = Some []"
| "stream_lines N self (b # bs) =
     (case (iteration_lines N self b, stream_iteration N self b []) of
        (Some out, Some (Inr (self', _))) \<Rightarrow> map_option (append out) (stream_lines N self' bs)
      | (Some out, Some (Inl _)) \<Rightarrow> Some out
      | _ \<Rightarrow> None)"

text \<open>What the debug mode adds to the output for a file: the lines of the parser on the buffers of the
  pre-fetcher.\<close>

definition debug_lines :: "nom \<Rightarrow> bytes \<Rightarrow> bool \<Rightarrow> string list option" where
  "debug_lines N b debug_mode =
     (case slurp_header N b of
        Inr (Inr (header, reader)) \<Rightarrow>
          (case prefetch_loop (prefetch_reader_new reader (length b) FILE_HEADER_LENGTH READ_BUFFER_SIZE) of
             Some (sent, _) \<Rightarrow>
               stream_lines N
                 (stream_parser_new debug_mode (fh_size_pointers header) (length b) FILE_HEADER_LENGTH []) sent
           | None \<Rightarrow> None)
      | _ \<Rightarrow> Some [])"

text \<open>The specification for a written dump: one line for each item, with its tag and the number of bytes
  from its start to the end of the dump.\<close>

fun item_tag :: "dump_item \<Rightarrow> u8" where
  "item_tag (TopRecord ts r raw) = record_tag r"
| "item_tag (Segment tag ts gs) = tag"

fun found_lines :: "u32 \<Rightarrow> dump_item list \<Rightarrow> string list" where
  "found_lines z [] = []"
| "found_lines z (it # items) = found_line (item_tag it) (length (enc_dump z (it # items))) # found_lines z items"

section \<open>The lines of a dump\<close>

lemma record_lines_segment [simp]: "hp_heap_dump_remaining_len s \<noteq> 0 \<Longrightarrow> record_lines N s i = []"
  by (simp add: record_lines_def)

lemma printing_step:
  assumes "parse_hprof_record N s i = (s', Ok r x)" and "length r < length i"
  shows "lazy_many1_loop N (printing_parser N) (s, out) v i =
      lazy_many1_loop N (printing_parser N) (s', out @ record_lines N s i) (v @ [x]) r"
    and "lazy_many1 N (printing_parser N) (s, out) v i = lazy_many1_loop N (printing_parser N) (s, out) v i"
  using assms
  by (auto simp: printing_parser_def lazy_many1_def lazy_many1_loop.simps [of N "printing_parser N" "(s, out)"])

context nom_streaming
begin

lemma record_lines_item:
  assumes "hp_heap_dump_remaining_len s = 0"
  shows "record_lines N s (enc_item z it @ j) =
    (if hp_debug_mode s then [found_line (item_tag it) (length (enc_item z it @ j))] else [])"
  using assms by (cases it) (simp_all add: record_lines_def enc_record_def roundtrip_simps)

lemma printing_segment:
  assumes z: "supported_id_size (hp_id_size s)" and "list_all (gc_fits (hp_id_size s)) gs"
    and "length (segment_body (hp_id_size s) gs) < 2 ^ 32"
  shows "lazy_many1_loop N (printing_parser N)
     (s\<lparr>hp_heap_dump_remaining_len := word_of_nat (length (segment_body (hp_id_size s) gs))\<rparr>, out) v
     (segment_body (hp_id_size s) gs @ j) =
    lazy_many1_loop N (printing_parser N) (s\<lparr>hp_heap_dump_remaining_len := 0\<rparr>, out)
      (v @ map (\<lambda>g. GcSegment (gi_record g)) gs) j"
  using assms(2,3)
proof (induction gs arbitrary: v)
  case Nil
  then show ?case by (simp add: segment_body_def)
next
  case (Cons g gs)
  let ?z = "hp_id_size s" and ?k = "length (segment_body (hp_id_size s) gs)"
  from Cons.prems have fits: "gc_fits ?z g" "list_all (gc_fits ?z) gs"
    and small: "length (enc_gc ?z g) + ?k < 2 ^ 32" by (simp_all add: segment_body_def)
  have body: "segment_body ?z (g # gs) @ j = enc_gc ?z g @ (segment_body ?z gs @ j)"
    "length (segment_body ?z (g # gs)) = length (enc_gc ?z g) + ?k" by (simp_all add: segment_body_def)
  have "unat (word_of_nat (length (enc_gc ?z g) + ?k) :: u32) = length (enc_gc ?z g) + ?k"
    using small by (rule unat_of_nat_u32)
  with enc_gc_nonempty [of ?z g] have "word_of_nat (length (enc_gc ?z g) + ?k) \<noteq> (0 :: u32)"
    by (metis add_is_0 length_0_conv unat_0)
  then show ?case
    unfolding body using printing_step(1) [OF segment_step [OF z fits(1) small, of "segment_body ?z gs @ j"], of out v]
      enc_gc_nonempty [of ?z g] Cons.IH [OF fits(2), of "v @ [GcSegment (gi_record g)]"] small
    by simp
qed

lemma printing_item:
  assumes z: "supported_id_size (hp_id_size s)" and top: "hp_heap_dump_remaining_len s = 0"
    and fits: "item_fits (hp_id_size s) it"
  shows "lazy_many1_loop N (printing_parser N) (s, out) v (enc_item (hp_id_size s) it @ j) =
      lazy_many1_loop N (printing_parser N) (s, out @ record_lines N s (enc_item (hp_id_size s) it @ j))
        (v @ item_records (hp_id_size s) it) j"
    and "lazy_many1 N (printing_parser N) (s, out) v (enc_item (hp_id_size s) it @ j) =
      lazy_many1_loop N (printing_parser N) (s, out) v (enc_item (hp_id_size s) it @ j)"
proof -
  let ?i = "enc_item (hp_id_size s) it @ j" and ?P = "printing_parser N"
  have "lazy_many1_loop N ?P (s, out) v ?i =
        lazy_many1_loop N ?P (s, out @ record_lines N s ?i) (v @ item_records (hp_id_size s) it) j \<and>
      lazy_many1 N ?P (s, out) v ?i = lazy_many1_loop N ?P (s, out) v ?i"
  proof (cases it)
    case (TopRecord ts r raw)
    with fits have "parse_hprof_record N s ?i = (s, Ok j r)" using top_record_step [OF z top] by simp
    from printing_step [OF this] TopRecord show ?thesis by (simp add: enc_record_def)
  next
    case (Segment tag ts gs)
    let ?b = "segment_body (hp_id_size s) gs"
    have "parse_hprof_record N s ?i = (s\<lparr>hp_heap_dump_remaining_len := word_of_nat (length ?b)\<rparr>,
        Ok (?b @ j) (HeapDumpStart (word_of_nat (length ?b))))"
      using segment_start_step [OF top] fits Segment by simp
    moreover have "s\<lparr>hp_heap_dump_remaining_len := 0\<rparr> = s" using top by simp
    ultimately show ?thesis
      using printing_step [of N s ?i] printing_segment [OF z, of gs] fits Segment by simp
  qed
  then show "lazy_many1_loop N ?P (s, out) v ?i =
        lazy_many1_loop N ?P (s, out @ record_lines N s ?i) (v @ item_records (hp_id_size s) it) j"
    and "lazy_many1 N ?P (s, out) v ?i = lazy_many1_loop N ?P (s, out) v ?i" by simp_all
qed

lemma printing_dump:
  assumes z: "supported_id_size (hp_id_size s)" and top: "hp_heap_dump_remaining_len s = 0"
    and "list_all (item_fits (hp_id_size s)) items"
  shows "lazy_many1_loop N (printing_parser N) (s, out) v (enc_dump (hp_id_size s) items) =
    Some ((s, out @ (if hp_debug_mode s then found_lines (hp_id_size s) items else [])),
      v @ dump_records (hp_id_size s) items, Ok [] ())"
  using assms(3)
proof (induction items arbitrary: out v)
  case Nil
  have "record_lines N s [] = []"
    using primitive_laws(1) by (simp add: record_lines_def fixed_width_be_def)
  then have "printing_parser N (s, out) [] = ((s, out), Err (Incomplete (Size 1)))"
    using parse_hprof_record_Nil [of s] by (simp add: printing_parser_def)
  then show ?case by (simp add: lazy_many1_loop.simps [of N "printing_parser N" "(s, out)"] enc_dump_def dump_records_def)
next
  case (Cons it items)
  let ?z = "hp_id_size s"
  have d: "enc_dump ?z (it # items) = enc_item ?z it @ enc_dump ?z items"
    "dump_records ?z (it # items) = item_records ?z it @ dump_records ?z items"
    by (simp_all add: enc_dump_def dump_records_def)
  from Cons.prems printing_item(1) [OF z top, of it out v "enc_dump ?z items"]
    Cons.IH [of "out @ record_lines N s (enc_dump ?z (it # items))" "v @ item_records ?z it"]
  show ?case by (simp add: d record_lines_item [OF top])
qed

lemma stream_iteration_total: "\<exists>res. stream_iteration N self b v = Some res"
proof -
  obtain res where "parse_streaming N (sp_parser self) (sp_pooled_vec self) (sp_loop_buffer self @ b) = Some res"
    using parse_streaming_total by blast
  then show ?thesis
    by (cases res) (auto simp: stream_iteration_def Let_def split: iresult.split nom_err.split needed.split)
qed

lemma iteration_lines_dump:
  assumes z: "supported_id_size z" and fits: "list_all (item_fits z) items" and "items \<noteq> []"
  shows "iteration_lines N (stream_parser_new dbg z file_len processed_len []) (enc_dump z items) =
    Some (if dbg then found_lines z items else [])"
proof -
  let ?s = "hprof_record_parser_new dbg z"
  have s: "hp_id_size ?s = z" "hp_heap_dump_remaining_len ?s = 0" "hp_debug_mode ?s = dbg"
    by (simp_all add: hprof_record_parser_new_def)
  from assms(3) obtain it items' where items: "items = it # items'" by (cases items) simp_all
  have "enc_dump z items = enc_item z it @ enc_dump z items'" by (simp add: items enc_dump_def)
  with printing_item(2) [of ?s it "[]" "[]" "enc_dump z items'", unfolded s] z fits items
  have "lazy_many1 N (printing_parser N) (?s, []) [] (enc_dump z items) =
      lazy_many1_loop N (printing_parser N) (?s, []) [] (enc_dump z items)" by (simp add: s)
  also have "\<dots> = Some ((?s, if dbg then found_lines z items else []), dump_records z items, Ok [] ())"
    using printing_dump [of ?s items "[]" "[]", unfolded s] z fits by (simp add: s)
  finally have "lazy_many1 N (printing_parser N) (?s, []) [] (enc_dump z items) =
      Some ((?s, if dbg then found_lines z items else []), dump_records z items, Ok [] ())" .
  then show ?thesis by (simp add: iteration_lines_def stream_parser_new_def)
qed

end

section \<open>The threads with their output\<close>

text \<open>The steps of the threads with the lines printed so far: a step in which the parser takes a buffer
  prints what its iteration prints, every other step prints nothing.\<close>

inductive step_out :: "nom \<Rightarrow> hash_order \<Rightarrow> sys \<times> string list \<Rightarrow> sys \<times> string list \<Rightarrow> bool" for N H where
  reads: "step N H s s' \<Longrightarrow> s_ps s = PS_Recv sp \<Longrightarrow> s_data s = b # s_data s' \<Longrightarrow> iteration_lines N sp b = Some out \<Longrightarrow>
    step_out N H (s, printed) (s', printed @ out)"
| silent: "step N H s s' \<Longrightarrow> length (s_data s) \<le> length (s_data s') \<Longrightarrow> step_out N H (s, printed) (s', printed)"

inductive_cases step_outE: "step_out N H (s, printed) t"

text \<open>The buffers the pre-fetcher has not sent, and the parser while it runs.\<close>

fun upcoming :: "prefetch_thread \<Rightarrow> bytes list" where
  "upcoming (PF_Want pr) = chunks_of READ_BUFFER_SIZE (pr_reader pr)"
| "upcoming (PF_Send pr b) = b # chunks_of READ_BUFFER_SIZE (pr_reader pr)"
| "upcoming _ = []"

fun current :: "parser_thread \<Rightarrow> stream_parser option" where
  "current (PS_Recv sp) = Some sp"
| "current (PS_Want sp _) = Some sp"
| "current (PS_Send sp _) = Some sp"
| "current _ = None"

text \<open>While the parser runs, it has read some of the buffers and printed their lines; once it has ended,
  it has printed the lines of all.\<close>

lemma current_None: "current p = None \<longleftrightarrow> \<not> ps_alive p"
  by (cases p) simp_all

definition print_inv :: "nom \<Rightarrow> stream_parser \<Rightarrow> bytes list \<Rightarrow> sys \<times> string list \<Rightarrow> bool" where
  "print_inv N sp0 chunks t \<longleftrightarrow> (case t of (s, printed) \<Rightarrow>
     (case current (s_ps s) of
        Some sp \<Rightarrow> \<exists>before ems. stream_run N sp0 before = Some (Inr (sp, ems)) \<and>
          stream_lines N sp0 before = Some printed \<and> before @ s_data s @ upcoming (s_pf s) = chunks
      | None \<Rightarrow> stream_lines N sp0 chunks = Some printed))"

lemma print_inv_same:
  "print_inv N sp0 chunks (s, printed) \<Longrightarrow> current (s_ps s') = current (s_ps s) \<Longrightarrow>
    s_data s' @ upcoming (s_pf s') = s_data s @ upcoming (s_pf s) \<Longrightarrow> print_inv N sp0 chunks (s', printed)"
  unfolding print_inv_def by (cases "current (s_ps s)") auto

text \<open>The steps in which the parser takes a buffer.\<close>

lemma taking_step:
  assumes "step N H s s'" and "length (s_data s') < length (s_data s)"
  obtains sp b where "s_ps s = PS_Recv sp" and "s_data s = b # s_data s'" and "s_pf s' = s_pf s"
    and "case stream_iteration N sp b [] of Some (Inr (sp', _)) \<Rightarrow> current (s_ps s') = Some sp'
      | Some (Inl _) \<Rightarrow> current (s_ps s') = None | None \<Rightarrow> False"
  using assms by (cases rule: step.cases) auto

lemma stream_run_snoc:
  "stream_run N sp bs = Some (Inr (sp1, ems)) \<Longrightarrow> stream_iteration N sp1 b [] = Some (Inr (sp2, em)) \<Longrightarrow>
    stream_run N sp (bs @ [b]) = Some (Inr (sp2, ems @ [em]))"
proof (induction bs arbitrary: sp ems)
  case (Cons c cs)
  from Cons.prems(1) obtain sp3 em' ems' where "stream_iteration N sp c [] = Some (Inr (sp3, em'))"
    and run: "stream_run N sp3 cs = Some (Inr (sp1, ems'))" and "ems = em' # ems'"
    by (auto split: option.splits sum.splits)
  with Cons.IH [OF run Cons.prems(2)] show ?case by simp
qed simp

lemma stream_lines_append:
  "stream_run N sp bs = Some (Inr (sp', ems)) \<Longrightarrow> stream_lines N sp bs = Some out \<Longrightarrow>
    stream_lines N sp (bs @ cs) = map_option (append out) (stream_lines N sp' cs)"
proof (induction bs arbitrary: sp ems out)
  case Nil
  then show ?case by (cases "stream_lines N sp' cs") auto
next
  case (Cons b bs)
  from Cons.prems(1) obtain sp1 em ems' where it: "stream_iteration N sp b [] = Some (Inr (sp1, em))"
    and run: "stream_run N sp1 bs = Some (Inr (sp', ems'))"
    by (auto split: option.splits sum.splits)
  from Cons.prems(2) it obtain o1 o2 where "iteration_lines N sp b = Some o1" "stream_lines N sp1 bs = Some o2"
    "out = o1 @ o2" by (auto split: option.splits)
  with Cons.IH [OF run] it show ?case by (cases "stream_lines N sp' cs") auto
qed

context nom_streaming
begin

lemma printing_total: "\<exists>res. lazy_many1_loop N (printing_parser N) (s, out) v i = Some res"
proof (induction "length i" arbitrary: s out v i rule: less_induct)
  case less
  obtain s1 res where p: "parse_hprof_record N s i = (s1, res)" by fastforce
  then have pp: "printing_parser N (s, out) i = ((s1, out @ record_lines N s i), res)" by (simp add: printing_parser_def)
  note eq = lazy_many1_loop.simps [of N "printing_parser N" "(s, out)" v i] pp
  show ?case
  proof (cases res)
    case (Ok r x)
    with p have "length r < length i" using hprof.step_Ok_shorter by simp
    from less [OF this] Ok show ?thesis by (simp add: eq)
  next
    case (Err e)
    then show ?thesis by (cases e) (simp_all add: eq)
  qed (simp add: eq)
qed

lemma iteration_lines_total: "\<exists>out. iteration_lines N self b = Some out"
proof -
  let ?i = "sp_loop_buffer self @ b"
  obtain s1 res where p: "printing_parser N (sp_parser self, []) ?i = (s1, res)" by fastforce
  obtain s2 out where s1: "s1 = (s2, out)" by (cases s1)
  have "\<exists>res. lazy_many1 N (printing_parser N) (sp_parser self, []) (sp_pooled_vec self) ?i = Some res"
  proof (cases res)
    case (Ok r x)
    with p s1 printing_total show ?thesis by (simp add: lazy_many1_def)
  next
    case (Err e)
    with p show ?thesis by (cases e) (simp_all add: lazy_many1_def)
  next
    case (Panic e)
    with p show ?thesis by (simp add: lazy_many1_def)
  qed
  then show ?thesis
    by (auto simp: iteration_lines_def Let_def split: iresult.split nom_err.split needed.split)
qed

lemma stream_lines_total: "\<exists>out. stream_lines N self bs = Some out"
proof (induction bs arbitrary: self)
  case (Cons b bs)
  from iteration_lines_total obtain out where "iteration_lines N self b = Some out" by blast
  moreover from stream_iteration_total obtain res where "stream_iteration N self b [] = Some res" by blast
  ultimately show ?case using Cons by (cases res) auto
qed simp

lemma step_out_lifts:
  assumes "step N H s s'"
  shows "\<exists>printed'. step_out N H (s, printed) (s', printed')"
proof (cases "length (s_data s') < length (s_data s)")
  case True
  with assms obtain sp b where "s_ps s = PS_Recv sp" "s_data s = b # s_data s'" by (rule taking_step)
  with assms iteration_lines_total step_out.reads [of N H s s' sp b] show ?thesis by blast
next
  case False
  with assms step_out.silent [of N H s s'] show ?thesis by fastforce
qed

lemma print_inv_start:
  "print_inv N (stream_parser_new dbg (fh_size_pointers header) (FILE_HEADER_LENGTH + length contents) FILE_HEADER_LENGTH [])
    (chunks_of READ_BUFFER_SIZE contents) (start_of dbg ls header contents, [])"
  by (auto simp: print_inv_def slurp_init_def prefetch_reader_new_def Let_def intro: exI [of _ "[]"])

lemma print_inv_reads:
  assumes inv: "print_inv N sp0 chunks (s, printed)" and st: "step N H s s'" and ps: "s_ps s = PS_Recv sp"
    and data: "s_data s = b # s_data s'" and out: "iteration_lines N sp b = Some out"
  shows "print_inv N sp0 chunks (s', printed @ out)"
proof -
  from inv ps obtain before ems where run: "stream_run N sp0 before = Some (Inr (sp, ems))"
    and lines: "stream_lines N sp0 before = Some printed"
    and chunks: "before @ b # s_data s' @ upcoming (s_pf s) = chunks"
    by (auto simp: print_inv_def data)
  have "length (s_data s') < length (s_data s)" using data by simp
  with st have pf: "s_pf s' = s_pf s" and now: "case stream_iteration N sp b [] of Some (Inr (sp', _)) \<Rightarrow> current (s_ps s') = Some sp'
      | Some (Inl _) \<Rightarrow> current (s_ps s') = None | None \<Rightarrow> False"
    using ps data by (auto elim!: taking_step)
  obtain res where it: "stream_iteration N sp b [] = Some res" using stream_iteration_total by blast
  show ?thesis
  proof (cases res)
    case (Inr x)
    then obtain sp' em where it': "stream_iteration N sp b [] = Some (Inr (sp', em))" using it by (cases x) simp
    have "stream_lines N sp0 (before @ [b]) = Some (printed @ out)"
      using stream_lines_append [OF run lines, of "[b]"] it' out by simp
    moreover have "(before @ [b]) @ s_data s' @ upcoming (s_pf s') = chunks" using chunks pf by simp
    moreover have "current (s_ps s') = Some sp'" using now it' by simp
    ultimately show ?thesis using stream_run_snoc [OF run it'] unfolding print_inv_def by auto
  next
    case (Inl e)
    then have "stream_lines N sp0 chunks = Some (printed @ out)"
      using stream_lines_append [OF run lines, of "b # s_data s' @ upcoming (s_pf s)"] it out chunks by simp
    moreover have "current (s_ps s') = None" using now it Inl by simp
    ultimately show ?thesis by (simp add: print_inv_def)
  qed
qed

lemma upcoming_read:
  assumes "reader_ok file_len pr" and "pr_processed_len pr \<noteq> pr_file_len pr" and "pr_read_size pr = READ_BUFFER_SIZE"
  shows "take (next_size pr) (pr_reader pr) # chunks_of READ_BUFFER_SIZE (drop (next_size pr) (pr_reader pr)) =
    chunks_of READ_BUFFER_SIZE (pr_reader pr)"
proof -
  have "next_size pr = min (length (pr_reader pr)) READ_BUFFER_SIZE" and "pr_reader pr \<noteq> []"
    using next_size_ok [OF assms(1,2)] assms(3) by auto
  moreover have "chunks_of READ_BUFFER_SIZE [] = []" "READ_BUFFER_SIZE \<noteq> 0"
    by (simp_all add: chunks_of.simps READ_BUFFER_SIZE_def)
  ultimately show ?thesis
    by (simp add: chunks_of.simps [of READ_BUFFER_SIZE "pr_reader pr"] min_def)
qed

lemma print_inv_silent:
  assumes inv: "print_inv N sp0 chunks (s, printed)" and st: "step N H s s'"
    and data: "length (s_data s) \<le> length (s_data s')"
    and sys: "sys_inv N H p0 rr0 contents recvd xs s" and flow: "flow_inv s"
  shows "print_inv N sp0 chunks (s', printed)"
  using st
proof (cases rule: step.cases)
  case (pf_end pr)
  with sys have "upcoming (s_pf s) = []" by (auto simp: sys_inv_defs reader_ok_def chunks_of.simps)
  with pf_end show ?thesis by (intro print_inv_same [OF inv]) simp_all
next
  case (pf_read pr k)
  with sys flow have "reader_ok (FILE_HEADER_LENGTH + length contents) pr" "pr_read_size pr = READ_BUFFER_SIZE"
    by (auto simp: sys_inv_defs flow_inv_def)
  from upcoming_read [OF this(1) pf_read(3) this(2)] pf_read show ?thesis by (intro print_inv_same [OF inv]) simp_all
next
  case (pf_short pr k)
  with sys next_size_ok [of "FILE_HEADER_LENGTH + length contents" pr] show ?thesis by (auto simp: sys_inv_defs)
next
  case (pf_starved pr)
  then have "current (s_ps s) = None" by (simp add: current_None)
  with inv pf_starved show ?thesis by (simp add: print_inv_def)
next
  case (pf_closed pr b)
  then have "current (s_ps s) = None" by (simp add: current_None)
  with inv pf_closed show ?thesis by (simp add: print_inv_def)
next
  case (ps_end sp)
  then have "upcoming (s_pf s) = []" by (cases "s_pf s") simp_all
  with ps_end inv show ?thesis by (auto simp: print_inv_def)
next
  case (ps_no_vec sp rs)
  with sys show ?thesis by (auto simp: sys_inv_defs)
next
  case (ps_closed sp rs)
  with sys show ?thesis by (auto simp: sys_inv_defs)
qed (use data in \<open>auto intro!: print_inv_same [OF inv]\<close>)

lemma reachable_print:
  assumes "(step_out N H)\<^sup>*\<^sup>* (start_of dbg ls header contents, []) (s, printed)" and "supported_header header"
  shows "(step N H)\<^sup>*\<^sup>* (start_of dbg ls header contents) s \<and> print_inv N
    (stream_parser_new dbg (fh_size_pointers header) (FILE_HEADER_LENGTH + length contents) FILE_HEADER_LENGTH [])
    (chunks_of READ_BUFFER_SIZE contents) (s, printed)"
  using assms(1)
proof (induction rule: rtranclp_induct2)
  case refl
  show ?case using print_inv_start by simp
next
  case (step s printed s' printed')
  from step.hyps(2) have st: "step N H s s'" by (auto elim: step_outE)
  from step.IH reachable_inv [of H dbg ls header contents s] assms(2) obtain recvd xs where
    inv: "sys_inv N H (parser_start dbg header) (recorder_start ls header) contents recvd xs s" by blast
  from step.IH reachable_flow assms(2) have flow: "flow_inv s" by blast
  from step.IH st have "(step N H)\<^sup>*\<^sup>* (start_of dbg ls header contents) s'" by (auto intro: rtranclp.rtrancl_into_rtrancl)
  moreover from step.hyps(2) step.IH st inv flow print_inv_reads print_inv_silent
  have "print_inv N (stream_parser_new dbg (fh_size_pointers header) (FILE_HEADER_LENGTH + length contents)
      FILE_HEADER_LENGTH []) (chunks_of READ_BUFFER_SIZE contents) (s', printed')"
    by (elim step_outE) blast+
  ultimately show ?case by blast
qed

subsection \<open>Without the debug mode\<close>

lemma parse_hprof_record_keeps_flag: "parse_hprof_record N s i = (s', res) \<Longrightarrow> hp_debug_mode s' = hp_debug_mode s"
  by (cases "hp_heap_dump_remaining_len s = 0")
    (auto simp: parse_hprof_record_top parse_hprof_record_segment top_result_def enter_segment_def leave_bytes_def
      split: iresult.splits option.splits)

lemma loop_keeps_flag:
  "lazy_many1_loop N (parse_hprof_record N) s v i = Some (s', v', res) \<Longrightarrow> hp_debug_mode s' = hp_debug_mode s"
proof (induction "length i" arbitrary: s v i rule: less_induct)
  case less
  obtain s1 res1 where p: "parse_hprof_record N s i = (s1, res1)" by fastforce
  note flag = parse_hprof_record_keeps_flag [OF p]
  note loop = less.prems [unfolded lazy_many1_loop.simps [of N "parse_hprof_record N" s v i] p, simplified]
  show ?case
  proof (cases res1)
    case (Ok r x)
    with p have short: "length r < length i" using hprof.step_Ok_shorter by simp
    then have "r \<noteq> i" by auto
    with less.hyps [OF short] loop Ok flag show ?thesis by simp
  next
    case (Err e)
    with loop flag show ?thesis by (cases e) auto
  qed (use loop flag in auto)
qed

lemma parse_streaming_keeps_flag:
  assumes "parse_streaming N s v i = Some (s', v', res)"
  shows "hp_debug_mode s' = hp_debug_mode s"
proof -
  obtain s1 res1 where p: "parse_hprof_record N s i = (s1, res1)" by fastforce
  note flag = parse_hprof_record_keeps_flag [OF p]
  show ?thesis
  proof (cases res1)
    case (Err e)
    with assms flag p show ?thesis by (cases e) (auto simp: parse_streaming_def lazy_many1_def)
  qed (use assms flag p loop_keeps_flag in \<open>auto simp: parse_streaming_def lazy_many1_def\<close>)
qed

lemma quiet_loop:
  "lazy_many1_loop N (printing_parser N) (s, out) v i = Some ((s', out'), res) \<Longrightarrow> \<not> hp_debug_mode s \<Longrightarrow> out' = out"
proof (induction "length i" arbitrary: s v i rule: less_induct)
  case less
  obtain s1 res1 where p: "parse_hprof_record N s i = (s1, res1)" by fastforce
  have "record_lines N s i = []" using less.prems(2) by (simp add: record_lines_def split: iresult.split)
  with p have pp: "printing_parser N (s, out) i = ((s1, out), res1)" by (simp add: printing_parser_def)
  note loop = less.prems(1) [unfolded lazy_many1_loop.simps [of N "printing_parser N" "(s, out)" v i] pp, simplified]
  show ?case
  proof (cases res1)
    case (Ok r x)
    with p have short: "length r < length i" using hprof.step_Ok_shorter by simp
    then have "r \<noteq> i" by auto
    with less.hyps [OF short] loop Ok parse_hprof_record_keeps_flag [OF p] less.prems(2) show ?thesis by simp
  next
    case (Err e)
    with loop show ?thesis by (cases e) auto
  qed (use loop in auto)
qed

lemma quiet_iteration:
  assumes "\<not> sp_debug_mode self" and quiet: "\<not> hp_debug_mode (sp_parser self)"
  shows "iteration_lines N self b = Some []"
proof -
  let ?s = "sp_parser self" and ?i = "sp_loop_buffer self @ b"
  obtain s1 res1 where p: "parse_hprof_record N ?s ?i = (s1, res1)" by fastforce
  have "record_lines N ?s ?i = []" using quiet by (simp add: record_lines_def split: iresult.split)
  with p have pp: "printing_parser N (?s, []) ?i = ((s1, []), res1)" by (simp add: printing_parser_def)
  have "out = []" if "lazy_many1 N (printing_parser N) (?s, []) v ?i = Some ((s', out), res)" for v s' out res
  proof (cases res1)
    case (Err e)
    with that pp show ?thesis by (cases e) (auto simp: lazy_many1_def)
  qed (use that pp quiet_loop parse_hprof_record_keeps_flag [OF p] quiet in \<open>auto simp: lazy_many1_def\<close>)
  with iteration_lines_total [of self b] assms(1) show ?thesis
    by (auto simp: iteration_lines_def Let_def split: if_splits option.splits iresult.splits nom_err.splits needed.splits)
qed

lemma iteration_keeps_flags:
  assumes "stream_iteration N self b v = Some (Inr (self', em))"
  shows "sp_debug_mode self' = sp_debug_mode self \<and> hp_debug_mode (sp_parser self') = hp_debug_mode (sp_parser self)"
  using assms parse_streaming_keeps_flag [of "sp_parser self" "sp_pooled_vec self" "sp_loop_buffer self @ b"]
  by (auto simp: stream_iteration_def Let_def split: if_splits option.splits iresult.splits nom_err.splits needed.splits)

lemma quiet_lines:
  "\<not> sp_debug_mode self \<Longrightarrow> \<not> hp_debug_mode (sp_parser self) \<Longrightarrow> stream_lines N self bs = Some []"
proof (induction bs arbitrary: self)
  case (Cons b bs)
  obtain res where it: "stream_iteration N self b [] = Some res" using stream_iteration_total by blast
  show ?case
  proof (cases res)
    case (Inr x)
    with it obtain self' em where "stream_iteration N self b [] = Some (Inr (self', em))" by (cases x) simp
    with iteration_keeps_flags [OF this] Cons quiet_iteration [of self b] show ?thesis by simp
  qed (use it Cons.prems quiet_iteration [of self b] in simp)
qed simp

lemma written_file_lines:
  assumes "supported_id_size z" and "list_all (item_fits z) items" and "items \<noteq> []"
    and "length f = 18" and "0 \<notin> set f" and "length (enc_dump z items) \<le> 64 * 1024 * 1024"
  shows "debug_lines N (enc_file_header f z t @ enc_dump z items) debug_mode =
    Some (if debug_mode then found_lines z items else [])"
proof -
  let ?d = "enc_dump z items" and ?h = "file_header_from_bytes f z t"
  let ?sp = "stream_parser_new debug_mode z (31 + length ?d) 31 []"
  have "z = 4 \<or> z = 8" using assms(1) by (simp add: supported_id_size_def)
  with assms(4,5) have hd: "slurp_header N (enc_file_header f z t @ ?d) = Inr (Inr (?h, ?d))"
    by (intro slurp_header_accepts)
  have "enc_item z it \<noteq> []" for it by (cases it) (simp_all add: enc_record_def)
  with assms(3) have "?d \<noteq> []" by (cases items) (simp_all add: enc_dump_def)
  then have "chunks_of READ_BUFFER_SIZE ?d = [?d]"
    using assms(6) by (simp add: chunks_of.simps READ_BUFFER_SIZE_def)
  then have sent: "prefetch_loop (prefetch_reader_new ?d (31 + length ?d) 31 READ_BUFFER_SIZE) = Some ([?d], None)"
    using prefetch_loop_chunks [of "prefetch_reader_new ?d (31 + length ?d) 31 READ_BUFFER_SIZE"]
    by (simp add: prefetch_reader_new_def READ_BUFFER_SIZE_def)
  obtain res where "stream_iteration N ?sp ?d [] = Some res"
    using stream_iteration_total by blast
  then have "stream_lines N ?sp [?d] = Some (if debug_mode then found_lines z items else [])"
    using iteration_lines_dump [OF assms(1-3)] by (cases res) auto
  with hd sent assms(4) show ?thesis
    by (simp add: debug_lines_def FILE_HEADER_LENGTH_def file_header_from_bytes_def)
qed

lemma steps_out_lift:
  "(step N H)\<^sup>*\<^sup>* s s' \<Longrightarrow> \<exists>printed'. (step_out N H)\<^sup>*\<^sup>* (s, printed) (s', printed')"
proof (induction rule: rtranclp_induct)
  case (step s1 s2)
  then show ?case using step_out_lifts by (meson rtranclp.rtrancl_into_rtrancl)
qed blast

lemma debug_lines_threads:
  assumes hd: "slurp_header N b = Inr (Inr (h, rest))"
  shows "debug_lines N b dbg = stream_lines N
    (stream_parser_new dbg (fh_size_pointers h) (FILE_HEADER_LENGTH + length rest) FILE_HEADER_LENGTH [])
    (chunks_of READ_BUFFER_SIZE rest)"
  using hd header_ok(1) [OF hd] prefetch_loop_chunks [of "prefetch_reader_new rest (length b) FILE_HEADER_LENGTH READ_BUFFER_SIZE"]
  by (simp add: debug_lines_def prefetch_reader_new_def READ_BUFFER_SIZE_def)

lemma debug_output_of_run:
  assumes hd: "slurp_header N b = Inr (Inr (h, rest))"
    and run: "(step_out N H)\<^sup>*\<^sup>* (slurp_init dbg ls h (length b) rest, []) (s, printed)"
  obtains lines where "debug_lines N b dbg = Some lines" and "prefix printed lines"
    and "\<not> ps_alive (s_ps s) \<Longrightarrow> printed = lines" and "\<not> dbg \<Longrightarrow> lines = []"
proof -
  let ?sp = "stream_parser_new dbg (fh_size_pointers h) (FILE_HEADER_LENGTH + length rest) FILE_HEADER_LENGTH []"
  from run reachable_print [of H dbg ls h rest s printed] header_ok [OF hd]
  have inv: "print_inv N ?sp (chunks_of READ_BUFFER_SIZE rest) (s, printed)" by simp
  note dl = debug_lines_threads [OF hd, of dbg]
  obtain lines where lines: "stream_lines N ?sp (chunks_of READ_BUFFER_SIZE rest) = Some lines"
    using stream_lines_total by blast
  have quiet: "lines = []" if "\<not> dbg"
    using quiet_lines [of ?sp] lines that by (simp add: stream_parser_new_def hprof_record_parser_new_def)
  show thesis
  proof (cases "current (s_ps s)")
    case None
    with inv lines have "printed = lines" by (simp add: print_inv_def)
    with that dl lines quiet show thesis by simp
  next
    case (Some sp)
    with inv obtain before ems where "stream_run N ?sp before = Some (Inr (sp, ems))"
      "stream_lines N ?sp before = Some printed"
      and chunks: "before @ s_data s @ upcoming (s_pf s) = chunks_of READ_BUFFER_SIZE rest"
      by (auto simp: print_inv_def)
    from stream_lines_append [OF this(1,2), of "s_data s @ upcoming (s_pf s)"] lines chunks have "prefix printed lines"
      by (cases "stream_lines N sp (s_data s @ upcoming (s_pf s))") auto
    with that dl lines quiet Some current_None [of "s_ps s"] show thesis by simp
  qed
qed

end

section \<open>Properties\<close>

text \<open>Property C26: what the debug mode prints does not depend on how the threads run. For every file whose
  header is accepted, damaged or not, the lines printed so far by threads that have run in any order are the
  first of those that the loops print one after the other; when the parser thread has ended, by the end of
  the file or by a panic, all of them have been printed; and without the debug mode there are none.\<close>

theorem debug_output_any_schedule:
  assumes "nom_streaming N" and "slurp_header N b = Inr (Inr (h, rest))"
    and "(step_out N H)\<^sup>*\<^sup>* (slurp_init debug_mode ls h (length b) rest, []) (s, printed)"
  shows "\<exists>lines. debug_lines N b debug_mode = Some lines \<and> prefix printed lines \<and>
    (\<not> ps_alive (s_ps s) \<longrightarrow> printed = lines) \<and> (\<not> debug_mode \<longrightarrow> lines = [])"
  by (rule nom_streaming.debug_output_of_run [OF assms]) blast

theorem debug_output_any_schedule_witness:
  "\<exists>s printed. (step_out nom_ref insertion_order)\<^sup>*\<^sup>*
       (slurp_init True False sample_header (length (sample_file sample_record)) sample_record, []) (s, printed) \<and>
     \<not> ps_alive (s_ps s) \<and> printed = [''Found record tag:44 remaining bytes:9'' @ newline]"
proof -
  have z: "supported_header sample_header"
    by (simp add: supported_header_def sample_header_def file_header_from_bytes_def)
  obtain r where r: "recorder_run insertion_order (recorder_start False sample_header) [[HeapDumpEnd 5]] = Some (Inr r)"
    by (rule sample_report)
  obtain s where run: "(step nom_ref insertion_order)\<^sup>*\<^sup>* (start_of True False sample_header sample_record) s"
    and "\<nexists>s'. step nom_ref insertion_order s s'"
    using ref.reaches_end [OF rtranclp.rtrancl_refl z] by blast
  with ref.good_file_moves [OF z sample_reads r run] have "s_main s = M_Finished (Inr r)" by blast
  with ref.reachable_inv [OF run z] have ended: "\<not> ps_alive (s_ps s)" by (auto simp: sys_inv_defs)
  note len = ref.header_ok(1) [OF sample_header_read]
  from ref.steps_out_lift [OF run] len obtain printed where out: "(step_out nom_ref insertion_order)\<^sup>*\<^sup>*
      (slurp_init True False sample_header (length (sample_file sample_record)) sample_record, []) (s, printed)" by metis
  have written: "sample_file sample_record = enc_file_header (replicate 18 65) 8 0 @ enc_dump 8 [TopRecord 0 (HeapDumpEnd 5) []]"
    by code_simp
  have fits: "supported_id_size 8" "list_all (item_fits 8) [TopRecord 0 (HeapDumpEnd 5) []]"
    by (simp_all add: supported_id_size_def)
  have "length (enc_dump 8 [TopRecord 0 (HeapDumpEnd 5) []]) \<le> 64 * 1024 * 1024"
    by (simp add: enc_dump_def enc_record_def)
  then have "debug_lines nom_ref (sample_file sample_record) True = Some (found_lines 8 [TopRecord 0 (HeapDumpEnd 5) []])"
    unfolding written using ref.written_file_lines [OF fits, of "replicate 18 65" 0 True] by simp
  moreover have "found_lines 8 [TopRecord 0 (HeapDumpEnd 5) []] = [''Found record tag:44 remaining bytes:9'' @ newline]"
    by code_simp
  ultimately show ?thesis
    using debug_output_any_schedule [OF ref.nom_streaming_axioms sample_header_read out] out ended
    by (intro exI [of _ s] exI [of _ printed]) simp
qed

text \<open>Property C36: the debug output of a file. For a file with a header and a well-formed dump of at most
  64 MiB, the debug mode prints one line for each top-level record and each segment, in the order of the
  file, with its tag and the number of bytes from its start to the end of the file; nothing is printed
  for the records inside the segments, and nothing without the debug mode.\<close>

theorem debug_output_of_file:
  assumes "nom_streaming N" and "supported_id_size z" and "list_all (item_fits z) items" and "items \<noteq> []"
    and "length f = 18" and "0 \<notin> set f" and "length (enc_dump z items) \<le> 64 * 1024 * 1024"
  shows "debug_lines N (enc_file_header f z t @ enc_dump z items) debug_mode =
    Some (if debug_mode then found_lines z items else [])"
  by (rule nom_streaming.written_file_lines [OF assms])

theorem debug_output_of_file_witness:
  "debug_lines nom_ref (enc_file_header (replicate 18 65) 4 9 @
       enc_dump 4 [TopRecord 7 (UnloadClass 3) [], Segment 0x1C 8 [], TopRecord 9 (EndThread 3) []]) True =
     Some [''Found record tag:3 remaining bytes:35'' @ newline, ''Found record tag:28 remaining bytes:22'' @ newline,
       ''Found record tag:11 remaining bytes:13'' @ newline]"
proof -
  let ?items = "[TopRecord 7 (UnloadClass 3) [], Segment 0x1C 8 [], TopRecord 9 (EndThread 3) []]"
  have fits: "supported_id_size 4" "list_all (item_fits 4) ?items" "?items \<noteq> []"
    by (simp_all add: supported_id_size_def segment_body_def)
  have f: "length (replicate 18 (65 :: u8)) = 18" "0 \<notin> set (replicate 18 (65 :: u8))" by simp_all
  have len: "length (enc_dump 4 ?items) \<le> 64 * 1024 * 1024"
    by (simp add: enc_dump_def enc_record_def segment_body_def)
  have "found_lines 4 ?items = [''Found record tag:3 remaining bytes:35'' @ newline,
      ''Found record tag:28 remaining bytes:22'' @ newline, ''Found record tag:11 remaining bytes:13'' @ newline]"
    by code_simp
  with debug_output_of_file [OF ref.nom_streaming_axioms fits f len, of 9 True] show ?thesis by simp
qed

end
