(* ===== verification/Report_Spec.thy ===== *)
theory Report_Spec
  imports Memory_Laws Parsed_Records
begin

text \<open>
  The specification of the memory usage report, a function of the records of a dump without the maps
  of the recorder: the classes with instances, the classes and element types of arrays, the name a
  class goes by, its definition, and one row for each. The recorder refines it: when it reports, its
  rows are these rows, sorted; and it reports exactly when the chains of super classes end and the
  array names can be cut.
\<close>

section \<open>Specification\<close>

text \<open>The classes of instances, the classes of object arrays and the element types, once each.\<close>

definition keys_by :: "(hprof_record \<Rightarrow> 'k list) \<Rightarrow> hprof_record list \<Rightarrow> 'k list" where
  "keys_by key rs = remdups (concat (map key rs))"

definition instance_classes :: "hprof_record list \<Rightarrow> u64 list" where
  "instance_classes = keys_by (\<lambda>r. case r of GcSegment (InstanceDump _ _ c _) \<Rightarrow> [c] | _ \<Rightarrow> [])"

definition array_classes :: "hprof_record list \<Rightarrow> u64 list" where
  "array_classes = keys_by (\<lambda>r. case r of GcSegment (ObjectArrayDump _ _ _ c) \<Rightarrow> [c] | _ \<Rightarrow> [])"

definition array_types :: "hprof_record list \<Rightarrow> field_type list" where
  "array_types = keys_by (\<lambda>r. case r of
      GcSegment (PrimitiveArrayDump _ _ _ t) \<Rightarrow> [t]
    | GcSegment (PrimitiveArrayNoDataDump _ _ _ t) \<Rightarrow> [t]
    | _ \<Rightarrow> [])"

text \<open>The first definition of a class, and its name: the last string under the name of the last
  record that loads it.\<close>

definition class_of :: "hprof_record list \<Rightarrow> u64 \<Rightarrow> class_info option" where
  "class_of rs c = first_of (contributions (classes_under c) rs)"

definition name_of :: "hprof_record list \<Rightarrow> u64 \<Rightarrow> string" where
  "name_of rs c =
     (case Option.bind (last_of (contributions (loads_under lc_class_object_id c) rs))
         (\<lambda>d. last_of (contributions (strings_under (lc_class_name_id d)) rs)) of
        Some name \<Rightarrow> str_replace CHR ''/'' CHR ''.'' name
      | None \<Rightarrow> ''<unknown class 0x'' @ fmt_hex (unat c) @ ''>'')"

definition array_name_of :: "hprof_record list \<Rightarrow> u64 \<Rightarrow> string" where
  "array_name_of rs c = (case clean_class_name (name_of rs c) of Inl _ \<Rightarrow> [] | Inr name \<Rightarrow> name) @ ''[]''"

text \<open>The rows; \<open>bytes c\<close> is the size of an instance of the class before its alignment to 8.\<close>

definition instance_row_of :: "(u64 \<Rightarrow> nat) \<Rightarrow> hprof_record list \<Rightarrow> u64 \<Rightarrow> class_allocation_stats" where
  "instance_row_of bytes rs c =
     (let instances = word_of_nat (length (contributions (instances_under c) rs));
          size = word_of_nat (round_up 8 (bytes c))
      in class_allocation_stats_new (name_of rs c) instances size (size * instances))"

definition array_row_of :: "string \<Rightarrow> u64 list \<Rightarrow> class_allocation_stats" where
  "array_row_of name sizes =
     class_allocation_stats_new name (word_of_nat (length sizes)) (Max (set sizes)) (sum_list sizes)"

definition usage_rows :: "u32 \<Rightarrow> (u64 \<Rightarrow> nat) \<Rightarrow> hprof_record list \<Rightarrow> class_allocation_stats list" where
  "usage_rows z bytes rs =
     map (instance_row_of bytes rs) (instance_classes rs) @
     map (\<lambda>t. array_row_of (field_type_label t @ ''[]'') (contributions (primitive_arrays_under z t) rs)) (array_types rs) @
     map (\<lambda>c. array_row_of (array_name_of rs c) (contributions (object_arrays_under z c) rs)) (array_classes rs)"

section \<open>Keys\<close>

lemma keys_by_iff:
  assumes "\<And>r. k \<in> set (key r) \<longleftrightarrow> sel r \<noteq> []"
  shows "k \<in> set (keys_by key rs) \<longleftrightarrow> contributions sel rs \<noteq> []"
  by (simp add: keys_by_def contributions_def assms)

lemma instance_classes_iff: "c \<in> set (instance_classes rs) \<longleftrightarrow> contributions (instances_under c) rs \<noteq> []"
  unfolding instance_classes_def
  by (rule keys_by_iff) (simp add: instances_under_def split: hprof_record.split gc_record.split)

lemma array_classes_iff: "c \<in> set (array_classes rs) \<longleftrightarrow> contributions (object_arrays_under z c) rs \<noteq> []"
  unfolding array_classes_def
  by (rule keys_by_iff) (simp add: object_arrays_under_def split: hprof_record.split gc_record.split)

lemma array_types_iff: "t \<in> set (array_types rs) \<longleftrightarrow> contributions (primitive_arrays_under z t) rs \<noteq> []"
  unfolding array_types_def
  by (rule keys_by_iff) (simp add: primitive_arrays_under_def split: hprof_record.split gc_record.split)

lemma distinct_keys: "distinct (instance_classes rs)" "distinct (array_classes rs)" "distinct (array_types rs)"
  by (simp_all add: instance_classes_def array_classes_def array_types_def keys_by_def)

section \<open>The recorder after a sequence of records\<close>

text \<open>A recorder that has recorded \<open>rs\<close>.\<close>

definition recorded :: "u32 \<Rightarrow> hprof_record list \<Rightarrow> result_recorder \<Rightarrow> bool" where
  "recorded z rs self \<longleftrightarrow> (z = 4 \<or> z = 8) \<and> (\<exists>l t. record_records (result_recorder_new z l t) rs = Inr self)"

lemma recorded_inv: "recorded z rs self \<Longrightarrow> recorder_inv z self"
  by (auto simp: recorded_def intro: recorder_inv_records [OF recorder_inv_new])

lemma recorded_id_size: "recorded z rs self \<Longrightarrow> rr_id_size self = z \<and> (z = 4 \<or> z = 8)"
  using recorded_inv by (auto simp: recorded_def recorder_inv_def)

lemma recorded_class: "recorded z rs self \<Longrightarrow> hm_get (rr_classes_single_instance_size_by_id self) = class_of rs"
  unfolding recorded_def class_of_def using recorder_instances by blast

lemma recorded_name: "recorded z rs self \<Longrightarrow> fst (get_class_name_string self c ms) = name_of rs c"
proof -
  assume "recorded z rs self"
  then obtain l t where r: "record_records (result_recorder_new z l t) rs = Inr self" by (auto simp: recorded_def)
  have "Option.bind (hm_get (rr_class_data_by_id self) c) (vec_get (rr_class_data self)) =
      last_of (contributions (loads_under lc_class_object_id c) rs)"
    using last_recorded [OF r, of c] by (simp add: class_through_def)
  then show ?thesis using last_recorded [OF r]
    by (simp add: get_class_name_string_def name_of_def split: option.split)
qed

text \<open>The entries of the three maps, enumerated by the keys of the specification.\<close>

lemma recorded_entries:
  assumes "recorded z rs self"
  shows "mset (rr_classes_all_instance_total_size_by_id self) =
      mset (map (\<lambda>c. (c, \<lparr>number_of_instances = word_of_nat (length (contributions (instances_under c) rs))\<rparr>))
        (instance_classes rs))"
    and "mset (rr_primitive_array_counters self) =
      mset (map (\<lambda>t. (t, the (array_stats (contributions (primitive_arrays_under z t) rs)))) (array_types rs))"
    and "mset (rr_object_array_counters self) =
      mset (map (\<lambda>c. (c, the (array_stats (contributions (object_arrays_under z c) rs)))) (array_classes rs))"
proof -
  from assms obtain l t where z: "z = 4 \<or> z = 8" and r: "record_records (result_recorder_new z l t) rs = Inr self"
    by (auto simp: recorded_def)
  note inv = recorded_inv [OF assms, unfolded recorder_inv_def]
  have i: "hm_get (rr_classes_all_instance_total_size_by_id self) c =
      (if c \<in> set (instance_classes rs)
       then Some \<lparr>number_of_instances = word_of_nat (length (contributions (instances_under c) rs))\<rparr> else None)" for c
    using recorder_instances [OF z r, of c] by (simp add: instance_classes_iff Let_def)
  show "mset (rr_classes_all_instance_total_size_by_id self) =
      mset (map (\<lambda>c. (c, \<lparr>number_of_instances = word_of_nat (length (contributions (instances_under c) rs))\<rparr>))
        (instance_classes rs))"
    using hm.mset_entries [OF _ distinct_keys(1), of "rr_classes_all_instance_total_size_by_id self" rs] inv
    by (simp add: i cong: map_cong)
  show "mset (rr_primitive_array_counters self) =
      mset (map (\<lambda>t. (t, the (array_stats (contributions (primitive_arrays_under z t) rs)))) (array_types rs))"
    using hm.mset_entries [OF _ distinct_keys(3), of "rr_primitive_array_counters self" rs] inv arrays_recorded [OF z r]
    by (simp add: array_types_iff [of _ _ z] array_stats_def)
  show "mset (rr_object_array_counters self) =
      mset (map (\<lambda>c. (c, the (array_stats (contributions (object_arrays_under z c) rs)))) (array_classes rs))"
    using hm.mset_entries [OF _ distinct_keys(2), of "rr_object_array_counters self" rs] inv arrays_recorded [OF z r]
    by (simp add: array_classes_iff [of _ _ z] array_stats_def)
qed

section \<open>Rows\<close>

lemma primitive_row_succeeds: "succeeds (primitive_row x)" "missing_of (primitive_row x) = {}"
  by (cases x; simp add: succeeds_def missing_of_def primitive_row_def)+

lemma aggregate_iff:
  "aggregate_memory_usage insertion_order self ms = Some (Inr (rows, ms')) \<longleftrightarrow>
     list_all (\<lambda>x. succeeds (class_row self x)) (rr_classes_all_instance_total_size_by_id self) \<and>
     list_all (\<lambda>x. succeeds (object_row self x)) (rr_object_array_counters self) \<and>
     rows = sort_key stats_key
       (map (\<lambda>x. row_of (class_row self x)) (rr_classes_all_instance_total_size_by_id self) @
        map (\<lambda>x. row_of (primitive_row x)) (rr_primitive_array_counters self) @
        map (\<lambda>x. row_of (object_row self x)) (rr_object_array_counters self)) \<and>
     ms' = ms \<union> (\<Union>x \<in> set (rr_classes_all_instance_total_size_by_id self). missing_of (class_row self x)) \<union>
       (\<Union>x \<in> set (rr_object_array_counters self). missing_of (object_row self x))"
proof (cases "list_all (\<lambda>x. succeeds (class_row self x)) (rr_classes_all_instance_total_size_by_id self) \<and>
    list_all (\<lambda>x. succeeds (object_row self x)) (rr_object_array_counters self)")
  case True
  then have c: "collect_rows (class_row self) (rr_classes_all_instance_total_size_by_id self) ms =
      Some (Inr (map (\<lambda>x. row_of (class_row self x)) (rr_classes_all_instance_total_size_by_id self),
        ms \<union> (\<Union>x \<in> set (rr_classes_all_instance_total_size_by_id self). missing_of (class_row self x))))"
    and o: "collect_rows (object_row self) (rr_object_array_counters self) ms2 =
      Some (Inr (map (\<lambda>x. row_of (object_row self x)) (rr_object_array_counters self),
        ms2 \<union> (\<Union>x \<in> set (rr_object_array_counters self). missing_of (object_row self x))))"
    and p: "collect_rows primitive_row (rr_primitive_array_counters self) ms1 =
      Some (Inr (map (\<lambda>x. row_of (primitive_row x)) (rr_primitive_array_counters self), ms1))" for ms1 ms2
    by (simp_all add: collect_rows_iff class_row_additive primitive_row_additive object_row_additive
        primitive_row_succeeds list_all_iff)
  show ?thesis using True by (auto simp: aggregate_memory_usage_def insertion_order_def c o p)
next
  case False
  then show ?thesis
    by (auto simp: aggregate_memory_usage_def insertion_order_def collect_rows_iff class_row_additive
        primitive_row_additive object_row_additive split: option.splits sum.splits)
qed

lemma primitive_row_of:
  "ss \<noteq> [] \<Longrightarrow> row_of (primitive_row (t, the (array_stats ss))) = array_row_of (field_type_label t @ ''[]'') ss"
  by (simp add: row_of_def primitive_row_def array_stats_def array_row_of_def)

lemma object_row_of:
  assumes "recorded z rs self" and "ss \<noteq> []" and "succeeds (object_row self (c, the (array_stats ss)))"
  shows "row_of (object_row self (c, the (array_stats ss))) = array_row_of (array_name_of rs c) ss"
  using assms(2,3) recorded_name [OF assms(1), of c "{}"]
  by (cases "get_class_name_string self c {}"; cases "clean_class_name (name_of rs c)")
    (simp_all add: row_of_def object_row_def array_stats_def array_row_of_def array_name_of_def succeeds_def)

lemma object_row_succeeds:
  assumes "recorded z rs self"
  shows "succeeds (object_row self (c, ac)) \<longleftrightarrow> (\<exists>n. clean_class_name (name_of rs c) = Inr n)"
  using recorded_name [OF assms, of c "{}"]
  by (cases "get_class_name_string self c {}"; cases "clean_class_name (name_of rs c)")
    (simp_all add: object_row_def succeeds_def)

lemma recursive_no_panic:
  assumes "chain_ends (hm_get (rr_classes_single_instance_size_by_id self)) c"
    and "rr_id_size self = 4 \<or> rr_id_size self = 8"
  shows "\<exists>n ms'. calculate_instance_size_recursive self c ms = Some (Inr (n, ms'))"
  using assms(1)
proof (induction arbitrary: ms rule: chain_ends.induct)
  case (sub_class c ci)
  obtain n ms' where "calculate_instance_size_recursive self (ci_super_class_object_id ci) ms = Some (Inr (n, ms'))"
    using sub_class.IH by blast
  with sub_class.hyps assms(2) show ?case
    by (auto simp: calculate_instance_size_recursive.simps [of self c] Let_def next_multiple_of_def)
qed (use assms(2) in \<open>auto simp: calculate_instance_size_recursive.simps object_header_size_def\<close>)

lemma bytes_chain_ends: "instance_bytes z m c n ms \<Longrightarrow> chain_ends m c"
  by (induction rule: instance_bytes.induct) (blast intro: chain_ends.intros)+

lemma class_row_succeeds:
  assumes "recorded z rs self"
  shows "succeeds (class_row self (c, v)) \<longleftrightarrow> chain_ends (class_of rs) c"
proof -
  note z = recorded_id_size [OF assms]
  obtain n m where n: "get_class_name_string self c {} = (n, m)" by (cases "get_class_name_string self c {}")
  show ?thesis
  proof (cases "chain_ends (class_of rs) c")
    case True
    then obtain k ms' where "calculate_instance_size_recursive self c m = Some (Inr (k, ms'))"
      using recursive_no_panic z recorded_class [OF assms] by metis
    with True n show ?thesis
      by (auto simp: class_row_def succeeds_def calculate_instance_size_def OBJECT_ALIGN_def next_multiple_of_def Let_def)
  next
    case False
    then have "calculate_instance_size_recursive self c m = None"
      using recursive_ends recorded_class [OF assms] by (metis not_None_eq)
    with False n show ?thesis by (simp add: class_row_def succeeds_def calculate_instance_size_def)
  qed
qed

text \<open>The rows of the recorder and those of the specification.\<close>

lemma recorded_rows:
  assumes rec: "recorded z rs self" and agg: "aggregate_memory_usage insertion_order self ms = Some (Inr (rows, ms'))"
    and sizes: "\<And>c. c \<in> set (instance_classes rs) \<Longrightarrow>
      \<exists>ms. instance_bytes z (class_of rs) c (bytes c) ms \<and> round_up 8 (bytes c) < 2 ^ 32"
  shows "rows = sort_key stats_key (usage_rows z bytes rs)"
proof -
  note z = recorded_id_size [OF rec] and e = recorded_entries [OF rec]
  note ok = agg [unfolded aggregate_iff]
  have inst: "row_of (class_row self (c, \<lparr>number_of_instances = word_of_nat (length (contributions (instances_under c) rs))\<rparr>)) =
      instance_row_of bytes rs c" if "c \<in> set (instance_classes rs)" for c
    using sizes [OF that] class_row_value [of z self c "bytes c"] z recorded_class [OF rec] recorded_name [OF rec]
    by (auto simp: instance_row_of_def class_label_def Let_def)
  have obj: "row_of (object_row self (c, the (array_stats (contributions (object_arrays_under z c) rs)))) =
      array_row_of (array_name_of rs c) (contributions (object_arrays_under z c) rs)" if "c \<in> set (array_classes rs)" for c
  proof (rule object_row_of [OF rec])
    have "(c, the (array_stats (contributions (object_arrays_under z c) rs))) \<in># mset (rr_object_array_counters self)"
      unfolding e(3) using that by simp
    then show "succeeds (object_row self (c, the (array_stats (contributions (object_arrays_under z c) rs))))"
      using ok by (simp add: list_all_iff)
  qed (use that in \<open>simp add: array_classes_iff [of c rs z]\<close>)
  have prim: "row_of (primitive_row (t, the (array_stats (contributions (primitive_arrays_under z t) rs)))) =
      array_row_of (field_type_label t @ ''[]'') (contributions (primitive_arrays_under z t) rs)" if "t \<in> set (array_types rs)" for t
    using that by (intro primitive_row_of) (simp add: array_types_iff [of t rs z])
  have "mset rows = image_mset (\<lambda>x. row_of (class_row self x)) (mset (rr_classes_all_instance_total_size_by_id self)) +
      image_mset (\<lambda>x. row_of (primitive_row x)) (mset (rr_primitive_array_counters self)) +
      image_mset (\<lambda>x. row_of (object_row self x)) (mset (rr_object_array_counters self))"
    using ok by simp
  also have "\<dots> = mset (usage_rows z bytes rs)"
    unfolding e mset_map [symmetric] map_map usage_rows_def mset_append
    by (simp only: comp_def inst obj prim add.assoc cong: map_cong)
  finally have "mset rows = mset (usage_rows z bytes rs)" .
  moreover have "rows = sort_key stats_key rows" using ok by (simp add: sort_key_id_if_sorted)
  ultimately show ?thesis
    using sort_key_perm [of stats_key rows "usage_rows z bytes rs"] stats_key_inj by (metis inj_on_subset subset_UNIV)
qed

section \<open>Existence\<close>

lemma recorded_start:
  "z = 4 \<or> z = 8 \<Longrightarrow> record_records (result_recorder_new z l t) rs = Inr self \<Longrightarrow> recorded z rs self"
  by (auto simp: recorded_def)

text \<open>The recorder can report: the chains of super classes of all instances end, and the names of the
  classes of object arrays can be cut.\<close>

definition reportable :: "hprof_record list \<Rightarrow> bool" where
  "reportable rs \<longleftrightarrow>
     (\<forall>c \<in> set (instance_classes rs). chain_ends (class_of rs) c) \<and>
     (\<forall>c \<in> set (array_classes rs). \<exists>n. clean_class_name (name_of rs c) = Inr n)"

lemma aggregate_reportable:
  assumes "recorded z rs self"
  shows "(\<exists>rows ms'. aggregate_memory_usage insertion_order self ms = Some (Inr (rows, ms'))) \<longleftrightarrow> reportable rs"
proof -
  note e = recorded_entries [OF assms]
  have "set (rr_classes_all_instance_total_size_by_id self) =
      (\<lambda>c. (c, \<lparr>number_of_instances = word_of_nat (length (contributions (instances_under c) rs))\<rparr>)) ` set (instance_classes rs)"
    "set (rr_object_array_counters self) =
      (\<lambda>c. (c, the (array_stats (contributions (object_arrays_under z c) rs)))) ` set (array_classes rs)"
    using arg_cong [OF e(1), of set_mset] arg_cong [OF e(3), of set_mset] by simp_all
  then show ?thesis
    by (auto simp: aggregate_iff list_all_iff class_row_succeeds [OF assms] object_row_succeeds [OF assms] reportable_def)
qed

lemma result_reportable:
  assumes "recorded z rs self"
  shows "(\<exists>r. recorder_result insertion_order self = Some (Inr r)) \<longleftrightarrow> reportable rs"
  using aggregate_reportable [OF assms, of "snd (render_thread_info insertion_order self {})"]
  by (auto simp: recorder_result_def try_then_Inr split: prod.splits)

lemma run_reportable:
  assumes "hash_iteration H" and "z = 4 \<or> z = 8" and "list_all recordable (concat batches)"
  shows "(\<exists>r. recorder_run H (result_recorder_new z l t) batches = Some (Inr r)) \<longleftrightarrow> reportable (concat batches)"
proof -
  obtain self where self: "record_records (result_recorder_new z l t) (concat batches) = Inr self"
    using record_records_accepts [OF _ assms(3), of "result_recorder_new z l t"] assms(2)
    by (auto simp: result_recorder_new_def)
  have "(\<exists>r. recorder_run H (result_recorder_new z l t) batches = Some (Inr r)) \<longleftrightarrow>
      (\<exists>r. recorder_run insertion_order (result_recorder_new z l t) batches = Some (Inr r))"
    using recorder_run_any_order [OF assms(1) insertion.hash_iteration_axioms refl]
      recorder_run_any_order [OF insertion.hash_iteration_axioms assms(1) refl] by blast
  with result_reportable [OF recorded_start [OF assms(2) self]] self show ?thesis
    by (simp add: recorder_run_concat)
qed

text \<open>The size of an instance of every class with one is determined and fits 32 bits.\<close>

definition sizes_fit :: "u32 \<Rightarrow> (u64 \<Rightarrow> nat) \<Rightarrow> hprof_record list \<Rightarrow> bool" where
  "sizes_fit z bytes rs \<longleftrightarrow> (\<forall>c \<in> set (instance_classes rs).
     \<exists>ms. instance_bytes z (class_of rs) c (bytes c) ms \<and> round_up 8 (bytes c) < 2 ^ 32)"

lemma run_rows:
  assumes "hash_iteration H" and "z = 4 \<or> z = 8"
    and "recorder_run H (result_recorder_new z l t) batches = Some (Inr r)" and "sizes_fit z bytes (concat batches)"
  shows "rs_memory_usage r = sort_key stats_key (usage_rows z bytes (concat batches))"
proof -
  from recorder_run_any_order [OF assms(1) insertion.hash_iteration_axioms refl assms(3)] obtain self where
    self: "record_records (result_recorder_new z l t) (concat batches) = Inr self"
    and "recorder_result insertion_order self = Some (Inr r)"
    by (auto simp: recorder_run_concat split: sum.splits)
  then obtain ms ms' where "aggregate_memory_usage insertion_order self ms = Some (Inr (rs_memory_usage r, ms'))"
    by (auto simp: recorder_result_def try_then_Inr split: prod.splits)
  from recorded_rows [OF recorded_start [OF assms(2) self] this] assms(4) show ?thesis
    unfolding sizes_fit_def by blast
qed

lemma run_of_records:
  assumes "hash_iteration H" and "z = 4 \<or> z = 8" and "list_all recordable rs" and "sizes_fit z bytes rs"
    and "\<forall>c \<in> set (array_classes rs). \<exists>n. clean_class_name (name_of rs c) = Inr n"
  obtains r where "recorder_run H (result_recorder_new z l t) [rs] = Some (Inr r)"
    and "rs_memory_usage r = sort_key stats_key (usage_rows z bytes rs)"
proof -
  have "reportable rs" using assms(4,5) bytes_chain_ends unfolding reportable_def sizes_fit_def by blast
  with run_reportable [OF assms(1,2), of "[rs]" l t] assms(3) obtain r where
    r: "recorder_run H (result_recorder_new z l t) [rs] = Some (Inr r)" by auto
  with run_rows [OF assms(1,2) r] assms(4) that show thesis by simp
qed

section \<open>Properties\<close>

text \<open>Property C9: when the recorder reports. On records as the parser sends them, with an identifier
  size of 4 or 8, the recorder reports a result exactly when the chain of super classes of every class
  with an instance ends and the name of every class of object arrays can be cut; otherwise it does not
  return or panics.\<close>

theorem report_exists_iff:
  assumes "hash_iteration H" and "z = 4 \<or> z = 8" and "list_all recordable (concat batches)"
  shows "(\<exists>r. recorder_run H (result_recorder_new z l t) batches = Some (Inr r)) \<longleftrightarrow>
     (\<forall>c \<in> set (instance_classes (concat batches)). chain_ends (class_of (concat batches)) c) \<and>
     (\<forall>c \<in> set (array_classes (concat batches)). \<exists>n. clean_class_name (name_of (concat batches) c) = Inr n)"
  using run_reportable [OF assms] unfolding reportable_def .

theorem report_exists_iff_witness:
  "\<not> (\<exists>r. recorder_run reversed_order (result_recorder_new 8 False 0)
       [[GcSegment (ClassDump (class_dump_fields_new 7 0 7 0 [] [] [])), GcSegment (InstanceDump 1 0 7 0)]] = Some (Inr r)) \<and>
   (\<exists>r. recorder_run reversed_order (result_recorder_new 8 False 0)
       [[GcSegment (ClassDump (class_dump_fields_new 7 0 0 0 [] [] [])), GcSegment (InstanceDump 1 0 7 0)]] = Some (Inr r))"
proof -
  let ?b = "\<lambda>s. [[GcSegment (ClassDump (class_dump_fields_new 7 0 s 0 [] [] [])), GcSegment (InstanceDump 1 0 7 0)]]"
  define rs where "rs s = concat (?b s)" for s
  have k: "instance_classes (rs s) = [7]" "array_classes (rs s) = []"
    and c: "class_of (rs s) 7 = Some (class_info_new s [])" and r: "list_all recordable (concat (?b s))" for s
    by (simp_all add: rs_def instance_classes_def array_classes_def keys_by_def class_of_def contributions_def
        classes_under_def first_of_def class_dump_fields_new_def recordable_def)
  have "\<not> chain_ends (class_of (rs 7)) c" if "c = 7" for c
  proof
    assume "chain_ends (class_of (rs 7)) c"
    then show False using that c [of 7]
      by (induction rule: chain_ends.induct) (auto simp: class_info_new_def)
  qed
  moreover have "chain_ends (class_of (rs 0)) 7"
    using root_class [of "class_of (rs 0)" 7] c [of 0] by (simp add: class_info_new_def)
  moreover have "(\<exists>r. recorder_run reversed_order (result_recorder_new 8 False 0) (?b s) = Some (Inr r)) \<longleftrightarrow>
      chain_ends (class_of (rs s)) 7" for s
    unfolding report_exists_iff [OF reversed.hash_iteration_axioms disjI2 [OF refl] r [of s]]
    unfolding rs_def [symmetric] k by simp
  ultimately show ?thesis by blast
qed

end
