(* ===== verification/Full_Report.thy ===== *)
theory Full_Report
  imports Report_Spec
begin

text \<open>
  The specification of the whole report: summary, stack traces, memory usage, strings and warning as a
  function of the records of a dump, without the maps, the counters and the set of missing classes that
  the recorder threads through its rendering. The recorder refines it: what it reports is this report.
\<close>

section \<open>Specification\<close>

text \<open>The identifiers of strings, the loaded classes and the serial numbers of stack traces, once each.\<close>

definition string_ids :: "hprof_record list \<Rightarrow> u64 list" where
  "string_ids = keys_by (\<lambda>r. case r of Utf8String i _ \<Rightarrow> [i] | _ \<Rightarrow> [])"

definition loaded_ids :: "hprof_record list \<Rightarrow> u64 list" where
  "loaded_ids = keys_by (\<lambda>r. case r of LoadClass d \<Rightarrow> [lc_class_object_id d] | _ \<Rightarrow> [])"

definition trace_serials :: "hprof_record list \<Rightarrow> u32 list" where
  "trace_serials = keys_by (\<lambda>r. case r of StackTrace d \<Rightarrow> [st_serial_number d] | _ \<Rightarrow> [])"

text \<open>The last record under a key counts.\<close>

definition string_of_id :: "hprof_record list \<Rightarrow> u64 \<Rightarrow> string option" where
  "string_of_id rs i = last_of (contributions (strings_under i) rs)"

definition frame_of :: "hprof_record list \<Rightarrow> u64 \<Rightarrow> stack_frame_data option" where
  "frame_of rs i = last_of (contributions (frames_under i) rs)"

definition trace_of :: "hprof_record list \<Rightarrow> u32 \<Rightarrow> stack_trace_data option" where
  "trace_of rs n = last_of (contributions (traces_under n) rs)"

definition class_by_serial :: "hprof_record list \<Rightarrow> u32 \<Rightarrow> load_class_data option" where
  "class_by_serial rs n = last_of (contributions (loads_under lc_serial_number n) rs)"

text \<open>A class without a name.\<close>

definition unnamed :: "hprof_record list \<Rightarrow> u64 \<Rightarrow> u64 set" where
  "unnamed rs c =
     (case Option.bind (last_of (contributions (loads_under lc_class_object_id c) rs))
         (\<lambda>d. string_of_id rs (lc_class_name_id d)) of
        Some _ \<Rightarrow> {}
      | None \<Rightarrow> {c})"

subsection \<open>Stack traces\<close>

definition text_or :: "string \<Rightarrow> string option \<Rightarrow> string" where
  "text_or d s = (case s of None \<Rightarrow> d | Some s \<Rightarrow> s)"

definition frame_text :: "hprof_record list \<Rightarrow> u64 \<Rightarrow> string" where
  "frame_text rs i =
     ''  at '' @
     (case frame_of rs i of
        None \<Rightarrow> ''<unknown stack frame 0x'' @ fmt_hex (unat i) @ ''>''
      | Some f \<Rightarrow>
          (case class_by_serial rs (sf_class_serial_number f) of
             Some d \<Rightarrow> name_of rs (lc_class_object_id d)
           | None \<Rightarrow> ''<unknown class (serial '' @ fmt_nat (unat (sf_class_serial_number f)) @ '')>'') @ ''.'' @
          text_or ''unknown method name'' (string_of_id rs (sf_method_name_id f)) @ '' ('' @
          text_or ''unknown source file'' (string_of_id rs (sf_source_file_name_id f)) @ '':'' @
          pretty_line_number (sf_line_number f) @ '')'') @ newline"

definition frame_unnamed :: "hprof_record list \<Rightarrow> u64 \<Rightarrow> u64 set" where
  "frame_unnamed rs i =
     (case Option.bind (frame_of rs i) (\<lambda>f. class_by_serial rs (sf_class_serial_number f)) of
        Some d \<Rightarrow> unnamed rs (lc_class_object_id d)
      | None \<Rightarrow> {})"

text \<open>The stack traces with frames, by increasing serial number.\<close>

definition thread_frames :: "hprof_record list \<Rightarrow> u64 list list" where
  "thread_frames rs = filter (\<lambda>ids. ids \<noteq> [])
     (map (\<lambda>n. st_stack_frame_ids (the (trace_of rs n))) (sort (trace_serials rs)))"

definition thread_text :: "hprof_record list \<Rightarrow> nat \<times> u64 list \<Rightarrow> string" where
  "thread_text rs t = newline @ ''Thread '' @ fmt_nat (fst t + 1) @ newline @ concat (map (frame_text rs) (snd t))"

definition thread_info_of :: "hprof_record list \<Rightarrow> string" where
  "thread_info_of rs =
     newline @ ''Found '' @ fmt_nat (length (thread_frames rs)) @ '' threads with stacktraces:'' @ newline @
     concat (map (thread_text rs) (enumerate 0 (thread_frames rs)))"

subsection \<open>Strings, warning and summary\<close>

definition strings_of :: "hprof_record list \<Rightarrow> string list" where
  "strings_of rs = sort (map (\<lambda>i. the (string_of_id rs i)) (string_ids rs))"

definition duplicated_of :: "hprof_record list \<Rightarrow> string option" where
  "duplicated_of rs =
     (let n = length (string_ids rs); distinct_strings = card (set (strings_of rs))
      in if distinct_strings = n then None
         else Some (newline @ ''Found '' @ fmt_nat (n - distinct_strings) @ '' duplicated strings out of '' @
           fmt_nat n @ '' unique strings'' @ newline))"

definition captured_of :: "hprof_record list \<Rightarrow> string" where
  "captured_of rs = newline @ ''List of Strings'' @ newline @ concat (map (\<lambda>s. s @ newline) (strings_of rs))"

text \<open>The classes the report calls missing: those without a name that have an instance, an array or a
  frame of a stack trace, and the undefined classes \<open>undef c\<close> among the super classes of an instance.\<close>

definition missing_of_dump :: "(u64 \<Rightarrow> u64 set) \<Rightarrow> hprof_record list \<Rightarrow> u64 set" where
  "missing_of_dump undef rs =
     (\<Union>ids \<in> set (thread_frames rs). \<Union>i \<in> set ids. frame_unnamed rs i) \<union>
     (\<Union>c \<in> set (instance_classes rs). unnamed rs c \<union> undef c) \<union>
     (\<Union>c \<in> set (array_classes rs). unnamed rs c)"

text \<open>What the summary calls a record and a sub-record. Counts are 32-bit words.\<close>

fun label_of :: "hprof_record \<Rightarrow> string" where
  "label_of (Utf8String _ _) = ''UTF-8 Strings''"
| "label_of (LoadClass _) = ''Classes loaded''"
| "label_of (UnloadClass _) = ''Classes unloaded''"
| "label_of (StackFrame _) = ''Stack frames''"
| "label_of (StackTrace _) = ''Stack traces''"
| "label_of (AllocationSites _ _ _ _ _ _ _ _) = ''Allocation sites''"
| "label_of (StartThread _ _ _ _ _ _) = ''Start threads''"
| "label_of (EndThread _) = ''End threads''"
| "label_of (HeapSummary _ _ _ _) = ''Heap summaries''"
| "label_of (HeapDumpStart _) = ''heap dumps''"
| "label_of (HeapDumpEnd _) = []"
| "label_of (ControlSettings _ _) = ''Control settings''"
| "label_of (CpuSamples _ _ _) = ''CPU samples''"
| "label_of (GcSegment _) = ''segments''"

fun gc_label_of :: "gc_record \<Rightarrow> string" where
  "gc_label_of (RootUnknown _) = ''..GC root unknown''"
| "gc_label_of (RootThreadObject _ _ _) = ''..GC root thread objects''"
| "gc_label_of (RootJniGlobal _ _) = ''..GC root JNI global''"
| "gc_label_of (RootJniLocal _ _ _) = ''..GC root JNI local''"
| "gc_label_of (RootJavaFrame _ _ _) = ''..GC root Java frame''"
| "gc_label_of (RootNativeStack _ _) = ''..GC root native stack''"
| "gc_label_of (RootStickyClass _) = ''..GC root sticky class''"
| "gc_label_of (RootThreadBlock _ _) = ''..GC root thread block''"
| "gc_label_of (RootMonitorUsed _) = ''..GC root monitor used''"
| "gc_label_of (PrimitiveArrayDump _ _ _ _) = ''..GC primitive array dump''"
| "gc_label_of (PrimitiveArrayNoDataDump _ _ _ _) = ''..GC primitive array dump''"
| "gc_label_of (ObjectArrayDump _ _ _ _) = ''..GC object array dump''"
| "gc_label_of (ClassDump _) = ''..GC class dump''"
| "gc_label_of (InstanceDump _ _ _ _) = ''..GC instance dump''"
| "gc_label_of _ = []"

definition n_records :: "string \<Rightarrow> hprof_record list \<Rightarrow> nat" where
  "n_records label rs = unat (tally (\<lambda>r. label_of r = label) rs)"

definition n_gc :: "string \<Rightarrow> hprof_record list \<Rightarrow> nat" where
  "n_gc label rs = unat (tally (gc_hit (\<lambda>g. gc_label_of g = label)) rs)"

definition count_lines :: "string list \<Rightarrow> hprof_record list \<Rightarrow> string" where
  "count_lines labels rs = concat (map (\<lambda>label. summary_line label (n_records label rs)) labels)"

definition gc_lines :: "string list \<Rightarrow> hprof_record list \<Rightarrow> string" where
  "gc_lines labels rs = concat (map (\<lambda>label. summary_line label (n_gc label rs)) labels)"

definition summary_of :: "u64 \<Rightarrow> hprof_record list \<Rightarrow> string" where
  "summary_of t rs =
     (if t = 0 then []
      else newline @ ''Dump captured at '' @ pretty_timestamp_utc t @ ''.'' @ newline) @
     newline @ ''File content summary:'' @ newline @ newline @
     summary_line ''UTF-8 Strings'' (length (string_ids rs)) @
     summary_line ''Classes loaded'' (length (loaded_ids rs)) @
     count_lines [''Classes unloaded'', ''Stack traces'', ''Stack frames'', ''Start threads'', ''Allocation sites'',
       ''End threads'', ''Control settings'', ''CPU samples'', ''Heap summaries''] rs @
     fmt_nat (n_records ''heap dumps'' rs) @ '' heap dumps containing in total '' @
     fmt_nat (n_records ''segments'' rs) @ '' segments:'' @ newline @
     gc_lines [''..GC root unknown'', ''..GC root thread objects'', ''..GC root JNI global'', ''..GC root JNI local'',
       ''..GC root Java frame'', ''..GC root native stack'', ''..GC root sticky class'', ''..GC root thread block'',
       ''..GC root monitor used'', ''..GC primitive array dump'', ''..GC object array dump'', ''..GC class dump''] rs @
     ''..GC instance dump: '' @ fmt_nat (n_gc ''..GC instance dump'' rs)"

text \<open>The report. \<open>bytes c\<close> is the size of an instance before its alignment to 8.\<close>

definition report_of ::
  "u32 \<Rightarrow> bool \<Rightarrow> u64 \<Rightarrow> (u64 \<Rightarrow> nat) \<Rightarrow> (u64 \<Rightarrow> u64 set) \<Rightarrow> hprof_record list \<Rightarrow> rendered_result" where
  "report_of z list_strings t bytes undef rs =
     \<lparr>rs_summary = summary_of t rs, rs_thread_info = thread_info_of rs,
      rs_memory_usage = sort_key stats_key (usage_rows z bytes rs),
      rs_duplicated_strings = duplicated_of rs,
      rs_captured_strings = (if list_strings then Some (captured_of rs) else None),
      rs_warnings = render_missing_class_warning (missing_of_dump undef rs)\<rparr>"

section \<open>Lookups\<close>

lemma keys_wf:
  assumes "recorded z rs self"
  shows "mset (rr_utf8_strings_by_id self) = mset (map (\<lambda>i. (i, the (string_of_id rs i))) (string_ids rs))"
    and "mset (rr_stack_trace_by_serial_number self) = mset (map (\<lambda>n. (n, the (trace_of rs n))) (trace_serials rs))"
    and "hm_len (rr_class_data_by_id self) = length (loaded_ids rs)"
proof -
  from assms obtain l t where r: "record_records (result_recorder_new z l t) rs = Inr self" by (auto simp: recorded_def)
  note inv = recorded_inv [OF assms, unfolded recorder_inv_def]
  have s: "i \<in> set (string_ids rs) \<longleftrightarrow> contributions (strings_under i) rs \<noteq> []" for i
    unfolding string_ids_def by (rule keys_by_iff) (simp add: strings_under_def split: hprof_record.split)
  have t: "n \<in> set (trace_serials rs) \<longleftrightarrow> contributions (traces_under n) rs \<noteq> []" for n
    unfolding trace_serials_def by (rule keys_by_iff) (simp add: traces_under_def split: hprof_record.split)
  have c: "c \<in> set (loaded_ids rs) \<longleftrightarrow> contributions (loads_under lc_class_object_id c) rs \<noteq> []" for c
    unfolding loaded_ids_def by (rule keys_by_iff) (simp add: loads_under_def split: hprof_record.split)
  have d: "distinct (string_ids rs)" "distinct (trace_serials rs)" "distinct (loaded_ids rs)"
    by (simp_all add: string_ids_def trace_serials_def loaded_ids_def keys_by_def)
  show "mset (rr_utf8_strings_by_id self) = mset (map (\<lambda>i. (i, the (string_of_id rs i))) (string_ids rs))"
    using hm.mset_entries [OF _ d(1), of "rr_utf8_strings_by_id self"] inv last_recorded [OF r]
    by (simp add: s last_of_def string_of_id_def)
  show "mset (rr_stack_trace_by_serial_number self) = mset (map (\<lambda>n. (n, the (trace_of rs n))) (trace_serials rs))"
    using hm.mset_entries [OF _ d(2), of "rr_stack_trace_by_serial_number self"] inv last_recorded [OF r]
    by (simp add: t last_of_def trace_of_def)
  have "class_index_ok (rr_class_data self) lc_class_object_id (rr_class_data_by_id self)" using inv by simp
  then have "hm_get (rr_class_data_by_id self) c \<noteq> None \<longleftrightarrow>
      class_through (rr_class_data self) (rr_class_data_by_id self) c \<noteq> None" for c
    by (cases "hm_get (rr_class_data_by_id self) c")
      (auto simp: class_through_def class_index_ok_def vec_get_def)
  then have "hm_get (rr_class_data_by_id self) c \<noteq> None \<longleftrightarrow> c \<in> set (loaded_ids rs)" for c
    using last_recorded [OF r, of c] by (simp add: c last_of_def)
  then show "hm_len (rr_class_data_by_id self) = length (loaded_ids rs)"
    using hm.mset_entries [OF _ d(3), of "rr_class_data_by_id self", THEN arg_cong [of _ _ size]] inv
    by (simp add: hm_len_def)
qed

lemma class_name_string:
  assumes "recorded z rs self"
  shows "get_class_name_string self c ms = (name_of rs c, ms \<union> unnamed rs c)"
proof -
  from assms obtain l t where r: "record_records (result_recorder_new z l t) rs = Inr self" by (auto simp: recorded_def)
  have "Option.bind (hm_get (rr_class_data_by_id self) c) (vec_get (rr_class_data self)) =
      last_of (contributions (loads_under lc_class_object_id c) rs)"
    using last_recorded [OF r, of c] by (simp add: class_through_def)
  then show ?thesis using last_recorded [OF r]
    by (auto simp: get_class_name_string_def name_of_def unnamed_def string_of_id_def split: option.split)
qed

section \<open>Stack traces\<close>

lemma frame_rendered:
  assumes "recorded z rs self"
  shows "render_stack_frame self i ms = (frame_text rs i, ms \<union> frame_unnamed rs i)"
proof -
  from assms obtain l t where r: "record_records (result_recorder_new z l t) rs = Inr self" by (auto simp: recorded_def)
  have c: "Option.bind (hm_get (rr_class_data_by_serial_number self) n) (vec_get (rr_class_data self)) =
      class_by_serial rs n" for n
    using last_recorded [OF r, of _ n] by (simp add: class_through_def class_by_serial_def)
  show ?thesis
    using last_recorded [OF r]
    by (simp add: render_stack_frame_def frame_text_def frame_unnamed_def c frame_of_def [symmetric]
        string_of_id_def [symmetric] text_or_def class_name_string [OF assms] split: option.split)
qed

lemma frames_rendered:
  assumes "recorded z rs self"
  shows "render_stack_frames self ids ms =
    (concat (map (frame_text rs) ids), ms \<union> (\<Union>i \<in> set ids. frame_unnamed rs i))"
  by (induction ids arbitrary: ms) (simp_all add: frame_rendered [OF assms] Un_assoc)

lemma threads_rendered:
  assumes "recorded z rs self"
  shows "render_threads self k traces ms =
    (concat (map (thread_text rs) (enumerate k (map (\<lambda>t. st_stack_frame_ids (snd t)) traces))),
     ms \<union> (\<Union>t \<in> set traces. \<Union>i \<in> set (st_stack_frame_ids (snd t)). frame_unnamed rs i))"
proof (induction traces arbitrary: k ms)
  case (Cons t traces)
  then show ?case by (cases t) (simp add: frames_rendered [OF assms] thread_text_def Un_assoc)
qed simp

lemma traces_in_order:
  assumes "recorded z rs self"
  shows "sort_key fst (filter P (rr_stack_trace_by_serial_number self)) =
    filter P (map (\<lambda>n. (n, the (trace_of rs n))) (sort (trace_serials rs)))" (is "_ = filter P ?ts")
proof -
  have m: "mset (rr_stack_trace_by_serial_number self) = mset ?ts" using keys_wf(2) [OF assms] by simp
  have "sorted (map fst ?ts)" by (simp add: comp_def)
  then have "sorted (map fst (filter P ?ts))" by (rule sorted_filter)
  then have s: "sort_key fst (filter P ?ts) = filter P ?ts" by (rule sort_key_id_if_sorted)
  have "inj_on fst (set (filter P (rr_stack_trace_by_serial_number self)))"
    using recorded_inv [OF assms] by (auto simp: recorder_inv_def hm_wf_def distinct_map intro: inj_on_subset)
  moreover have "mset (filter P (rr_stack_trace_by_serial_number self)) = mset (filter P ?ts)"
    unfolding mset_filter m ..
  ultimately have "sort_key fst (filter P (rr_stack_trace_by_serial_number self)) = sort_key fst (filter P ?ts)"
    by (rule sort_key_perm)
  then show ?thesis unfolding s .
qed

lemma thread_info_rendered:
  assumes "recorded z rs self"
  shows "render_thread_info insertion_order self ms =
    (thread_info_of rs, ms \<union> (\<Union>ids \<in> set (thread_frames rs). \<Union>i \<in> set ids. frame_unnamed rs i))"
proof -
  let ?P = "\<lambda>(_, stack). st_stack_frame_ids stack \<noteq> []"
  let ?ts = "filter ?P (map (\<lambda>n. (n, the (trace_of rs n))) (sort (trace_serials rs)))"
  have f: "map (\<lambda>t. st_stack_frame_ids (snd t)) ?ts = thread_frames rs"
    by (simp add: thread_frames_def filter_map comp_def)
  have "length ?ts = length (thread_frames rs)" using arg_cong [OF f, of length] by (simp only: length_map)
  moreover have "(\<Union>t \<in> set ?ts. \<Union>i \<in> set (st_stack_frame_ids (snd t)). frame_unnamed rs i) =
      (\<Union>ids \<in> set (thread_frames rs). \<Union>i \<in> set ids. frame_unnamed rs i)"
    unfolding f [symmetric] by simp
  ultimately show ?thesis
    unfolding render_thread_info_def insertion_order_def hash_order.simps id_apply Let_def traces_in_order [OF assms]
      threads_rendered [OF assms] f
    by (simp only: prod.case thread_info_of_def)
qed

section \<open>Strings\<close>

lemma strings_recorded: "recorded z rs self \<Longrightarrow> captured_values insertion_order self = strings_of rs"
proof -
  assume "recorded z rs self"
  from arg_cong [OF keys_wf(1) [OF this], of "image_mset snd"]
  have "mset (map snd (rr_utf8_strings_by_id self)) = mset (map (\<lambda>i. the (string_of_id rs i)) (string_ids rs))"
    by (simp flip: mset_map add: comp_def)
  then show ?thesis
    unfolding captured_values_def strings_of_def insertion_order_def hash_order.simps
    by (intro sort_key_perm) simp_all
qed

lemma strings_rendered:
  assumes "recorded z rs self"
  shows "render_captured_strings insertion_order self = captured_of rs"
    and "render_duplicated_strings insertion_order self = duplicated_of rs"
proof -
  show "render_captured_strings insertion_order self = captured_of rs"
    by (simp add: render_captured_strings_def captured_of_def strings_recorded [OF assms])
  have "sorted (strings_of rs)" by (simp add: strings_of_def)
  then have "length (remdups_adj (strings_of rs)) = card (set (strings_of rs))"
    using distinct_card [OF sorted_remdups_adj_distinct] by (metis remdups_adj_set)
  moreover have "length (strings_of rs) = length (string_ids rs)" by (simp add: strings_of_def)
  ultimately show "render_duplicated_strings insertion_order self = duplicated_of rs"
    by (auto simp: render_duplicated_strings_def duplicated_of_def strings_recorded [OF assms] Let_def)
qed

section \<open>Summary\<close>

lemma tag_kinds:
  "map snd tag_counters = map (\<lambda>label r. label_of r = label)
     [''Classes unloaded'', ''Stack frames'', ''Stack traces'', ''Start threads'', ''End threads'', ''Heap summaries'',
      ''heap dumps'', ''Allocation sites'', ''Control settings'', ''CPU samples'', ''segments'']"
  by (simp add: tag_counters_def fun_eq_iff split: hprof_record.split)

lemma gc_tag_kinds:
  "map snd gc_tag_counters = map (\<lambda>label g. gc_label_of g = label)
     [''..GC root unknown'', ''..GC root thread objects'', ''..GC root JNI global'', ''..GC root JNI local'',
      ''..GC root Java frame'', ''..GC root native stack'', ''..GC root sticky class'', ''..GC root thread block'',
      ''..GC root monitor used'', ''..GC object array dump'', ''..GC instance dump'', ''..GC primitive array dump'',
      ''..GC class dump'']"
  by (simp add: gc_tag_counters_def fun_eq_iff split: gc_record.split)

lemma tag_counts:
  assumes "record_records (result_recorder_new z l t) rs = Inr self"
  shows "map (\<lambda>c. fst c self) tag_counters = map (\<lambda>kind. tally kind rs) (map snd tag_counters)"
    and "map (\<lambda>c. fst c self) gc_tag_counters = map (\<lambda>kind. tally (gc_hit kind) rs) (map snd gc_tag_counters)"
  using counters_recorded [OF assms] by (auto simp: list_all_iff)

lemma summary_rendered:
  assumes "record_records (result_recorder_new z l t) rs = Inr self" and "z = 4 \<or> z = 8"
  shows "render_summary self = summary_of t rs"
proof -
  note counts = tag_counts(1) [OF assms(1), unfolded tag_kinds, unfolded tag_counters_def, simplified]
    tag_counts(2) [OF assms(1), unfolded gc_tag_kinds, unfolded gc_tag_counters_def, simplified]
  have rec: "recorded z rs self" using assms by (auto simp: recorded_def)
  have "hm_len (rr_utf8_strings_by_id self) = length (string_ids rs)"
    using arg_cong [OF keys_wf(1) [OF rec], of size] by (simp add: hm_len_def)
  moreover have "rr_timestamp self = t" using assms(1) by (rule options_kept)
  ultimately show ?thesis
    by (simp add: render_summary_def summary_of_def keys_wf(3) [OF rec] counts count_lines_def gc_lines_def
        n_records_def n_gc_def summary_line_def Let_def)
qed

section \<open>Missing classes\<close>

lemma class_row_missing:
  assumes "recorded z rs self" and "instance_bytes z (class_of rs) c n ms" and "round_up 8 n < 2 ^ 32"
  shows "missing_of (class_row self (c, v)) = unnamed rs c \<union> ms"
  using instance_size_value [of z self c n ms] recorded_id_size [OF assms(1)] assms(2,3)
  by (simp add: recorded_class [OF assms(1)] missing_of_def class_row_def class_name_string [OF assms(1)] Let_def)

lemma object_row_missing:
  assumes "recorded z rs self" and "succeeds (object_row self (c, v))"
  shows "missing_of (object_row self (c, v)) = unnamed rs c"
  using assms(2)
  by (cases "clean_class_name (name_of rs c)")
    (simp_all add: succeeds_def missing_of_def object_row_def class_name_string [OF assms(1)])

text \<open>The sizes and the undefined super classes of the classes with instances.\<close>

definition layout_known :: "u32 \<Rightarrow> (u64 \<Rightarrow> nat) \<Rightarrow> (u64 \<Rightarrow> u64 set) \<Rightarrow> hprof_record list \<Rightarrow> bool" where
  "layout_known z bytes undef rs \<longleftrightarrow> (\<forall>c \<in> set (instance_classes rs).
     instance_bytes z (class_of rs) c (bytes c) (undef c) \<and> round_up 8 (bytes c) < 2 ^ 32)"

lemma layout_sizes: "layout_known z bytes undef rs \<Longrightarrow> sizes_fit z bytes rs"
  unfolding layout_known_def sizes_fit_def by blast

lemma missing_recorded:
  assumes rec: "recorded z rs self" and lay: "layout_known z bytes undef rs"
    and agg: "aggregate_memory_usage insertion_order self ms = Some (Inr (rows, ms'))"
  shows "ms' = ms \<union> (\<Union>c \<in> set (instance_classes rs). unnamed rs c \<union> undef c) \<union> (\<Union>c \<in> set (array_classes rs). unnamed rs c)"
proof -
  note ok = agg [unfolded aggregate_iff]
  have i: "set (rr_classes_all_instance_total_size_by_id self) =
      (\<lambda>c. (c, \<lparr>number_of_instances = word_of_nat (length (contributions (instances_under c) rs))\<rparr>)) ` set (instance_classes rs)"
    and o: "set (rr_object_array_counters self) =
      (\<lambda>c. (c, the (array_stats (contributions (object_arrays_under z c) rs)))) ` set (array_classes rs)"
    using arg_cong [OF recorded_entries(1) [OF rec], of set_mset] arg_cong [OF recorded_entries(3) [OF rec], of set_mset]
    by simp_all
  have "missing_of (class_row self (c, v)) = unnamed rs c \<union> undef c" if "c \<in> set (instance_classes rs)" for c v
    using class_row_missing [OF rec] lay that unfolding layout_known_def by blast
  moreover have "missing_of (object_row self x) = unnamed rs (fst x)" if "x \<in> set (rr_object_array_counters self)" for x
    using object_row_missing [OF rec, of "fst x" "snd x"] ok that by (simp add: list_all_iff)
  ultimately show ?thesis using ok by (simp add: i o)
qed

section \<open>Refinement\<close>

lemma recorder_reports:
  assumes rec: "record_records (result_recorder_new z l t) rs = Inr self" and z: "z = 4 \<or> z = 8"
    and lay: "layout_known z bytes undef rs" and res: "recorder_result insertion_order self = Some (Inr r)"
  shows "r = report_of z l t bytes undef rs"
proof -
  have re: "recorded z rs self" using rec z by (auto simp: recorded_def)
  let ?ms = "\<Union>ids \<in> set (thread_frames rs). \<Union>i \<in> set ids. frame_unnamed rs i"
  have info: "render_thread_info insertion_order self {} = (thread_info_of rs, ?ms)"
    using thread_info_rendered [OF re, of "{}"] by simp
  with res obtain ms' where agg: "aggregate_memory_usage insertion_order self ?ms = Some (Inr (rs_memory_usage r, ms'))"
    and r: "r = \<lparr>rs_summary = render_summary self, rs_thread_info = thread_info_of rs, rs_memory_usage = rs_memory_usage r,
      rs_duplicated_strings = render_duplicated_strings insertion_order self,
      rs_captured_strings = (if rr_list_strings self then Some (render_captured_strings insertion_order self) else None),
      rs_warnings = render_missing_class_warning ms'\<rparr>"
    by (auto simp: recorder_result_def try_then_Inr)
  have "ms' = missing_of_dump undef rs"
    unfolding missing_recorded [OF re lay agg] missing_of_dump_def by (simp add: Un_assoc)
  moreover have "rs_memory_usage r = sort_key stats_key (usage_rows z bytes rs)"
    using recorded_rows [OF re agg] layout_sizes [OF lay] unfolding sizes_fit_def by blast
  ultimately show ?thesis
    by (subst r) (simp add: report_of_def summary_rendered [OF rec z] strings_rendered [OF re] options_kept [OF rec])
qed

lemma run_reports:
  assumes "hash_iteration H" and z: "z = 4 \<or> z = 8" and "layout_known z bytes undef (concat batches)"
    and "recorder_run H (result_recorder_new z l t) batches = Some (Inr r)"
  shows "r = report_of z l t bytes undef (concat batches)"
proof -
  from recorder_run_any_order [OF assms(1) insertion.hash_iteration_axioms refl assms(4)] obtain self where
    "record_records (result_recorder_new z l t) (concat batches) = Inr self"
    and "recorder_result insertion_order self = Some (Inr r)"
    by (auto simp: recorder_run_concat split: sum.splits)
  from recorder_reports [OF this(1) z assms(3) this(2)] show ?thesis .
qed

lemma reports_of_records:
  assumes "hash_iteration H" and "z = 4 \<or> z = 8" and "list_all recordable rs" and "layout_known z bytes undef rs"
    and "\<forall>c \<in> set (array_classes rs). \<exists>n. clean_class_name (name_of rs c) = Inr n"
  shows "recorder_run H (result_recorder_new z l t) [rs] = Some (Inr (report_of z l t bytes undef rs))"
  using run_of_records [OF assms(1-3) layout_sizes [OF assms(4)] assms(5), of l t]
    run_reports [OF assms(1,2), of bytes undef "[rs]" l t] assms(4) by auto

section \<open>Properties\<close>

text \<open>Property C8: the report is exactly the specified one. When the recorder reports on the records of a
  dump in which the sizes of instances fit 32 bits, all of its result is a function of the records: the
  counts of the summary, the stack traces with the names they resolve to, one row for each class with an
  instance (its name, the number of its instances, the aligned size of its header and its fields over its
  super classes, and the product), for each element type of primitive arrays and for each class of object
  arrays (with the number, the largest and the total size of the arrays), the strings, and the warning
  with the classes that have no name or no definition.\<close>

theorem report_is_exact:
  assumes "hash_iteration H" and "z = 4 \<or> z = 8" and "layout_known z bytes undef (concat batches)"
    and "recorder_run H (result_recorder_new z l t) batches = Some (Inr r)"
  shows "r = report_of z l t bytes undef (concat batches)"
  by (rule run_reports [OF assms])

theorem report_is_exact_witness:
  "\<exists>r. recorder_run reversed_order (result_recorder_new 4 True 0)
       [[GcSegment (InstanceDump 1 0 7 0), Utf8String 2 ''b''],
        [Utf8String 1 ''a'', GcSegment (PrimitiveArrayDump 3 0 5 FT_Byte)]] = Some (Inr r) \<and>
     rs_memory_usage r = sort_key stats_key
       [class_allocation_stats_new ''<unknown class 0x7>'' 1 8 8, class_allocation_stats_new ''byte[]'' 1 24 24] \<and>
     rs_captured_strings r =
       Some (newline @ ''List of Strings'' @ newline @ ''a'' @ newline @ ''b'' @ newline) \<and>
     rs_warnings r = render_missing_class_warning {7}"
proof -
  let ?b = "[[GcSegment (InstanceDump 1 0 7 0), Utf8String 2 ''b''],
        [Utf8String 1 ''a'', GcSegment (PrimitiveArrayDump 3 0 5 FT_Byte)]]"
  define rs where "rs = concat ?b"
  have z: "4 = (4 :: u32) \<or> 4 = (8 :: u32)" by simp
  have k: "instance_classes rs = [7]" "array_classes rs = []" "array_types rs = [FT_Byte]" "string_ids rs = [2, 1]"
    "trace_serials rs = []"
    by (simp_all add: rs_def instance_classes_def array_classes_def array_types_def string_ids_def trace_serials_def
        keys_by_def)
  have c: "class_of rs 7 = None" by (simp add: rs_def class_of_def contributions_def classes_under_def first_of_def)
  have lay: "layout_known 4 (\<lambda>_. 8) (\<lambda>c. {c}) rs"
    using undefined_bytes [of "class_of rs" 7 4] c by (simp add: layout_known_def k header_bytes_def round_up_def)
  have "reportable rs" by (simp add: reportable_def k undefined_class c)
  then obtain r where r: "recorder_run reversed_order (result_recorder_new 4 True 0) ?b = Some (Inr r)"
    using run_reportable [OF reversed.hash_iteration_axioms z, of ?b True 0, folded rs_def]
    by (auto simp: rs_def recordable_def)
  from report_is_exact [OF reversed.hash_iteration_axioms z _ r, folded rs_def, OF lay]
  have "r = report_of 4 True 0 (\<lambda>_. 8) (\<lambda>c. {c}) rs" .
  moreover have "fmt_hex 7 = ''7''" by code_simp
  then have "usage_rows 4 (\<lambda>_. 8) rs =
      [class_allocation_stats_new ''<unknown class 0x7>'' 1 8 8, class_allocation_stats_new ''byte[]'' 1 24 24]"
    unfolding usage_rows_def k
    by (simp add: instance_row_of_def array_row_of_def name_of_def contributions_def rs_def instances_under_def
        loads_under_def last_of_def primitive_arrays_under_def array_bytes_def round_up_def)
  moreover have "strings_of rs = [''a'', ''b'']"
    unfolding strings_of_def k
    by (simp add: string_of_id_def contributions_def rs_def strings_under_def last_of_def)
  moreover have "missing_of_dump (\<lambda>c. {c}) rs = {7}"
    unfolding missing_of_dump_def thread_frames_def k
    by (simp add: unnamed_def contributions_def rs_def loads_under_def last_of_def)
  ultimately show ?thesis using r by (simp add: report_of_def captured_of_def)
qed

end
