(* ===== verification/Diff.thy ===== *)
theory Diff
  imports Rendered_Result Hash_Map "HOL-Library.Char_ord" "HOL-Library.List_Lexorder"
begin

text \<open>
  The comparison of two results (\<^verbatim>\<open>src/diff.rs\<close>): totals per class name, the entries of the classes
  that changed, sorted by growth, and their rendering. Deltas are signed 64-bit values obtained by a
  wrapping subtraction. The order in which a hash map gives its keys is a parameter whose only law
  is that every key is given once.
\<close>

section \<open>Model\<close>

record diff_entry =
  de_class_name :: string
  de_instances_from :: u64
  de_instances_to :: u64
  de_bytes_from :: u64
  de_bytes_to :: u64

definition delta_bytes :: "diff_entry \<Rightarrow> i64" where
  "delta_bytes self = de_bytes_to self - de_bytes_from self"

definition delta_instances :: "diff_entry \<Rightarrow> i64" where
  "delta_instances self = de_instances_to self - de_instances_from self"

type_synonym class_totals = "(string, u64 \<times> u64) hashmap"

definition add_totals :: "class_allocation_stats \<Rightarrow> u64 \<times> u64 \<Rightarrow> u64 \<times> u64" where
  "add_totals s totals = (fst totals + instance_count s, snd totals + allocation_size_bytes s)"

definition totals_by_class_name :: "class_allocation_stats list \<Rightarrow> class_totals" where
  "totals_by_class_name stats =
     fold (\<lambda>s totals. hm_entry_update (class_name s) (0, 0) (add_totals s) totals) stats hm_empty"

definition totals_or_default :: "class_totals \<Rightarrow> string \<Rightarrow> u64 \<times> u64" where
  "totals_or_default m name = (case hm_get m name of None \<Rightarrow> (0, 0) | Some t \<Rightarrow> t)"

definition diff_entry_of :: "class_totals \<Rightarrow> class_totals \<Rightarrow> string \<Rightarrow> diff_entry" where
  "diff_entry_of from_by_name to_by_name name =
     (let (instances_from, bytes_from) = totals_or_default from_by_name name;
          (instances_to, bytes_to) = totals_or_default to_by_name name
      in \<lparr>de_class_name = name, de_instances_from = instances_from, de_instances_to = instances_to,
          de_bytes_from = bytes_from, de_bytes_to = bytes_to\<rparr>)"

definition compute ::
  "(class_totals \<Rightarrow> string list) \<Rightarrow> class_allocation_stats list \<Rightarrow> class_allocation_stats list \<Rightarrow> diff_entry list" where
  "compute keys from to =
     (let from_by_name = totals_by_class_name from;
          to_by_name = totals_by_class_name to;
          class_names = remdups_adj (sort (keys from_by_name @ keys to_by_name));
          entries = filter (\<lambda>e. delta_bytes e \<noteq> 0 \<or> delta_instances e \<noteq> 0)
            (map (diff_entry_of from_by_name to_by_name) class_names)
      in sort_key (\<lambda>e. Reverse (sint (delta_bytes e))) entries)"

text \<open>The two characters outside of ASCII, as the bytes of their encoding.\<close>

definition DELTA :: string where
  "DELTA = [CHR 0xCE, CHR 0x94]"

definition ARROW :: string where
  "ARROW = [CHR 0xE2, CHR 0x86, CHR 0x92]"

definition pad_column :: "nat \<Rightarrow> string \<Rightarrow> string" where
  "pad_column w s = pad_left CHR '' '' w s"

definition render_entry :: "diff_entry \<Rightarrow> string" where
  "render_entry entry =
     (let size_from_to = pretty_bytes_size (de_bytes_from entry) @ '' '' @ ARROW @ '' '' @
            pretty_bytes_size (de_bytes_to entry);
          instances_from_to = fmt_nat (unat (de_instances_from entry)) @ '' '' @ ARROW @ '' '' @
            fmt_nat (unat (de_instances_to entry))
      in pad_column 12 (pretty_signed_bytes_size (delta_bytes entry)) @ '' '' @
         pad_column 12 (fmt_int (sint (delta_instances entry))) @ '' '' @
         pad_column 23 size_from_to @ '' '' @ pad_column 21 instances_from_to @ ''  '' @
         de_class_name entry @ newline)"

definition render ::
  "string \<Rightarrow> string \<Rightarrow> class_allocation_stats list \<Rightarrow> class_allocation_stats list \<Rightarrow> diff_entry list \<Rightarrow> usize \<Rightarrow> string" where
  "render from_label to_label from to entries top_n =
     (let total_from = sum_list (map allocation_size_bytes from);
          total_to = sum_list (map allocation_size_bytes to);
          net = (total_to - total_from :: i64);
          out = newline @ ''Heap diff of raw shallow sizes:'' @ newline @
            ''  from: '' @ from_label @ '' ('' @ pretty_bytes_size total_from @ '')'' @ newline @
            ''  to:   '' @ to_label @ '' ('' @ pretty_bytes_size total_to @ '')'' @ newline @
            ''  net:  '' @ pretty_signed_bytes_size net @ newline
      in if entries = []
         then out @ newline @ ''No per-class differences between the two dumps.'' @ newline
         else
           (let shown = min (length entries) top_n
            in out @ newline @ ''Top '' @ fmt_nat shown @ '' of '' @ fmt_nat (length entries) @
               '' class deltas (by shallow size growth):'' @ newline @ newline @
               pad_column 12 (DELTA @ '' size'') @ '' '' @ pad_column 12 (DELTA @ '' instances'') @ '' '' @
               pad_column 23 (''size (from '' @ ARROW @ '' to)'') @ '' '' @
               pad_column 21 (''instances (from '' @ ARROW @ '' to)'') @ ''  Class name'' @ newline @
               concat (map render_entry (take top_n entries))))"

section \<open>Key iteration\<close>

locale key_iteration =
  fixes keys :: "class_totals \<Rightarrow> string list"
  assumes keys_perm: "mset (keys m) = mset (map fst m)"

interpretation inserted_keys: key_iteration "map fst"
  by unfold_locales simp

interpretation reversed_keys: key_iteration "\<lambda>m. rev (map fst m)"
  by unfold_locales simp

section \<open>Totals\<close>

definition instances_named :: "class_allocation_stats list \<Rightarrow> string \<Rightarrow> u64" where
  "instances_named stats name = sum_list (map instance_count (filter (\<lambda>s. class_name s = name) stats))"

definition bytes_named :: "class_allocation_stats list \<Rightarrow> string \<Rightarrow> u64" where
  "bytes_named stats name = sum_list (map allocation_size_bytes (filter (\<lambda>s. class_name s = name) stats))"

lemma named_simps [simp]:
  "instances_named [] name = 0" "bytes_named [] name = 0"
  "instances_named (s # stats) name = (if class_name s = name then instance_count s else 0) + instances_named stats name"
  "bytes_named (s # stats) name = (if class_name s = name then allocation_size_bytes s else 0) + bytes_named stats name"
  by (simp_all add: instances_named_def bytes_named_def)

lemma add_totals_parts [simp]:
  "fst (add_totals s t) = fst t + instance_count s" "snd (add_totals s t) = snd t + allocation_size_bytes s"
  by (simp_all add: add_totals_def)

lemma totals_fold:
  "totals_or_default (fold (\<lambda>s. hm_entry_update (class_name s) (0, 0) (add_totals s)) stats m) name =
     (fst (totals_or_default m name) + instances_named stats name,
      snd (totals_or_default m name) + bytes_named stats name)"
proof (induction stats arbitrary: m)
  case (Cons s stats)
  have "totals_or_default (hm_entry_update (class_name s) (0, 0) (add_totals s) m) name =
      (if name = class_name s then add_totals s (totals_or_default m name) else totals_or_default m name)"
    by (simp add: totals_or_default_def hm_get_entry_update split: option.split)
  then show ?case by (simp add: Cons)
qed simp

lemma totals_named:
  "totals_or_default (totals_by_class_name stats) name = (instances_named stats name, bytes_named stats name)"
  unfolding totals_by_class_name_def totals_fold by (simp add: totals_or_default_def)

lemma totals_keys: "fst ` set (totals_by_class_name stats) = class_name ` set stats"
proof -
  have "fst ` set (fold (\<lambda>s. hm_entry_update (class_name s) (0, 0) (add_totals s)) stats m) =
      fst ` set m \<union> class_name ` set stats" for m :: class_totals
    by (induction stats arbitrary: m)
      (auto simp: hm_entry_update_def hm_insert_def dom_update simp flip: dom_map_of_conv_image_fst
        simp: update_conv')
  then show ?thesis by (simp add: totals_by_class_name_def hm_empty_def)
qed

definition entry_named :: "class_allocation_stats list \<Rightarrow> class_allocation_stats list \<Rightarrow> string \<Rightarrow> diff_entry" where
  "entry_named from to name = \<lparr>de_class_name = name,
     de_instances_from = instances_named from name, de_instances_to = instances_named to name,
     de_bytes_from = bytes_named from name, de_bytes_to = bytes_named to name\<rparr>"

lemma diff_entry_of_named:
  "diff_entry_of (totals_by_class_name from) (totals_by_class_name to) = entry_named from to"
  by (rule ext) (simp add: diff_entry_of_def totals_named entry_named_def)

definition changed :: "diff_entry \<Rightarrow> bool" where
  "changed e \<longleftrightarrow> delta_bytes e \<noteq> 0 \<or> delta_instances e \<noteq> 0"

definition all_names :: "class_allocation_stats list \<Rightarrow> class_allocation_stats list \<Rightarrow> string list" where
  "all_names from to = sorted_list_of_set (class_name ` set (from @ to))"

context key_iteration
begin

lemma class_names_sorted:
  "remdups_adj (sort (keys (totals_by_class_name from) @ keys (totals_by_class_name to))) = all_names from to"
proof -
  have s: "set (keys m) = fst ` set m" for m
    using keys_perm [of m] by (metis set_map set_mset_mset)
  show ?thesis
    unfolding all_names_def
    by (rule sorted_distinct_set_unique)
      (simp_all add: sorted_remdups_adj sorted_remdups_adj_distinct s totals_keys image_Un)
qed

lemma compute_entries:
  "compute keys from to =
     sort_key (\<lambda>e. Reverse (sint (delta_bytes e))) (filter changed (map (entry_named from to) (all_names from to)))"
  by (simp add: compute_def Let_def class_names_sorted diff_entry_of_named changed_def [abs_def])

end

lemma changed_named:
  "changed (entry_named from to name) \<longleftrightarrow>
     bytes_named from name \<noteq> bytes_named to name \<or> instances_named from name \<noteq> instances_named to name"
  by (auto simp: changed_def delta_bytes_def delta_instances_def entry_named_def)

lemma named_perm:
  assumes "mset xs = mset ys"
  shows "instances_named xs = instances_named ys" "bytes_named xs = bytes_named ys"
proof -
  have "mset (map f (filter P xs)) = mset (map f (filter P ys))" for P and f :: "class_allocation_stats \<Rightarrow> u64"
    using assms by (simp add: mset_map mset_filter)
  then have "sum_list (map f (filter P xs)) = sum_list (map f (filter P ys))"
    for P and f :: "class_allocation_stats \<Rightarrow> u64"
    by (metis sum_mset_sum_list)
  then show "instances_named xs = instances_named ys" "bytes_named xs = bytes_named ys"
    by (simp_all add: instances_named_def bytes_named_def fun_eq_iff)
qed

section \<open>Conservation of bytes\<close>

lemma sum_bytes_named:
  assumes "finite A" and "class_name ` set stats \<subseteq> A"
  shows "(\<Sum>n\<in>A. bytes_named stats n) = sum_list (map allocation_size_bytes stats)"
  using assms(2)
proof (induction stats)
  case (Cons s stats)
  have "(\<Sum>n\<in>A. if class_name s = n then allocation_size_bytes s else 0) = allocation_size_bytes s"
    using Cons.prems assms(1) by (simp add: sum.delta')
  with Cons show ?case by (simp add: sum.distrib)
qed simp

lemma sum_list_sort_key: "sum_list (map g (sort_key f xs)) = sum_list (map (g :: 'a \<Rightarrow> u64) xs)"
  by (metis mset_map mset_sort sum_mset_sum_list)

lemma sum_deltas:
  "sum_list (map delta_bytes (filter changed (map (entry_named from to) (all_names from to)))) =
     sum_list (map allocation_size_bytes to) - sum_list (map allocation_size_bytes from)"
proof -
  let ?A = "class_name ` set (from @ to)"
  have names: "set (all_names from to) = ?A" "distinct (all_names from to)" by (simp_all add: all_names_def)
  have "sum_list (map delta_bytes (filter changed (map (entry_named from to) (all_names from to)))) =
      sum_list (map (\<lambda>n. bytes_named to n - bytes_named from n) (all_names from to))"
    by (subst sum_list_map_filter) (auto simp: changed_def delta_bytes_def entry_named_def comp_def)
  also have "\<dots> = (\<Sum>n\<in>?A. bytes_named to n - bytes_named from n)"
    using names by (simp add: sum_list_distinct_conv_sum_set)
  also have "\<dots> = (\<Sum>n\<in>?A. bytes_named to n) - (\<Sum>n\<in>?A. bytes_named from n)" by (rule sum_subtractf)
  also have "\<dots> = sum_list (map allocation_size_bytes to) - sum_list (map allocation_size_bytes from)"
  proof -
    have sub: "class_name ` set to \<subseteq> ?A" "class_name ` set from \<subseteq> ?A" by auto
    show ?thesis using sum_bytes_named [OF _ sub(1)] sum_bytes_named [OF _ sub(2)] by simp
  qed
  finally show ?thesis .
qed

section \<open>Properties\<close>

text \<open>Property C27: the entries of a comparison. There is one entry for each class name of either side
  whose total bytes or total instances differ, with the totals over all rows of that name, modulo
  \<open>2\<^sup>6\<^sup>4\<close>, and no other; the entries are sorted by decreasing signed growth in bytes.\<close>

theorem diff_entries_exact:
  assumes "key_iteration keys"
  shows "set (compute keys from to) =
      entry_named from to ` {n \<in> class_name ` set (from @ to).
        bytes_named from n \<noteq> bytes_named to n \<or> instances_named from n \<noteq> instances_named to n} \<and>
    distinct (map de_class_name (compute keys from to)) \<and>
    sorted (map (\<lambda>e. - sint (delta_bytes e)) (compute keys from to))"
proof (intro conjI)
  let ?es = "filter changed (map (entry_named from to) (all_names from to))"
  note c = key_iteration.compute_entries [OF assms, of "from" to]
  show "set (compute keys from to) = entry_named from to ` {n \<in> class_name ` set (from @ to).
      bytes_named from n \<noteq> bytes_named to n \<or> instances_named from n \<noteq> instances_named to n}"
    unfolding c by (auto simp: all_names_def changed_named)
  have "distinct (map de_class_name (map (entry_named from to) (all_names from to)))"
    by (simp add: comp_def entry_named_def all_names_def)
  then have "distinct (map de_class_name ?es)" by (rule distinct_map_filter)
  then show "distinct (map de_class_name (compute keys from to))"
    unfolding c by (metis distinct_map distinct_sort set_sort)
  have "sorted (map (\<lambda>e. Reverse (sint (delta_bytes e))) (compute keys from to))" unfolding c by simp
  then show "sorted (map (\<lambda>e. - sint (delta_bytes e)) (compute keys from to))"
    by (simp add: sorted_map)
qed

theorem diff_entries_exact_witness:
  "\<lparr>de_class_name = ''a'', de_instances_from = 1, de_instances_to = 3, de_bytes_from = 8, de_bytes_to = 24\<rparr> \<in>
     set (compute (map fst) [class_allocation_stats_new ''a'' 1 8 8]
       [class_allocation_stats_new ''a'' 1 8 8, class_allocation_stats_new ''a'' 2 8 16])"
  using diff_entries_exact [OF inserted_keys.key_iteration_axioms,
      of "[class_allocation_stats_new ''a'' 1 8 8]"
        "[class_allocation_stats_new ''a'' 1 8 8, class_allocation_stats_new ''a'' 2 8 16]"]
  by (auto simp: class_allocation_stats_new_def entry_named_def)

text \<open>A comparison does not depend on the hash function nor on the order of the rows, and
  comparing results with the same rows yields nothing.\<close>

lemma diff_is_deterministic:
  assumes "key_iteration keys" and "key_iteration keys'" and "mset from = mset from'" and "mset to = mset to'"
  shows "compute keys from to = compute keys' from' to' \<and> compute keys from from' = []"
proof -
  have s: "set from = set from'" "set to = set to'" using assms(3,4) by (metis set_mset_mset)+
  have "entry_named from to = entry_named from' to'" "all_names from to = all_names from' to'"
    by (simp_all add: entry_named_def fun_eq_iff named_perm [OF assms(3)] named_perm [OF assms(4)] all_names_def s)
  moreover have "filter changed (map (entry_named from from') (all_names from from')) = []"
    by (auto simp: filter_empty_conv changed_named named_perm [OF assms(3)])
  ultimately show ?thesis
    using key_iteration.compute_entries [OF assms(1)] key_iteration.compute_entries [OF assms(2)] by simp
qed

text \<open>Property C28: a comparison accounts for every byte. The growth of all entries together is the net
  growth that the rendering shows, as 64-bit values; and the growth of an entry is the mathematical
  difference when both of its sides are below \<open>2\<^sup>6\<^sup>3\<close>.\<close>

theorem diff_conserves_bytes:
  assumes "key_iteration keys"
  shows "sum_list (map delta_bytes (compute keys from to)) =
      sum_list (map allocation_size_bytes to) - sum_list (map allocation_size_bytes from) \<and>
    (uint (de_bytes_from e) < 2 ^ 63 \<longrightarrow> uint (de_bytes_to e) < 2 ^ 63 \<longrightarrow>
      sint (delta_bytes e) = uint (de_bytes_to e) - uint (de_bytes_from e))"
proof (intro conjI impI)
  show "sum_list (map delta_bytes (compute keys from to)) =
      sum_list (map allocation_size_bytes to) - sum_list (map allocation_size_bytes from)"
    unfolding key_iteration.compute_entries [OF assms] sum_list_sort_key by (rule sum_deltas)
  let ?d = "uint (de_bytes_to e) - uint (de_bytes_from e)"
  assume "uint (de_bytes_from e) < 2 ^ 63" "uint (de_bytes_to e) < 2 ^ 63"
  then have "- (2 ^ 63) \<le> ?d" "?d < 2 ^ 63" using uint_ge_0 [of "de_bytes_to e"] uint_ge_0 [of "de_bytes_from e"]
    by linarith+
  moreover have "delta_bytes e = word_of_int ?d" by (simp add: delta_bytes_def)
  ultimately show "sint (delta_bytes e) = ?d"
    by (simp only: int_word_sint) simp
qed

theorem diff_conserves_bytes_witness:
  "sum_list (map delta_bytes (compute (map fst) [class_allocation_stats_new ''a'' 1 8 8] [])) = - 8 \<and>
   sint (delta_bytes \<lparr>de_class_name = ''a'', de_instances_from = 1, de_instances_to = 0, de_bytes_from = 8, de_bytes_to = 0\<rparr>) = - 8"
  using diff_conserves_bytes [OF inserted_keys.key_iteration_axioms, of "[class_allocation_stats_new ''a'' 1 8 8]" "[]"
      "\<lparr>de_class_name = ''a'', de_instances_from = 1, de_instances_to = 0, de_bytes_from = 8, de_bytes_to = 0\<rparr>"]
  by (simp add: class_allocation_stats_new_def)

end
