(* ===== verification/Json_Document.thy ===== *)
theory Json_Document
  imports Rendered_Result
begin

text \<open>
  The JSON document of an analysis. The serializers are the ones that \<open>derive(Serialize)\<close> makes for the
  records of \<^verbatim>\<open>src/rendered_result.rs\<close>: an object with the fields in the order of their declaration, a
  string, a number, an array, and \<open>null\<close> for a missing value. Writing a document as text is left to the
  library.
\<close>

section \<open>Model\<close>

datatype json =
    Json_Null
  | Json_Number nat
  | Json_String string
  | Json_Array "json list"
  | Json_Object "(string \<times> json) list"

definition json_of_u64 :: "u64 \<Rightarrow> json" where
  "json_of_u64 n = Json_Number (unat n)"

definition json_of_option :: "('a \<Rightarrow> json) \<Rightarrow> 'a option \<Rightarrow> json" where
  "json_of_option to_json x = (case x of None \<Rightarrow> Json_Null | Some v \<Rightarrow> to_json v)"

definition json_of_stats :: "class_allocation_stats \<Rightarrow> json" where
  "json_of_stats self = Json_Object
     [(''class_name'', Json_String (class_name self)),
      (''instance_count'', json_of_u64 (instance_count self)),
      (''largest_allocation_bytes'', json_of_u64 (largest_allocation_bytes self)),
      (''allocation_size_bytes'', json_of_u64 (allocation_size_bytes self))]"

definition json_of_tool :: "tool_info \<Rightarrow> json" where
  "json_of_tool self = Json_Object
     [(''name'', Json_String (ti_name self)), (''version'', Json_String (ti_version self))]"

definition json_of_dump :: "dump_info \<Rightarrow> json" where
  "json_of_dump self = Json_Object
     [(''file'', Json_String (di_file self)),
      (''file_size_bytes'', json_of_u64 (di_file_size_bytes self)),
      (''format'', Json_String (di_format self)),
      (''id_size_bytes'', Json_Number (unat (di_id_size_bytes self))),
      (''captured_at_epoch_millis'', json_of_option json_of_u64 (di_captured_at_epoch_millis self)),
      (''captured_at_utc'', json_of_option Json_String (di_captured_at_utc self))]"

definition json_of_heap :: "heap_info \<Rightarrow> json" where
  "json_of_heap self = Json_Object
     [(''total_shallow_bytes'', json_of_u64 (hi_total_shallow_bytes self)),
      (''class_count'', Json_Number (hi_class_count self)),
      (''top_allocated_classes'', Json_Array (map json_of_stats (hi_top_allocated_classes self))),
      (''top_largest_instances'', Json_Array (map json_of_stats (hi_top_largest_instances self)))]"

definition json_of_result :: "json_result \<Rightarrow> json" where
  "json_of_result self = Json_Object
     [(''schema_version'', Json_Number (unat (jr_schema_version self))),
      (''tool'', json_of_tool (jr_tool self)),
      (''dump'', json_of_dump (jr_dump self)),
      (''heap'', json_of_heap (jr_heap self))]"

section \<open>Indexing\<close>

text \<open>The member of an object with a name.\<close>

fun field_of :: "json \<Rightarrow> string \<Rightarrow> json option" where
  "field_of (Json_Object members) name = map_of members name"
| "field_of _ _ = None"

end
