(* ===== verification/Command_Line.thy ===== *)
theory Command_Line
  imports Slurp_Threads Diff Json_Document
begin

text \<open>
  The command line (\<^verbatim>\<open>src/args.rs\<close>), the two commands (\<^verbatim>\<open>src/main.rs\<close>) and the writing of the JSON
  result (\<open>save_as_file\<close> in \<^verbatim>\<open>src/rendered_result.rs\<close>). The description of the arguments is data; the
  library that matches a command line against it is not modelled: what it promises about a match is
  the predicate \<open>conforms\<close>. The file system, the clock, the elapsed time and the outcome of each
  call of \<open>slurp_file\<close> are fields of a record \<open>world\<close>. A command yields the events it causes, in
  order, and its end: a value, an error or a panic.
\<close>

section \<open>Description of the arguments\<close>

record arg_spec =
  as_name :: string
  as_help :: string
  as_value_name :: "string option"
  as_long :: "string option"
  as_short :: "char option"
  as_num_args :: "nat option"
  as_default_value :: "string option"
  as_range_from :: "nat option"
  as_required :: bool
  as_set_true :: bool
  as_requires :: "string option"

definition arg_new :: "string \<Rightarrow> arg_spec" where
  "arg_new name = \<lparr>as_name = name, as_help = '''', as_value_name = None, as_long = None, as_short = None,
     as_num_args = None, as_default_value = None, as_range_from = None, as_required = False,
     as_set_true = False, as_requires = None\<rparr>"

datatype command_spec =
  Command (c_name: string) (c_about: string) (c_subcommand_negates_reqs: bool) (c_args: "arg_spec list")
    (c_subcommands: "command_spec list")

definition top_arg :: arg_spec where
  "top_arg = (arg_new ''top'')
     \<lparr>as_help := ''the top results to display'', as_long := Some ''top'', as_short := Some CHR ''t'',
      as_num_args := Some 1, as_default_value := Some ''20'', as_range_from := Some 1, as_required := False\<rparr>"

text \<open>The name and the description of the program come from the build.\<close>

definition command :: "string \<Rightarrow> string \<Rightarrow> command_spec" where
  "command crate_name crate_description =
     Command crate_name crate_description True
       [(arg_new ''file'')\<lparr>as_help := ''binary hprof input file'', as_value_name := Some ''FILE'',
          as_num_args := Some 1, as_required := True\<rparr>,
        top_arg,
        (arg_new ''debug'')\<lparr>as_help := ''debug info'', as_long := Some ''debug'', as_short := Some CHR ''d'',
          as_set_true := True\<rparr>,
        (arg_new ''list-strings'')\<lparr>as_help := ''list all Strings found'', as_long := Some ''list-strings'',
          as_short := Some CHR ''l'', as_set_true := True\<rparr>,
        (arg_new ''json'')\<lparr>as_help := ''additional JSON output in file'', as_long := Some ''json'',
          as_set_true := True\<rparr>,
        (arg_new ''output'')
          \<lparr>as_help := ''output file path for the JSON result (default: hprof-slurp-<timestamp>.json)'',
           as_long := Some ''output'', as_short := Some CHR ''o'', as_num_args := Some 1,
           as_requires := Some ''json''\<rparr>]
       [Command ''diff'' ''compare two dumps of the same process by per-class shallow heap deltas'' False
          [(arg_new ''from'')\<lparr>as_help := ''baseline hprof file'', as_value_name := Some ''FROM'',
             as_num_args := Some 1, as_required := True\<rparr>,
           (arg_new ''to'')\<lparr>as_help := ''hprof file to compare against the baseline'', as_value_name := Some ''TO'',
             as_num_args := Some 1, as_required := True\<rparr>,
           top_arg]
          []]"

section \<open>Matches\<close>

datatype arg_value = Text string | Number u64 | Flag bool

datatype arg_matches = Matches (m_values: "(string \<times> arg_value) list") (m_subcommand: "(string \<times> arg_matches) option")

text \<open>What a successful match promises of an argument: a required argument is present unless a
  subcommand waives it, a default value stands in for an absent one, a flag always has a value, a
  number is in its range, and an argument comes with the one it requires.\<close>

definition arg_ok :: "bool \<Rightarrow> (string \<times> arg_value) list \<Rightarrow> arg_spec \<Rightarrow> bool" where
  "arg_ok waived vs spec =
     (case map_of vs (as_name spec) of
        None \<Rightarrow> as_default_value spec = None \<and> (as_required spec \<longrightarrow> waived) \<and> \<not> as_set_true spec
      | Some v \<Rightarrow>
          (case v of
             Flag _ \<Rightarrow> as_set_true spec
           | Number n \<Rightarrow> \<not> as_set_true spec \<and> (case as_range_from spec of None \<Rightarrow> False | Some lo \<Rightarrow> lo \<le> unat n)
           | Text _ \<Rightarrow> \<not> as_set_true spec \<and> as_range_from spec = None) \<and>
          (case as_requires spec of None \<Rightarrow> True | Some other \<Rightarrow> map_of vs other = Some (Flag True)))"

fun conforms :: "command_spec \<Rightarrow> arg_matches \<Rightarrow> bool" where
  "conforms c (Matches vs None) = list_all (arg_ok False vs) (c_args c)"
| "conforms c (Matches vs (Some (name, sub))) =
     (list_all (arg_ok (c_subcommand_negates_reqs c) vs) (c_args c) \<and>
      list_ex (\<lambda>c'. c_name c' = name \<and> conforms c' sub) (c_subcommands c))"

definition get_one_text :: "arg_matches \<Rightarrow> string \<Rightarrow> panic + string option" where
  "get_one_text matches name =
     (case map_of (m_values matches) name of
        None \<Rightarrow> Inr None | Some (Text s) \<Rightarrow> Inr (Some s) | Some _ \<Rightarrow> Inl MissingArgument)"

definition get_one_number :: "arg_matches \<Rightarrow> string \<Rightarrow> panic + u64 option" where
  "get_one_number matches name =
     (case map_of (m_values matches) name of
        None \<Rightarrow> Inr None | Some (Number n) \<Rightarrow> Inr (Some n) | Some _ \<Rightarrow> Inl MissingArgument)"

definition get_flag :: "arg_matches \<Rightarrow> string \<Rightarrow> panic + bool" where
  "get_flag matches name =
     (case map_of (m_values matches) name of Some (Flag b) \<Rightarrow> Inr b | _ \<Rightarrow> Inl MissingArgument)"

definition expect :: "panic + 'a option \<Rightarrow> panic + 'a" where
  "expect r = try_then r (\<lambda>x. case x of None \<Rightarrow> Inl MissingArgument | Some y \<Rightarrow> Inr y)"

section \<open>Reading the arguments\<close>

text \<open>\<open>str::trim\<close>: the characters with the property White\_Space, in UTF-8.\<close>

definition white_space :: "string list" where
  "white_space =
     map (\<lambda>n. [char_of n]) [9, 10, 11, 12, 13, 32 :: nat] @
     [[CHR 0xC2, CHR 0x85], [CHR 0xC2, CHR 0xA0], [CHR 0xE1, CHR 0x9A, CHR 0x80]] @
     map (\<lambda>n. [CHR 0xE2, CHR 0x80, char_of n])
       [128, 129, 130, 131, 132, 133, 134, 135, 136, 137, 138, 168, 169, 175 :: nat] @
     [[CHR 0xE2, CHR 0x81, CHR 0x9F], [CHR 0xE3, CHR 0x80, CHR 0x80]]"

function trim_start :: "string \<Rightarrow> string" where
  "trim_start s =
     (case find (\<lambda>w. prefix w s) white_space of
        None \<Rightarrow> s
      | Some w \<Rightarrow> trim_start (drop (length w) s))"
  by pat_completeness auto

lemma white_space_nonempty: "w \<in> set white_space \<Longrightarrow> w \<noteq> []"
  by (auto simp: white_space_def)

lemma find_white_space: "find (\<lambda>w. prefix w s) white_space = Some w \<Longrightarrow> w \<noteq> [] \<and> s \<noteq> []"
  by (auto simp: find_Some_iff white_space_nonempty)

termination trim_start
  by (relation "measure length") (auto dest: find_white_space)

declare trim_start.simps [simp del]

function trim_end :: "string \<Rightarrow> string" where
  "trim_end s =
     (case find (\<lambda>w. suffix w s) white_space of
        None \<Rightarrow> s
      | Some w \<Rightarrow> trim_end (take (length s - length w) s))"
  by pat_completeness auto

lemma find_white_space_end: "find (\<lambda>w. suffix w s) white_space = Some w \<Longrightarrow> w \<noteq> [] \<and> s \<noteq> []"
  by (auto simp: find_Some_iff white_space_nonempty)

termination trim_end
  by (relation "measure length") (auto dest: find_white_space_end)

declare trim_end.simps [simp del]

definition trim :: "string \<Rightarrow> string" where
  "trim s = trim_end (trim_start s)"

definition existing_file :: "(string \<Rightarrow> bool) \<Rightarrow> string \<Rightarrow> hprof_slurp_error + string" where
  "existing_file is_file raw_path =
     (let path = trim raw_path
      in if \<not> is_file path then Inl (InputFileNotFound path) else Inr path)"

text \<open>A \<open>u64\<close> fits a 64-bit \<open>usize\<close>.\<close>

definition get_top :: "arg_matches \<Rightarrow> panic + usize" where
  "get_top matches = try_then (expect (get_one_number matches ''top'')) (\<lambda>n. Inr (unat n))"

record args =
  a_file_path :: string
  a_top :: usize
  a_debug :: bool
  a_list_strings :: bool
  a_json_output :: bool
  a_output_file :: "string option"

record diff_args =
  d_from :: string
  d_to :: string
  d_top :: usize

datatype parsed_args = Analyze args | Diff diff_args

definition file_arg ::
  "(string \<Rightarrow> bool) \<Rightarrow> arg_matches \<Rightarrow> string \<Rightarrow> (string \<Rightarrow> panic + (hprof_slurp_error + 'a)) \<Rightarrow> panic + (hprof_slurp_error + 'a)" where
  "file_arg is_file matches name k =
     try_then (expect (get_one_text matches name)) (\<lambda>raw_path.
       case existing_file is_file raw_path of Inl e \<Rightarrow> Inr (Inl e) | Inr path \<Rightarrow> k path)"

definition get_diff_args :: "(string \<Rightarrow> bool) \<Rightarrow> arg_matches \<Rightarrow> panic + (hprof_slurp_error + parsed_args)" where
  "get_diff_args is_file sub_matches =
     file_arg is_file sub_matches ''from'' (\<lambda>from.
     file_arg is_file sub_matches ''to'' (\<lambda>to.
     try_then (get_top sub_matches) (\<lambda>top_n.
       Inr (Inr (Diff \<lparr>d_from = from, d_to = to, d_top = top_n\<rparr>)))))"

definition get_analyze_args :: "(string \<Rightarrow> bool) \<Rightarrow> arg_matches \<Rightarrow> panic + (hprof_slurp_error + parsed_args)" where
  "get_analyze_args is_file matches =
     file_arg is_file matches ''file'' (\<lambda>file_path.
     try_then (get_top matches) (\<lambda>top_n.
     try_then (get_flag matches ''debug'') (\<lambda>debug.
     try_then (get_flag matches ''list-strings'') (\<lambda>list_strings.
     try_then (get_flag matches ''json'') (\<lambda>json_output.
     try_then (get_one_text matches ''output'') (\<lambda>output_file.
       Inr (Inr (Analyze \<lparr>a_file_path = file_path, a_top = top_n, a_debug = debug,
         a_list_strings = list_strings, a_json_output = json_output, a_output_file = output_file\<rparr>))))))))"

definition get_args :: "(string \<Rightarrow> bool) \<Rightarrow> arg_matches \<Rightarrow> panic + (hprof_slurp_error + parsed_args)" where
  "get_args is_file matches =
     (case m_subcommand matches of
        Some (name, sub_matches) \<Rightarrow>
          if name = ''diff'' then get_diff_args is_file sub_matches else get_analyze_args is_file matches
      | None \<Rightarrow> get_analyze_args is_file matches)"

section \<open>Commands\<close>

datatype event = Stdout string | Stderr string | JsonFile string json

type_synonym 'a io = "event list \<times> (panic + (hprof_slurp_error + 'a))"

definition io_return :: "'a \<Rightarrow> 'a io" where
  "io_return x = ([], Inr (Inr x))"

definition io_error :: "hprof_slurp_error \<Rightarrow> 'a io" where
  "io_error e = ([], Inr (Inl e))"

definition io_panic :: "panic \<Rightarrow> 'a io" where
  "io_panic e = ([], Inl e)"

definition io_emit :: "event list \<Rightarrow> unit io" where
  "io_emit evs = (evs, Inr (Inr ()))"

definition io_then :: "'a io \<Rightarrow> ('a \<Rightarrow> 'b io) \<Rightarrow> 'b io" where
  "io_then m k =
     (case m of
        (evs, Inl e) \<Rightarrow> (evs, Inl e)
      | (evs, Inr (Inl e)) \<Rightarrow> (evs, Inr (Inl e))
      | (evs, Inr (Inr x)) \<Rightarrow> (case k x of (evs', r) \<Rightarrow> (evs @ evs', r)))"

text \<open>What the program finds around it: files, their contents (none when a file cannot be opened) and sizes, whether a file can be created and written,
  the clock (in milliseconds since 1970, none when it is set before), the time a command took as it
  is printed, the name and version of the build, the texts of the errors of libraries, the order in which the maps of a comparison iterate,
  how each call of \<open>slurp_file\<close> ends, and the lines that its parser thread prints in debug mode.\<close>

record world =
  w_is_file :: "string \<Rightarrow> bool"
  w_contents :: "string \<Rightarrow> bytes option"
  w_metadata_len :: "string \<Rightarrow> u64 option"
  w_create :: "string \<Rightarrow> bool"
  w_write_json :: "string \<Rightarrow> json \<Rightarrow> bool"
  w_clock_millis :: "nat option"
  w_elapsed :: string
  w_tool :: tool_info
  w_library_text :: "hprof_slurp_error \<Rightarrow> string"
  w_keys :: "class_totals \<Rightarrow> string list"
  w_slurp :: "string \<Rightarrow> bool \<Rightarrow> bool \<Rightarrow> slurp_end"
  w_debug_lines :: "string \<Rightarrow> string list"

definition json_path :: "world \<Rightarrow> string option \<Rightarrow> panic + string" where
  "json_path W output_path =
     (case output_path of
        Some path \<Rightarrow> Inr path
      | None \<Rightarrow>
          (case w_clock_millis W of
             None \<Rightarrow> Inl ClockBeforeEpoch
           | Some millis \<Rightarrow> Inr (''hprof-slurp-'' @ fmt_nat millis @ ''.json'')))"

definition save_as_file :: "world \<Rightarrow> json_result \<Rightarrow> string option \<Rightarrow> unit io" where
  "save_as_file W self output_path =
     (case json_path W output_path of
        Inl e \<Rightarrow> io_panic e
      | Inr file_path \<Rightarrow>
          if \<not> w_create W file_path then io_error StdIoError
          else if \<not> w_write_json W file_path (json_of_result self) then io_error SerdeError
          else io_emit [JsonFile file_path (json_of_result self), Stdout (''Output JSON result file '' @ file_path @ newline)])"

text \<open>\<open>slurp_file\<close> prints a line once it has accepted the header, then its parser thread prints in debug
  mode, and then it has one of its outcomes.\<close>

definition processing_line :: "usize \<Rightarrow> file_header \<Rightarrow> string" where
  "processing_line file_len header =
     ''Processing '' @ pretty_bytes_size (word_of_nat file_len) @ '' binary hprof file in '' @ [CHR 0x27] @
     fh_format header @ [CHR 0x27] @ '' format.'' @ newline"

definition slurp_prints :: "nom \<Rightarrow> bytes option \<Rightarrow> event list" where
  "slurp_prints N dump_file =
     (case dump_file of
        None \<Rightarrow> []
      | Some b \<Rightarrow>
          (case slurp_header N b of
             Inr (Inr (header, _)) \<Rightarrow> [Stdout (processing_line (length b) header)]
           | _ \<Rightarrow> []))"

definition slurp_call :: "nom \<Rightarrow> world \<Rightarrow> string \<Rightarrow> bool \<Rightarrow> bool \<Rightarrow> (file_header \<times> rendered_result) io" where
  "slurp_call N W path debug list_strings =
     io_then (io_emit (slurp_prints N (w_contents W path) @
         map Stdout (if debug then w_debug_lines W path else []))) (\<lambda>_.
       case w_slurp W path debug list_strings of
         Crashed \<Rightarrow> io_panic ChannelClosed
       | Returned (Inl e) \<Rightarrow> io_error e
       | Returned (Inr r) \<Rightarrow> io_return r)"

definition print_report :: "rendered_result \<Rightarrow> usize \<Rightarrow> unit io" where
  "print_report rendered_result top_n =
     (case serialize rendered_result top_n of
        Inl e \<Rightarrow> io_panic e
      | Inr out \<Rightarrow> io_emit [Stdout out])"

definition analyze_file :: "nom \<Rightarrow> world \<Rightarrow> args \<Rightarrow> unit io" where
  "analyze_file N W args =
     io_then (slurp_call N W (a_file_path args) (a_debug args) (a_list_strings args))
       (\<lambda>(file_header, rendered_result).
         if a_json_output args then
           (case w_metadata_len W (a_file_path args) of
              None \<Rightarrow> io_error StdIoError
            | Some file_size_bytes \<Rightarrow>
                let dump_info = dump_info_new (a_file_path args) file_size_bytes (fh_format file_header)
                      (fh_size_pointers file_header) (fh_timestamp file_header);
                    (json_result, memory_usage) =
                      json_result_new (w_tool W) dump_info (rs_memory_usage rendered_result) (a_top args);
                    rendered_result = rendered_result\<lparr>rs_memory_usage := memory_usage\<rparr>
                in io_then (save_as_file W json_result (a_output_file args))
                     (\<lambda>_. print_report rendered_result (a_top args)))
         else print_report rendered_result (a_top args))"

definition diff_files :: "nom \<Rightarrow> world \<Rightarrow> diff_args \<Rightarrow> unit io" where
  "diff_files N W diff_args =
     io_then (slurp_call N W (d_from diff_args) False False) (\<lambda>(_, result_from).
     io_then (slurp_call N W (d_to diff_args) False False) (\<lambda>(_, result_to).
       let entries = compute (w_keys W) (rs_memory_usage result_from) (rs_memory_usage result_to)
       in io_emit [Stdout (render (d_from diff_args) (d_to diff_args) (rs_memory_usage result_from)
            (rs_memory_usage result_to) entries (d_top diff_args))]))"

definition main_result :: "nom \<Rightarrow> world \<Rightarrow> arg_matches \<Rightarrow> unit io" where
  "main_result N W matches =
     (case get_args (w_is_file W) matches of
        Inl e \<Rightarrow> io_panic e
      | Inr (Inl e) \<Rightarrow> io_error e
      | Inr (Inr (Analyze args)) \<Rightarrow>
          io_then (analyze_file N W args)
            (\<lambda>_. io_emit [Stdout (''File successfully processed in '' @ w_elapsed W @ newline)])
      | Inr (Inr (Diff diff_args)) \<Rightarrow>
          io_then (diff_files N W diff_args)
            (\<lambda>_. io_emit [Stdout (''Files successfully compared in '' @ w_elapsed W @ newline)]))"

text \<open>The exit status; a panic of the main thread ends the process with status 101.\<close>

definition main :: "nom \<Rightarrow> world \<Rightarrow> arg_matches \<Rightarrow> event list \<times> int" where
  "main N W matches =
     (case main_result N W matches of
        (evs, Inr (Inr _)) \<Rightarrow> (evs, 0)
      | (evs, Inr (Inl err)) \<Rightarrow> (evs @ [Stderr (''error: '' @ error_display (w_library_text W) err @ newline)], 1)
      | (evs, Inl _) \<Rightarrow> (evs, 101))"

section \<open>Lemmas\<close>

lemma io_then_simps [simp]:
  "io_then (io_return x) k = k x" "io_then (io_error e) k = io_error e" "io_then (io_panic p) k = io_panic p"
  by (simp_all add: io_then_def io_return_def io_error_def io_panic_def split: prod.splits)

lemma io_then_Ok: "snd (io_then m k) = Inr (Inr y) \<longleftrightarrow> (\<exists>x. snd m = Inr (Inr x) \<and> snd (k x) = Inr (Inr y))"
  by (auto simp: io_then_def split: prod.splits sum.splits)

text \<open>A trimmed path neither starts nor ends with white space.\<close>

lemma trim_start_suffix: "suffix (trim_start s) s"
proof (induction s rule: trim_start.induct)
  case (1 s)
  show ?case
  proof (cases "find (\<lambda>w. prefix w s) white_space")
    case (Some w)
    with 1 [OF Some] show ?thesis
      by (simp add: trim_start.simps [of s]) (metis suffix_drop suffix_order.trans)
  qed (simp add: trim_start.simps [of s])
qed

lemma trim_end_prefix: "prefix (trim_end s) s"
proof (induction s rule: trim_end.induct)
  case (1 s)
  show ?case
  proof (cases "find (\<lambda>w. suffix w s) white_space")
    case (Some w)
    with 1 [OF Some] show ?thesis
      by (simp add: trim_end.simps [of s]) (metis take_is_prefix prefix_order.trans)
  qed (simp add: trim_end.simps [of s])
qed

lemma trim_end_no_space: "w \<in> set white_space \<Longrightarrow> \<not> suffix w (trim_end s)"
proof (induction s rule: trim_end.induct)
  case (1 s)
  show ?case
  proof (cases "find (\<lambda>w. suffix w s) white_space")
    case None
    then have "trim_end s = s" by (simp add: trim_end.simps [of s])
    with None 1(2) show ?thesis by (auto simp: find_None_iff)
  next
    case (Some w)
    with 1 show ?thesis by (simp add: trim_end.simps [of s])
  qed
qed

lemma trim_start_no_space: "w \<in> set white_space \<Longrightarrow> \<not> prefix w (trim_start s)"
proof (induction s rule: trim_start.induct)
  case (1 s)
  show ?case
  proof (cases "find (\<lambda>w. prefix w s) white_space")
    case None
    then have "trim_start s = s" by (simp add: trim_start.simps [of s])
    with None 1(2) show ?thesis by (auto simp: find_None_iff)
  next
    case (Some w)
    with 1 show ?thesis by (simp add: trim_start.simps [of s])
  qed
qed

lemma trim_no_space:
  assumes "w \<in> set white_space"
  shows "\<not> prefix w (trim s)" and "\<not> suffix w (trim s)"
  using trim_start_no_space [OF assms] trim_end_prefix [of "trim_start s"] trim_end_no_space [OF assms]
  by (auto simp: trim_def dest: prefix_order.trans)

section \<open>Arguments\<close>

lemma arg_ok_flag: "arg_ok w vs spec \<Longrightarrow> as_set_true spec \<Longrightarrow> \<exists>b. map_of vs (as_name spec) = Some (Flag b)"
  by (auto simp: arg_ok_def split: option.splits arg_value.splits)

lemma arg_ok_number:
  "arg_ok w vs spec \<Longrightarrow> as_default_value spec \<noteq> None \<Longrightarrow> as_range_from spec = Some lo \<Longrightarrow> \<not> as_set_true spec \<Longrightarrow>
     \<exists>n. map_of vs (as_name spec) = Some (Number n) \<and> lo \<le> unat n"
  by (auto simp: arg_ok_def split: option.splits arg_value.splits)

lemma arg_ok_text:
  "arg_ok w vs spec \<Longrightarrow> as_range_from spec = None \<Longrightarrow> \<not> as_set_true spec \<Longrightarrow>
     (map_of vs (as_name spec) = None \<and> (as_required spec \<longrightarrow> w)) \<or>
     (\<exists>s. map_of vs (as_name spec) = Some (Text s) \<and>
        (case as_requires spec of None \<Rightarrow> True | Some other \<Rightarrow> map_of vs other = Some (Flag True)))"
  by (auto simp: arg_ok_def split: option.splits arg_value.splits)

text \<open>The top argument, in either command.\<close>

lemma get_top_ok: "arg_ok w (m_values m) top_arg \<Longrightarrow> \<exists>n. get_top m = Inr n \<and> 1 \<le> n"
  using arg_ok_number [of w "m_values m" top_arg 1]
  by (auto simp: top_arg_def arg_new_def get_top_def get_one_number_def expect_def)

lemma file_arg_present:
  "map_of (m_values m) name = Some (Text p) \<Longrightarrow>
     file_arg is_file m name k = (if is_file (trim p) then k (trim p) else Inr (Inl (InputFileNotFound (trim p))))"
  by (simp add: file_arg_def get_one_text_def expect_def existing_file_def Let_def)

definition args_ok :: "(string \<Rightarrow> bool) \<Rightarrow> hprof_slurp_error + parsed_args \<Rightarrow> bool" where
  "args_ok is_file res =
     (case res of
        Inl e \<Rightarrow> (\<exists>p. e = InputFileNotFound p \<and> \<not> is_file p)
      | Inr (Analyze a) \<Rightarrow>
          is_file (a_file_path a) \<and> 1 \<le> a_top a \<and> (a_output_file a = None \<or> a_json_output a)
      | Inr (Diff d) \<Rightarrow> is_file (d_from d) \<and> is_file (d_to d) \<and> 1 \<le> d_top d)"

lemma required_text:
  "arg_ok False vs spec \<Longrightarrow> as_required spec \<Longrightarrow> as_range_from spec = None \<Longrightarrow> \<not> as_set_true spec \<Longrightarrow>
     \<exists>s. map_of vs (as_name spec) = Some (Text s)"
  using arg_ok_text by blast

text \<open>A match of the subcommand, and a match without a subcommand.\<close>

lemma diff_matches:
  assumes "conforms c m" and "c = hd (c_subcommands (command n d))"
  shows "\<exists>vs f t. m_values m = vs \<and> map_of vs ''from'' = Some (Text f) \<and> map_of vs ''to'' = Some (Text t) \<and>
    arg_ok False vs top_arg"
proof -
  obtain vs where m: "m = Matches vs None"
    using assms by (cases m; cases "m_subcommand m") (auto simp: command_def)
  then have ok: "list_all (arg_ok False vs) (c_args c)" using assms(1) by simp
  then show ?thesis
    using required_text [of vs "c_args c ! 0"] required_text [of vs "c_args c ! 1"] m assms(2)
    by (simp add: command_def arg_new_def)
qed

lemma analyze_matches:
  assumes "conforms (command n d) (Matches vs None)"
  shows "(\<exists>p. map_of vs ''file'' = Some (Text p)) \<and> arg_ok False vs top_arg \<and>
    (\<exists>b. map_of vs ''debug'' = Some (Flag b)) \<and> (\<exists>b. map_of vs ''list-strings'' = Some (Flag b)) \<and>
    (\<exists>b. map_of vs ''json'' = Some (Flag b)) \<and>
    (map_of vs ''output'' = None \<or>
     (\<exists>p. map_of vs ''output'' = Some (Text p)) \<and> map_of vs ''json'' = Some (Flag True))"
proof -
  let ?as = "c_args (command n d)"
  have ok: "arg_ok False vs (?as ! i)" if "i < 6" for i
    using assms that by (simp add: list_all_length command_def)
  note args = required_text [OF ok [of 0]] ok [of 1] arg_ok_flag [OF ok [of 2]] arg_ok_flag [OF ok [of 3]]
    arg_ok_flag [OF ok [of 4]] arg_ok_text [OF ok [of 5]]
  then show ?thesis by (simp add: command_def arg_new_def numeral_eq_Suc)
qed

lemma get_diff_args_ok:
  assumes "conforms (hd (c_subcommands (command n d))) m"
  shows "\<exists>res. get_diff_args is_file m = Inr res \<and> args_ok is_file res"
proof -
  from diff_matches [OF assms refl] obtain f t where
    v: "map_of (m_values m) ''from'' = Some (Text f)" "map_of (m_values m) ''to'' = Some (Text t)"
    and top_n: "arg_ok False (m_values m) top_arg" by auto
  from get_top_ok [OF top_n] v show ?thesis
    by (auto simp: get_diff_args_def file_arg_present args_ok_def)
qed

lemma get_analyze_args_ok:
  assumes "conforms (command n d) (Matches vs None)"
  shows "\<exists>res. get_analyze_args is_file (Matches vs None) = Inr res \<and> args_ok is_file res"
  using analyze_matches [OF assms] get_top_ok [of False "Matches vs None"]
  by (auto simp: get_analyze_args_def file_arg_present args_ok_def get_flag_def get_one_text_def)

lemma get_args_ok:
  assumes "conforms (command crate_name crate_description) m"
  shows "\<exists>res. get_args is_file m = Inr res \<and> args_ok is_file res"
proof (cases "m_subcommand m")
  case None
  with assms get_analyze_args_ok show ?thesis by (cases m) (simp add: get_args_def)
next
  case (Some ns)
  obtain name sub where ns: "ns = (name, sub)" by (cases ns)
  with Some assms have "name = ''diff''" "conforms (hd (c_subcommands (command crate_name crate_description))) sub"
    by (cases m; auto simp: command_def)+
  with get_diff_args_ok Some ns show ?thesis by (simp add: get_args_def)
qed

section \<open>Commands that succeed\<close>

text \<open>The JSON file of an analysis can be named, created and written.\<close>

definition json_written :: "world \<Rightarrow> args \<Rightarrow> file_header \<Rightarrow> rendered_result \<Rightarrow> bool" where
  "json_written W a h r =
     (case (w_metadata_len W (a_file_path a), json_path W (a_output_file a)) of
        (Some file_size_bytes, Inr path) \<Rightarrow>
          w_create W path \<and>
          w_write_json W path (json_of_result (fst (json_result_new (w_tool W)
            (dump_info_new (a_file_path a) file_size_bytes (fh_format h) (fh_size_pointers h) (fh_timestamp h))
            (rs_memory_usage r) (a_top a))))
      | _ \<Rightarrow> False)"

lemma exit_zero: "snd (main N W m) = 0 \<longleftrightarrow> snd (main_result N W m) = Inr (Inr ())"
proof -
  obtain evs res where r: "main_result N W m = (evs, res)" by (cases "main_result N W m")
  then show ?thesis
  proof (cases res)
    case (Inr x)
    with r show ?thesis by (cases x) (simp_all add: main_def)
  qed (simp add: main_def)
qed

lemma print_done: "0 < top_n \<Longrightarrow> snd (print_report r top_n) = Inr (Inr ()) \<longleftrightarrow> rs_memory_usage r \<noteq> []"
  using render_memory_usage_empty [of "rs_memory_usage r" top_n]
  by (cases "render_memory_usage (rs_memory_usage r) top_n")
    (auto simp: print_report_def io_panic_def io_emit_def serialize_def)

lemma slurp_done:
  "snd (slurp_call N W p dbg ls) = Inr (Inr x) \<longleftrightarrow> w_slurp W p dbg ls = Returned (Inr x)"
  by (auto simp: slurp_call_def io_then_Ok io_emit_def io_panic_def io_error_def io_return_def
      split: slurp_end.splits sum.splits)

lemma save_done:
  "snd (save_as_file W j out) = Inr (Inr ()) \<longleftrightarrow>
     (\<exists>path. json_path W out = Inr path \<and> w_create W path \<and> w_write_json W path (json_of_result j))"
  by (auto simp: save_as_file_def io_panic_def io_error_def io_emit_def split: sum.splits)

lemma json_keeps_rows: "snd (json_result_new tool dump rows n) = [] \<longleftrightarrow> rows = []"
  by (simp add: json_result_new_def Let_def flip: length_0_conv)

lemma analyze_done:
  assumes "0 < a_top a"
  shows "snd (analyze_file N W a) = Inr (Inr ()) \<longleftrightarrow>
    (\<exists>h r. w_slurp W (a_file_path a) (a_debug a) (a_list_strings a) = Returned (Inr (h, r)) \<and>
       rs_memory_usage r \<noteq> [] \<and> (a_json_output a \<longrightarrow> json_written W a h r))"
proof -
  have json: "snd (case w_metadata_len W (a_file_path a) of
         None \<Rightarrow> io_error StdIoError
       | Some file_size_bytes \<Rightarrow>
           let dump_info = dump_info_new (a_file_path a) file_size_bytes (fh_format h) (fh_size_pointers h) (fh_timestamp h);
               (json_result, memory_usage) = json_result_new (w_tool W) dump_info (rs_memory_usage r) (a_top a);
               rendered_result = r\<lparr>rs_memory_usage := memory_usage\<rparr>
           in io_then (save_as_file W json_result (a_output_file a)) (\<lambda>_. print_report rendered_result (a_top a))) =
      Inr (Inr ()) \<longleftrightarrow> rs_memory_usage r \<noteq> [] \<and> json_written W a h r" for h r
    using print_done [OF assms] json_keeps_rows
    by (cases "w_metadata_len W (a_file_path a)"; cases "json_path W (a_output_file a)")
      (auto simp: io_error_def io_then_Ok save_done json_written_def Let_def case_prod_beta)
  show ?thesis
    unfolding analyze_file_def io_then_Ok slurp_done using json print_done [OF assms]
    by (auto split: if_splits)
qed

lemma diff_done:
  "snd (diff_files N W d) = Inr (Inr ()) \<longleftrightarrow>
    (\<exists>r1 r2. w_slurp W (d_from d) False False = Returned (Inr r1) \<and> w_slurp W (d_to d) False False = Returned (Inr r2))"
  by (auto simp: diff_files_def io_then_Ok slurp_done io_emit_def Let_def split: prod.splits)

section \<open>Properties\<close>

text \<open>Property C29: reading the command line cannot fail for a reason the program calls impossible. For
  every match the argument library may return for the described command, \<open>get_args\<close> does not panic:
  it refuses a path that is no file, or it yields the arguments of one of the two commands, with
  existing input files, a positive number of rows, and an output path only together with the JSON
  option.\<close>

theorem get_args_sound:
  assumes "conforms (command crate_name crate_description) m"
  shows "\<exists>res. get_args is_file m = Inr res \<and>
    (case res of
       Inl e \<Rightarrow> (\<exists>p. e = InputFileNotFound p \<and> \<not> is_file p)
     | Inr (Analyze a) \<Rightarrow>
         is_file (a_file_path a) \<and> 1 \<le> a_top a \<and> (a_output_file a = None \<or> a_json_output a)
     | Inr (Diff d) \<Rightarrow> is_file (d_from d) \<and> is_file (d_to d) \<and> 1 \<le> d_top d)"
  using get_args_ok [OF assms] unfolding args_ok_def .

theorem get_args_sound_witness:
  "\<exists>res. get_args (\<lambda>p. p = ''dump'')
       (Matches [(''file'', Text '' dump ''), (''top'', Number 20), (''debug'', Flag False),
          (''list-strings'', Flag False), (''json'', Flag True), (''output'', Text ''out.json'')] None) = Inr res \<and>
    (case res of
       Inl e \<Rightarrow> (\<exists>p. e = InputFileNotFound p \<and> \<not> p = ''dump'')
     | Inr (Analyze a) \<Rightarrow>
         a_file_path a = ''dump'' \<and> 1 \<le> a_top a \<and> (a_output_file a = None \<or> a_json_output a)
     | Inr (Diff d) \<Rightarrow> d_from d = ''dump'' \<and> d_to d = ''dump'' \<and> 1 \<le> d_top d)"
proof (rule get_args_sound)
  show "conforms (command ''hprof-slurp'' ''analyzer'') (Matches [(''file'', Text '' dump ''), (''top'', Number 20),
      (''debug'', Flag False), (''list-strings'', Flag False), (''json'', Flag True),
      (''output'', Text ''out.json'')] None)"
    by code_simp
qed

text \<open>Property C30: the exit status tells whether the work was done. The program exits with status 0
  exactly when the arguments are accepted and, for an analysis, the file was processed, it holds at
  least one row to show, and the JSON file (if asked for) could be named, created and written; for a
  comparison, when both files were processed.\<close>

theorem exit_status_zero_iff:
  assumes "conforms (command crate_name crate_description) m"
  shows "snd (main N W m) = 0 \<longleftrightarrow>
    (\<exists>a h r. get_args (w_is_file W) m = Inr (Inr (Analyze a)) \<and>
       w_slurp W (a_file_path a) (a_debug a) (a_list_strings a) = Returned (Inr (h, r)) \<and>
       rs_memory_usage r \<noteq> [] \<and> (a_json_output a \<longrightarrow> json_written W a h r)) \<or>
    (\<exists>d r1 r2. get_args (w_is_file W) m = Inr (Inr (Diff d)) \<and>
       w_slurp W (d_from d) False False = Returned (Inr r1) \<and> w_slurp W (d_to d) False False = Returned (Inr r2))"
proof -
  from get_args_ok [OF assms] obtain res where g: "get_args (w_is_file W) m = Inr res" "args_ok (w_is_file W) res"
    by blast
  show ?thesis
  proof (cases res)
    case (Inl e)
    with g show ?thesis by (simp add: main_def main_result_def io_error_def)
  next
    case (Inr p)
    show ?thesis
    proof (cases p)
      case (Analyze a)
      with g Inr have "0 < a_top a" by (simp add: args_ok_def)
      with analyze_done [of a N W] g Inr Analyze show ?thesis
        by (auto simp: exit_zero main_result_def io_then_Ok io_emit_def)
    next
      case (Diff d)
      with g Inr show ?thesis
        by (auto simp: exit_zero main_result_def io_then_Ok io_emit_def diff_done)
    qed
  qed
qed

theorem exit_status_zero_iff_witness:
  "snd (main nom_ref \<lparr>w_is_file = (\<lambda>p. p = ''dump''), w_contents = (\<lambda>_. None), w_metadata_len = (\<lambda>_. None), w_create = (\<lambda>_. False),
       w_write_json = (\<lambda>_ _. False), w_clock_millis = None, w_elapsed = ''1s'',
       w_tool = \<lparr>ti_name = ''hprof-slurp'', ti_version = ''0.9.0''\<rparr>, w_library_text = (\<lambda>_. []), w_keys = map fst,
       w_slurp = (\<lambda>_ _ _. Returned (Inr (file_header_from_bytes [74] 8 0,
         \<lparr>rs_summary = ''s'', rs_thread_info = ''t'', rs_memory_usage = [class_allocation_stats_new ''a'' 1 8 8],
          rs_duplicated_strings = None, rs_captured_strings = None, rs_warnings = None\<rparr>))),
       w_debug_lines = (\<lambda>_. [])\<rparr>
     (Matches [(''file'', Text '' dump ''), (''top'', Number 20), (''debug'', Flag False),
       (''list-strings'', Flag False), (''json'', Flag False)] None)) = 0"
proof -
  let ?m = "Matches [(''file'', Text '' dump ''), (''top'', Number 20), (''debug'', Flag False),
       (''list-strings'', Flag False), (''json'', Flag False)] None"
  have c: "conforms (command ''hprof-slurp'' ''analyzer'') ?m" by code_simp
  have "get_args (\<lambda>p. p = ''dump'') ?m = Inr (Inr (Analyze \<lparr>a_file_path = ''dump'', a_top = 20, a_debug = False,
      a_list_strings = False, a_json_output = False, a_output_file = None\<rparr>))" by code_simp
  then show ?thesis by (simp add: exit_status_zero_iff [OF c])
qed

end
