(* ===== verification/Json_Option.thy ===== *)
theory Json_Option
  imports Command_Line
begin

text \<open>
  What the JSON option does to the text report. Filling the JSON result sorts the rows in place, and the
  report then sorts them again with stable sorts. The lemmas give the order of the rows of each table, with
  and without the option, as one sort by a lexicographic key.
\<close>

section \<open>Stable sorts on sorted lists\<close>

lemma insort_key_lex:
  assumes "\<forall>z \<in> set zs. g x \<le> g z"
  shows "insort_key f x zs = insort_key (\<lambda>y. (f y, g y)) x zs"
  using assms by (induction zs) auto

lemma sort_key_lex: "sorted (map g xs) \<Longrightarrow> sort_key f xs = sort_key (\<lambda>y. (f y, g y)) xs"
proof (induction xs)
  case (Cons x xs)
  then have "\<forall>z \<in> set (sort_key (\<lambda>y. (f y, g y)) xs). g x \<le> g z" by simp
  from insort_key_lex [OF this, of f] Cons show ?case by simp
qed simp

lemma sort_key_order:
  assumes "\<And>x y. f x \<le> f y \<longleftrightarrow> g x \<le> g y"
  shows "sort_key f xs = sort_key g xs"
proof -
  have "insort_key f x zs = insort_key g x zs" for x zs by (induction zs) (simp_all add: assms)
  then show ?thesis by (induction xs) simp_all
qed

text \<open>A key that ends with all the fields of a row does not depend on the order of the rows.\<close>

lemma sort_key_fields:
  assumes "mset xs = mset ys"
  shows "sort_key (\<lambda>c. (f c, stats_key c)) xs = sort_key (\<lambda>c. (f c, stats_key c)) ys"
    and "sort_key (\<lambda>c. (f c, g c, stats_key c)) xs = sort_key (\<lambda>c. (f c, g c, stats_key c)) ys"
  using assms by (auto intro!: sort_key_perm inj_onI simp: inj_eq [OF stats_key_inj])

section \<open>The order of the rows\<close>

abbreviation total_key :: "class_allocation_stats \<Rightarrow> u64 reverse" where
  "total_key c \<equiv> Reverse (allocation_size_bytes c)"

abbreviation largest_key :: "class_allocation_stats \<Rightarrow> u64 reverse" where
  "largest_key c \<equiv> Reverse (largest_allocation_bytes c)"

lemma first_table_plain:
  "sort_by_allocation (sort_key stats_key rows) = sort_key (\<lambda>c. (total_key c, stats_key c)) rows"
proof -
  have "sort_by_allocation (sort_key stats_key rows) = sort_key (\<lambda>c. (total_key c, stats_key c)) (sort_key stats_key rows)"
    unfolding sort_by_allocation_def by (rule sort_key_lex) simp
  then show ?thesis by (simp add: sort_key_fields(1) [of "sort_key stats_key rows" rows])
qed

lemma second_table_plain:
  "sort_by_largest (sort_by_allocation (sort_key stats_key rows)) = sort_key (\<lambda>c. (largest_key c, total_key c, stats_key c)) rows"
proof -
  let ?s = "sort_key (\<lambda>c. (total_key c, stats_key c)) rows"
  have "sort_by_largest ?s = sort_key (\<lambda>c. (largest_key c, total_key c, stats_key c)) ?s"
    unfolding sort_by_largest_def by (rule sort_key_lex) simp
  then show ?thesis by (simp add: first_table_plain sort_key_fields(2) [of ?s rows])
qed

lemma first_table_json:
  "sort_by_allocation (sort_key (\<lambda>c. (largest_key c, total_key c, stats_key c)) rows) =
    sort_key (\<lambda>c. (total_key c, largest_key c, stats_key c)) rows"
proof -
  let ?s = "sort_key (\<lambda>c. (largest_key c, total_key c, stats_key c)) rows"
  have "sort_by_allocation ?s = sort_key (\<lambda>c. (total_key c, largest_key c, total_key c, stats_key c)) ?s"
    unfolding sort_by_allocation_def by (rule sort_key_lex) simp
  also have "\<dots> = sort_key (\<lambda>c. (total_key c, largest_key c, stats_key c)) ?s" by (rule sort_key_order) auto
  finally show ?thesis by (simp add: sort_key_fields(2) [of ?s rows])
qed

lemma second_table_json:
  "sort_by_largest (sort_key (\<lambda>c. (total_key c, largest_key c, stats_key c)) rows) =
    sort_key (\<lambda>c. (largest_key c, total_key c, stats_key c)) rows"
proof -
  let ?s = "sort_key (\<lambda>c. (total_key c, largest_key c, stats_key c)) rows"
  have "sort_by_largest ?s = sort_key (\<lambda>c. (largest_key c, total_key c, largest_key c, stats_key c)) ?s"
    unfolding sort_by_largest_def by (rule sort_key_lex) simp
  also have "\<dots> = sort_key (\<lambda>c. (largest_key c, total_key c, stats_key c)) ?s" by (rule sort_key_order) auto
  finally show ?thesis by (simp add: sort_key_fields(2) [of ?s rows])
qed

section \<open>The text\<close>

text \<open>The text before the first table and the text after it, with the second table in it.\<close>

definition report_head :: "rendered_result \<Rightarrow> u64 \<Rightarrow> usize \<Rightarrow> string" where
  "report_head r total_size top_n = rs_summary r @ newline @ rs_thread_info r @ newline @
     ''Found a total of '' @ pretty_bytes_size total_size @ '' of raw shallow heap objects in the dump.'' @ newline @
     newline @ ''Top '' @ fmt_nat top_n @ '' raw shallow heap classes:'' @ newline @ newline"

definition report_tail :: "rendered_result \<Rightarrow> usize \<Rightarrow> string \<Rightarrow> string" where
  "report_tail r top_n second_table = newline @ ''Top '' @ fmt_nat top_n @ '' largest instances:'' @ newline @ newline @
     second_table @ or_nothing (map_option (\<lambda>s. s @ newline) (rs_duplicated_strings r)) @
     or_nothing (rs_captured_strings r) @ or_nothing (rs_warnings r)"

lemma serialize_tables:
  assumes "render_table top_n (sort_by_allocation rows) = Inr t1"
    and "render_table top_n (sort_by_largest (sort_by_allocation rows)) = Inr t2"
  shows "serialize (r\<lparr>rs_memory_usage := rows\<rparr>) top_n =
    Inr (report_head r (sum_list (map allocation_size_bytes rows)) top_n @ t1 @ report_tail r top_n t2)"
  using assms by (simp add: serialize_def render_memory_usage_def report_head_def report_tail_def Let_def)

lemma total_size_perm:
  "mset xs = mset ys \<Longrightarrow> sum_list (map allocation_size_bytes xs) = sum_list (map allocation_size_bytes ys)"
  by (metis mset_map sum_mset_sum_list)

lemma render_table_take: "render_table top_n (take top_n rows) = render_table top_n rows"
  by (simp add: render_table_def)

lemma render_table_some: "rows \<noteq> [] \<Longrightarrow> 0 < top_n \<Longrightarrow> \<exists>t. render_table top_n rows = Inr t"
  using render_table_lines [of top_n rows] by auto

text \<open>The texts printed for the same result without and with the option.\<close>

lemma option_texts:
  assumes "rows \<noteq> []" and "0 < top_n" and r: "rs_memory_usage r = sort_key stats_key rows"
  obtains pre plain json post where
    "render_table top_n (sort_key (\<lambda>c. (total_key c, stats_key c)) rows) = Inr plain"
    and "render_table top_n (sort_key (\<lambda>c. (total_key c, largest_key c, stats_key c)) rows) = Inr json"
    and "serialize r top_n = Inr (pre @ plain @ post)"
    and "serialize (r\<lparr>rs_memory_usage := snd (json_result_new tool dump (rs_memory_usage r) top_n)\<rparr>) top_n = Inr (pre @ json @ post)"
proof -
  let ?s = "sort_key stats_key rows" and ?x = "sort_key (\<lambda>c. (largest_key c, total_key c, stats_key c)) rows"
  have ne: "sort_key f rows \<noteq> []" for f :: "class_allocation_stats \<Rightarrow> 'k::linorder"
    using assms(1) by (metis length_0_conv length_sort)
  obtain plain where plain: "render_table top_n (sort_key (\<lambda>c. (total_key c, stats_key c)) rows) = Inr plain"
    using render_table_some [OF ne assms(2)] by blast
  obtain json where json: "render_table top_n (sort_key (\<lambda>c. (total_key c, largest_key c, stats_key c)) rows) = Inr json"
    using render_table_some [OF ne assms(2)] by blast
  obtain second where second: "render_table top_n ?x = Inr second" using render_table_some [OF ne assms(2)] by blast
  have same: "r\<lparr>rs_memory_usage := ?s\<rparr> = r" using r by simp
  have left: "snd (json_result_new tool dump (rs_memory_usage r) top_n) = ?x"
    by (simp add: json_result_new_def Let_def r second_table_plain)
  have total: "sum_list (map allocation_size_bytes ?x) = sum_list (map allocation_size_bytes ?s)"
    by (rule total_size_perm) simp
  have "serialize (r\<lparr>rs_memory_usage := ?s\<rparr>) top_n =
      Inr (report_head r (sum_list (map allocation_size_bytes ?s)) top_n @ plain @ report_tail r top_n second)"
    by (rule serialize_tables) (simp_all only: second_table_plain second, simp only: first_table_plain plain)
  moreover have "serialize (r\<lparr>rs_memory_usage := ?x\<rparr>) top_n =
      Inr (report_head r (sum_list (map allocation_size_bytes ?x)) top_n @ json @ report_tail r top_n second)"
    by (rule serialize_tables) (simp_all only: first_table_json second_table_json json second)
  ultimately show thesis by (intro that [OF plain json]) (simp_all only: same left total)
qed

lemma option_analyses:
  assumes call: "slurp_call N W (a_file_path a) (a_debug a) (a_list_strings a) = (evs, Inr (Inr (h, r)))"
    and rows: "rs_memory_usage r = sort_key stats_key rows" "rows \<noteq> []" and "0 < a_top a"
    and written: "w_metadata_len W (a_file_path a) = Some len" "json_path W (a_output_file a) = Inr path" "w_create W path"
      "\<forall>doc. w_write_json W path doc"
  obtains pre plain json post doc where
    "render_table (a_top a) (sort_key (\<lambda>c. (total_key c, stats_key c)) rows) = Inr plain"
    and "render_table (a_top a) (sort_key (\<lambda>c. (total_key c, largest_key c, stats_key c)) rows) = Inr json"
    and "analyze_file N W (a\<lparr>a_json_output := False\<rparr>) = (evs @ [Stdout (pre @ plain @ post)], Inr (Inr ()))"
    and "analyze_file N W (a\<lparr>a_json_output := True\<rparr>) = (evs @ [JsonFile path doc,
      Stdout (''Output JSON result file '' @ path @ newline), Stdout (pre @ json @ post)], Inr (Inr ()))"
proof -
  let ?dump = "dump_info_new (a_file_path a) len (fh_format h) (fh_size_pointers h) (fh_timestamp h)"
  obtain j mu where j: "json_result_new (w_tool W) ?dump (rs_memory_usage r) (a_top a) = (j, mu)" by fastforce
  obtain pre plain json post where
    tables: "render_table (a_top a) (sort_key (\<lambda>c. (total_key c, stats_key c)) rows) = Inr plain"
      "render_table (a_top a) (sort_key (\<lambda>c. (total_key c, largest_key c, stats_key c)) rows) = Inr json"
    and texts: "serialize r (a_top a) = Inr (pre @ plain @ post)"
      "serialize (r\<lparr>rs_memory_usage := snd (json_result_new (w_tool W) ?dump (rs_memory_usage r) (a_top a))\<rparr>) (a_top a) =
        Inr (pre @ json @ post)"
    by (rule option_texts [OF rows(2) assms(4) rows(1)])
  show thesis
    by (rule that [OF tables, of pre post "json_of_result j"])
      (use call texts written j in \<open>simp_all add: analyze_file_def print_report_def save_as_file_def io_then_def io_emit_def Let_def\<close>)
qed

end
