(* ===== verification/Source_Tests.thy ===== *)
theory Source_Tests
  imports Memory_Usage Diff Json_Document File_Header_Parser Record_Parser
begin

text \<open>
  The unit tests of the sources on the model. Each test is a definition with the same inputs and, as a
  conjunction, the same assertions; the lemmas evaluate them. The parsers run on the reference
  implementation of the parser library, and the maps of the recorder are iterated in the order of
  insertion. The tests that read the header of a sample dump run on the first bytes of that dump. Left out
  are the tests that read a whole sample dump and the ones of the argument library.
\<close>

section \<open>Dates and sizes\<close>

definition pretty_timestamp_epoch :: bool where
  "pretty_timestamp_epoch \<longleftrightarrow> pretty_timestamp_utc 0 = ''1970-01-01 00:00:00 UTC''"

definition pretty_timestamp_modern_date :: bool where
  "pretty_timestamp_modern_date \<longleftrightarrow> pretty_timestamp_utc 1608192273831 = ''2020-12-17 08:04:33 UTC''"

definition pretty_timestamp_leap_day :: bool where
  "pretty_timestamp_leap_day \<longleftrightarrow> pretty_timestamp_utc 1709208000000 = ''2024-02-29 12:00:00 UTC''"

definition pretty_timestamp_century_rule :: bool where
  "pretty_timestamp_century_rule \<longleftrightarrow>
     pretty_timestamp_utc 951782400000 = ''2000-02-29 00:00:00 UTC'' \<and>
     pretty_timestamp_utc 4107542400000 = ''2100-03-01 00:00:00 UTC''"

definition pretty_size_gb :: bool where
  "pretty_size_gb \<longleftrightarrow> pretty_bytes_size 1200000000 = ''1.12GiB''"

definition pretty_size_mb :: bool where
  "pretty_size_mb \<longleftrightarrow> pretty_bytes_size 1200000 = ''1.14MiB''"

definition pretty_size_kb :: bool where
  "pretty_size_kb \<longleftrightarrow> pretty_bytes_size 1200 = ''1.17KiB''"

definition pretty_size_bytes :: bool where
  "pretty_size_bytes \<longleftrightarrow> pretty_bytes_size 512 = ''512.00bytes''"

lemma digit_chars: "digit_char 0 = CHR ''0''" "digit_char (Suc 0) = CHR ''1''" "digit_char 2 = CHR ''2''"
  "digit_char 3 = CHR ''3''" "digit_char 4 = CHR ''4''" "digit_char 5 = CHR ''5''" "digit_char 6 = CHR ''6''"
  "digit_char 7 = CHR ''7''" "digit_char 8 = CHR ''8''" "digit_char 9 = CHR ''9''"
  by code_simp+

lemma digit_counts: "d < 10 \<Longrightarrow> \<not> is_cont (of_char (digit_char d))"
proof -
  have "list_all (\<lambda>d. \<not> is_cont (of_char (digit_char d))) [0,1,2,3,4,5,6,7,8,9]" by code_simp
  moreover assume "d < 10"
  then have "d \<in> set [0,1,2,3,4,5,6,7,8,9]" by auto
  ultimately show ?thesis unfolding list_all_iff by blast
qed

lemma fmt_zero_2:
  assumes "n < 100"
  shows "fmt_zero 2 n = [digit_char (n div 10), digit_char (n mod 10)]"
proof -
  have "n div 10 < 10" "n < 10 \<Longrightarrow> n div 10 = 0" using assms by presburger+
  then show ?thesis
    by (simp add: fmt_zero_def fmt_nat_def pad_left_def digits_in.simps [of 10 n] digits_in.simps [of 10 "n div 10"]
        char_count_def digit_counts digit_chars)
qed

lemma fmt_zero_4:
  assumes "1000 \<le> n" and "n < 10000"
  shows "fmt_zero 4 n =
    [digit_char (n div 1000), digit_char (n div 100 mod 10), digit_char (n div 10 mod 10), digit_char (n mod 10)]"
proof -
  have "digits_in 10 (n div 1000) = [digit_char (n div 1000)]"
    using assms by (subst digits_in.simps) (simp add: less_mult_imp_div_less)
  moreover have "digits_in 10 (n div 100) = digits_in 10 (n div 1000) @ [digit_char (n div 100 mod 10)]"
    using assms by (subst digits_in.simps) (simp add: div_less_iff_less_mult flip: div_mult2_eq)
  moreover have "digits_in 10 (n div 10) = digits_in 10 (n div 100) @ [digit_char (n div 10 mod 10)]"
    using assms by (subst digits_in.simps) (simp add: div_less_iff_less_mult flip: div_mult2_eq)
  moreover have "digits_in 10 n = digits_in 10 (n div 10) @ [digit_char (n mod 10)]"
    using assms by (subst digits_in.simps) simp
  moreover have "n div 1000 < 10" using assms by (simp add: less_mult_imp_div_less)
  ultimately show ?thesis
    by (simp add: fmt_zero_def fmt_nat_def pad_left_def char_count_def digit_counts)
qed

lemma utils_tests:
  pretty_timestamp_epoch pretty_timestamp_modern_date pretty_timestamp_leap_day pretty_timestamp_century_rule
  by (simp_all add: pretty_timestamp_epoch_def pretty_timestamp_modern_date_def pretty_timestamp_leap_day_def
      pretty_timestamp_century_rule_def pretty_timestamp_utc_def civil_from_days_def Let_def
      fmt_zero_2 fmt_zero_4 digit_chars)

lemma size_tests: pretty_size_gb pretty_size_mb pretty_size_kb pretty_size_bytes
  by code_simp+

section \<open>Parsers\<close>

definition parse_well_formed_header :: bool where
  "parse_well_formed_header \<longleftrightarrow>
     parse_file_header nom_ref [74, 65, 86, 65, 32, 80, 82, 79, 70, 73, 76, 69, 32, 49, 46, 48, 46, 50, 0, 0, 0, 0, 8,
       0, 0, 1, 118, 111, 186, 173, 167] =
     Ok [] \<lparr>fh_format = ''JAVA PROFILE 1.0.2'', fh_size_pointers = 8, fh_timestamp = 1608192273831\<rparr>"

fun is_incomplete :: "'a iresult \<Rightarrow> bool" where
  "is_incomplete (Err (Incomplete _)) = True"
| "is_incomplete _ = False"

definition parse_header_too_short :: bool where
  "parse_header_too_short \<longleftrightarrow>
     is_incomplete (parse_file_header nom_ref [74, 65, 86, 65, 32, 80, 82, 79, 70, 73, 76, 69, 32, 49, 46, 48, 46, 50,
       0, 0, 0, 0, 8, 0, 0, 1, 118, 111, 186, 173])"

definition parse_id_respects_32_bit_header_size :: bool where
  "parse_id_respects_32_bit_header_size \<longleftrightarrow>
     parse_id nom_ref 4 [0x12, 0x34, 0x56, 0x78, 0xaa] = Ok [0xaa] 0x12345678"

definition parse_id_respects_64_bit_header_size :: bool where
  "parse_id_respects_64_bit_header_size \<longleftrightarrow>
     parse_id nom_ref 8 [0x01, 0x23, 0x45, 0x67, 0x89, 0xab, 0xcd, 0xef, 0xaa] = Ok [0xaa] 0x0123456789abcdef"

definition parse_utf8_string_uses_32_bit_id_size_for_payload_length :: bool where
  "parse_utf8_string_uses_32_bit_id_size_for_payload_length \<longleftrightarrow>
     parse_utf8_string nom_ref 4
       [0x00, 0x00, 0x00, 0x00,
        0x00, 0x00, 0x00, 0x07,
        0x00, 0x00, 0x00, 0x2a,
        97, 98, 99] = Ok [] (Utf8String 42 ''abc'')"

definition parse_stack_trace_counts_32_bit_frame_ids_from_record_length :: bool where
  "parse_stack_trace_counts_32_bit_frame_ids_from_record_length \<longleftrightarrow>
     parse_stack_trace nom_ref 4
       [0x00, 0x00, 0x00, 0x00,
        0x00, 0x00, 0x00, 0x14,
        0x00, 0x00, 0x00, 0x01,
        0x00, 0x00, 0x00, 0x02,
        0x00, 0x00, 0x00, 0x02,
        0x00, 0x00, 0x00, 0x0a,
        0x00, 0x00, 0x00, 0x0b] =
     Ok [] (StackTrace \<lparr>st_serial_number = 1, st_thread_serial_number = 2, st_number_of_frames = 2,
       st_stack_frame_ids = [10, 11]\<rparr>)"

definition dispatch_gc_record :: "u8 \<Rightarrow> bytes \<Rightarrow> u32 \<Rightarrow> gc_record option" where
  "dispatch_gc_record tag payload id_size =
     (case parse_gc_record nom_ref id_size (tag # payload) of
        Ok rest g \<Rightarrow> if rest = [] then Some g else None
      | _ \<Rightarrow> None)"

definition android_root_vm_internal_parses :: bool where
  "android_root_vm_internal_parses \<longleftrightarrow>
     dispatch_gc_record 0x8D (be_enc 8 42) 8 = Some (RootVmInternal 42)"

definition android_root_interned_string_parses :: bool where
  "android_root_interned_string_parses \<longleftrightarrow>
     dispatch_gc_record 0x89 (be_enc 8 7) 8 = Some (RootInternedString 7)"

definition android_root_jni_monitor_parses_three_fields :: bool where
  "android_root_jni_monitor_parses_three_fields \<longleftrightarrow>
     dispatch_gc_record 0x8E (be_enc 8 100 @ be_enc 4 5 @ be_enc 4 3) 8 = Some (RootJniMonitor 100 5 3)"

definition android_heap_dump_info_parses :: bool where
  "android_heap_dump_info_parses \<longleftrightarrow>
     dispatch_gc_record 0xFE (be_enc 4 65 @ be_enc 8 0xCAFE) 8 = Some (HeapDumpInfo 65 0xCAFE)"

definition android_primitive_array_nodata_dump_parses :: bool where
  "android_primitive_array_nodata_dump_parses \<longleftrightarrow>
     (case dispatch_gc_record 0xC3 (be_enc 8 50 @ be_enc 4 1 @ be_enc 4 64 @ [8]) 8 of
        Some (PrimitiveArrayNoDataDump object_id _ number_of_elements element_type) \<Rightarrow>
          object_id = 50 \<and> number_of_elements = 64 \<and> element_type = FT_Byte
      | _ \<Rightarrow> False)"

definition android_deprecated_roots_still_parse :: bool where
  "android_deprecated_roots_still_parse \<longleftrightarrow>
     list_all (\<lambda>tag. dispatch_gc_record tag (be_enc 8 99) 8 \<noteq> None) [0x8A, 0x8C, 0x90]"

definition android_root_debugger_and_reference_cleanup_parse :: bool where
  "android_root_debugger_and_reference_cleanup_parse \<longleftrightarrow>
     dispatch_gc_record 0x8B (be_enc 8 11) 8 = Some (RootDebugger 11) \<and>
     dispatch_gc_record 0x8C (be_enc 8 11) 8 = Some (RootReferenceCleanup 11)"

definition android_roots_parse_with_32_bit_ids :: bool where
  "android_roots_parse_with_32_bit_ids \<longleftrightarrow>
     dispatch_gc_record 0x8D (be_enc 4 0x12345678) 4 = Some (RootVmInternal 0x12345678)"

lemma parser_tests:
  parse_well_formed_header parse_header_too_short
  parse_id_respects_32_bit_header_size parse_id_respects_64_bit_header_size
  parse_utf8_string_uses_32_bit_id_size_for_payload_length
  parse_stack_trace_counts_32_bit_frame_ids_from_record_length
  by code_simp+

lemma android_tests:
  android_root_vm_internal_parses android_root_interned_string_parses
  android_root_jni_monitor_parses_three_fields android_heap_dump_info_parses
  android_primitive_array_nodata_dump_parses android_deprecated_roots_still_parse
  android_root_debugger_and_reference_cleanup_parse android_roots_parse_with_32_bit_ids
  by code_simp+

section \<open>Headers of the sample dumps\<close>

text \<open>The tests of \<^verbatim>\<open>slurp.rs\<close> that read a header, on the first 31 bytes of the sample dumps; the bytes
  after the header are a parameter, since the function does not look at them.\<close>

definition hprof_32_header :: bytes where
  "hprof_32_header = [74, 65, 86, 65, 32, 80, 82, 79, 70, 73, 76, 69, 32, 49, 46, 48, 46, 49, 0, 0, 0, 0, 4,
     0, 0, 1, 14, 137, 32, 36, 104]"

definition hprof_64_header :: bytes where
  "hprof_64_header = [74, 65, 86, 65, 32, 80, 82, 79, 70, 73, 76, 69, 32, 49, 46, 48, 46, 49, 0, 0, 0, 0, 8,
     0, 0, 1, 96, 244, 182, 11, 216]"

definition hprof_android_header :: bytes where
  "hprof_android_header = [74, 65, 86, 65, 32, 80, 82, 79, 70, 73, 76, 69, 32, 49, 46, 48, 46, 51, 0, 0, 0, 0, 4,
     0, 0, 1, 77, 6, 148, 198, 132]"

definition file_header_32_bits :: "bytes \<Rightarrow> bool" where
  "file_header_32_bits rest \<longleftrightarrow>
     (case slurp_header nom_ref (hprof_32_header @ rest) of
        Inr (Inr (file_header, _)) \<Rightarrow>
          fh_size_pointers file_header = 4 \<and> fh_format file_header \<in> {''JAVA PROFILE 1.0.1'', ''JAVA PROFILE 1.0.2''}
      | _ \<Rightarrow> False)"

definition file_header_64_bits :: "bytes \<Rightarrow> bool" where
  "file_header_64_bits rest \<longleftrightarrow>
     (case slurp_header nom_ref (hprof_64_header @ rest) of
        Inr (Inr (file_header, _)) \<Rightarrow>
          fh_size_pointers file_header = 8 \<and> fh_format file_header = ''JAVA PROFILE 1.0.1''
      | _ \<Rightarrow> False)"

definition file_header_android_1_0_3 :: "bytes \<Rightarrow> bool" where
  "file_header_android_1_0_3 rest \<longleftrightarrow>
     (case slurp_header nom_ref (hprof_android_header @ rest) of
        Inr (Inr (file_header, _)) \<Rightarrow>
          fh_size_pointers file_header = 4 \<and> fh_format file_header = ''JAVA PROFILE 1.0.3''
      | _ \<Rightarrow> False)"

lemma header_read:
  assumes "b = enc_file_header f z t" and "length f = 18" "0 \<notin> set f" "z = 4 \<or> z = 8"
  shows "slurp_header nom_ref (b @ rest) = Inr (Inr (file_header_from_bytes f z t, rest))"
  unfolding assms(1) using assms(2-4) by (rule ref.slurp_header_accepts)

lemma sample_headers:
  "slurp_header nom_ref (hprof_32_header @ rest) =
     Inr (Inr (file_header_from_bytes (take 18 hprof_32_header) 4 0x10E89202468, rest))"
  "slurp_header nom_ref (hprof_64_header @ rest) =
     Inr (Inr (file_header_from_bytes (take 18 hprof_64_header) 8 0x160F4B60BD8, rest))"
  "slurp_header nom_ref (hprof_android_header @ rest) =
     Inr (Inr (file_header_from_bytes (take 18 hprof_android_header) 4 0x14D0694C684, rest))"
  by (rule header_read; code_simp)+

lemma header_tests: "file_header_32_bits rest" "file_header_64_bits rest" "file_header_android_1_0_3 rest"
proof -
  have formats:
    "fh_format (file_header_from_bytes (take 18 hprof_32_header) z t) = ''JAVA PROFILE 1.0.1''"
    "fh_format (file_header_from_bytes (take 18 hprof_64_header) z t) = ''JAVA PROFILE 1.0.1''"
    "fh_format (file_header_from_bytes (take 18 hprof_android_header) z t) = ''JAVA PROFILE 1.0.3''" for z t
    by code_simp+
  have "fh_size_pointers (file_header_from_bytes f z t) = z" for f z t by (simp add: file_header_from_bytes_def)
  with formats show "file_header_32_bits rest" "file_header_64_bits rest" "file_header_android_1_0_3 rest"
    by (simp_all add: file_header_32_bits_def file_header_64_bits_def file_header_android_1_0_3_def sample_headers)
qed

section \<open>Recorder\<close>

definition object_header_size_matches_identifier_width :: bool where
  "object_header_size_matches_identifier_width \<longleftrightarrow> object_header_size 4 = Inr 8 \<and> object_header_size 8 = Inr 16"

definition array_header_size_matches_identifier_width :: bool where
  "array_header_size_matches_identifier_width \<longleftrightarrow> array_header_size 4 = Inr 12 \<and> array_header_size 8 = Inr 16"

text \<open>Recording the records of a test and aggregating the memory usage.\<close>

definition record_all :: "hprof_record list \<Rightarrow> result_recorder option" where
  "record_all records =
     (case record_records (result_recorder_new 4 False 0) records of Inl _ \<Rightarrow> None | Inr recorder \<Rightarrow> Some recorder)"

definition usage_of :: "hprof_record list \<Rightarrow> (class_allocation_stats list \<times> u64 set) option" where
  "usage_of records =
     Option.bind (record_all records) (\<lambda>recorder.
       case aggregate_memory_usage insertion_order recorder {} of Some (Inr res) \<Rightarrow> Some res | _ \<Rightarrow> None)"

definition stats_named :: "string \<Rightarrow> (class_allocation_stats list \<times> u64 set) option \<Rightarrow> class_allocation_stats option" where
  "stats_named name usage = Option.bind usage (\<lambda>(memory_usage, _). find (\<lambda>stats. class_name stats = name) memory_usage)"

definition missing_ids :: "(class_allocation_stats list \<times> u64 set) option \<Rightarrow> u64 set" where
  "missing_ids usage = (case usage of Some (_, missing_class_ids) \<Rightarrow> missing_class_ids | None \<Rightarrow> {})"

definition child_records :: "hprof_record list" where
  "child_records =
     [Utf8String 10 ''java/lang/Object'',
      Utf8String 11 ''com/example/Child'',
      LoadClass \<lparr>lc_serial_number = 1, lc_class_object_id = 1, lc_stack_trace_serial_number = 0, lc_class_name_id = 10\<rparr>,
      LoadClass \<lparr>lc_serial_number = 2, lc_class_object_id = 2, lc_stack_trace_serial_number = 0, lc_class_name_id = 11\<rparr>,
      GcSegment (ClassDump (class_dump_fields_new 1 0 0 999 [] [] [])),
      GcSegment (ClassDump (class_dump_fields_new 2 0 1 999 [] []
        [\<lparr>fi_name_id = 20, fi_field_type = FT_Object\<rparr>,
         \<lparr>fi_name_id = 21, fi_field_type = FT_Int\<rparr>,
         \<lparr>fi_name_id = 22, fi_field_type = FT_Byte\<rparr>])),
      GcSegment (InstanceDump 30 0 2 0)]"

definition instance_size_uses_mat_style_recursive_field_layout :: bool where
  "instance_size_uses_mat_style_recursive_field_layout \<longleftrightarrow>
     (case stats_named ''com.example.Child'' (usage_of child_records) of
        Some child \<Rightarrow> largest_allocation_bytes child = 24 \<and> allocation_size_bytes child = 24
      | None \<Rightarrow> False)"

definition primitive_array_size_uses_exact_padding_per_array :: bool where
  "primitive_array_size_uses_exact_padding_per_array \<longleftrightarrow>
     (case stats_named ''bool[]'' (usage_of
         [GcSegment (PrimitiveArrayDump 1 0 1 FT_Bool), GcSegment (PrimitiveArrayDump 2 0 2 FT_Bool)]) of
        Some bool_arrays \<Rightarrow> largest_allocation_bytes bool_arrays = 16 \<and> allocation_size_bytes bool_arrays = 32
      | None \<Rightarrow> False)"

definition object_array_size_uses_exact_padding_per_array :: bool where
  "object_array_size_uses_exact_padding_per_array \<longleftrightarrow>
     (case stats_named ''java.lang.Object[]'' (usage_of
         [Utf8String 10 ''[Ljava/lang/Object;'',
          LoadClass \<lparr>lc_serial_number = 1, lc_class_object_id = 20, lc_stack_trace_serial_number = 0, lc_class_name_id = 10\<rparr>,
          GcSegment (ObjectArrayDump 1 0 1 20), GcSegment (ObjectArrayDump 2 0 2 20)]) of
        Some object_arrays \<Rightarrow> largest_allocation_bytes object_arrays = 24 \<and> allocation_size_bytes object_arrays = 40
      | None \<Rightarrow> False)"

definition unknown_class_instance_falls_back_to_object_header_size :: bool where
  "unknown_class_instance_falls_back_to_object_header_size \<longleftrightarrow>
     (let usage = usage_of [GcSegment (InstanceDump 1 0 0xABC 0)]
      in (case stats_named ''<unknown class 0xabc>'' usage of
            Some unknown \<Rightarrow> allocation_size_bytes unknown = 8
          | None \<Rightarrow> False) \<and>
         0xABC \<in> missing_ids usage)"

definition missing_super_class_falls_back_to_object_header_size :: bool where
  "missing_super_class_falls_back_to_object_header_size \<longleftrightarrow>
     (let usage = usage_of
         [Utf8String 10 ''com/example/Orphan'',
          LoadClass \<lparr>lc_serial_number = 1, lc_class_object_id = 1, lc_stack_trace_serial_number = 0, lc_class_name_id = 10\<rparr>,
          GcSegment (ClassDump (class_dump_fields_new 1 0 0xDEAD 999 [] [] [\<lparr>fi_name_id = 20, fi_field_type = FT_Int\<rparr>])),
          GcSegment (InstanceDump 30 0 1 0)]
      in (case stats_named ''com.example.Orphan'' usage of
            Some orphan \<Rightarrow> allocation_size_bytes orphan = 16
          | None \<Rightarrow> False) \<and>
         0xDEAD \<in> missing_ids usage)"

definition thread_info_renders_placeholders_for_missing_frames_and_classes :: bool where
  "thread_info_renders_placeholders_for_missing_frames_and_classes \<longleftrightarrow>
     (case record_all
         [StackTrace \<lparr>st_serial_number = 1, st_thread_serial_number = 1, st_number_of_frames = 2,
            st_stack_frame_ids = [0x111, 0x222]\<rparr>,
          StackFrame \<lparr>sf_stack_frame_id = 0x222, sf_method_name_id = 50, sf_method_signature_id = 0,
            sf_source_file_name_id = 51, sf_class_serial_number = 7, sf_line_number = 42\<rparr>] of
        None \<Rightarrow> False
      | Some recorder \<Rightarrow>
          (let thread_info = fst (render_thread_info insertion_order recorder {})
           in sublist ''  at <unknown stack frame 0x111>'' thread_info \<and>
              sublist ''  at <unknown class (serial 7)>.unknown method name (unknown source file:42)'' thread_info))"

definition recorder_thread_reports_missing_classes_as_warning :: bool where
  "recorder_thread_reports_missing_classes_as_warning \<longleftrightarrow>
     (case recorder_run insertion_order (result_recorder_new 4 False 0) [[GcSegment (InstanceDump 1 0 0xABC 0)]] of
        Some (Inr result) \<Rightarrow>
          (case rs_warnings result of
             Some warnings \<Rightarrow> sublist ''1 class definition(s)'' warnings \<and> sublist ''0xabc'' warnings
           | None \<Rightarrow> False)
      | _ \<Rightarrow> False)"

definition summary_renders_capture_time_only_when_present :: bool where
  "summary_renders_capture_time_only_when_present \<longleftrightarrow>
     prefix (newline @ ''Dump captured at 2020-12-17 08:04:33 UTC.'' @ newline)
       (render_summary (result_recorder_new 4 False 1608192273831)) \<and>
     \<not> sublist ''captured'' (render_summary (result_recorder_new 4 False 0))"

definition missing_class_warning_lists_sorted_ids_and_caps_display :: bool where
  "missing_class_warning_lists_sorted_ids_and_caps_display \<longleftrightarrow>
     render_missing_class_warning {} = None \<and>
     (case render_missing_class_warning {0xB, 0xA} of
        Some warning \<Rightarrow> sublist ''2 class definition(s)'' warning \<and> sublist ''0xa, 0xb'' warning
      | None \<Rightarrow> False) \<and>
     (case render_missing_class_warning {1, 2, 3, 4, 5, 6, 7, 8, 9, 10, 11} of
        Some warning \<Rightarrow> sublist ''11 class definition(s)'' warning \<and> sublist ''...'' warning
      | None \<Rightarrow> False)"

text \<open>The equation of the recursion over super classes, for evaluation.\<close>

declare calculate_instance_size_recursive.simps [code]

lemma size_rule_tests:
  object_header_size_matches_identifier_width array_header_size_matches_identifier_width
  by code_simp+

text \<open>What the recorder holds after the records of the child class.\<close>

definition child_recorder :: result_recorder where
  "child_recorder = (result_recorder_new 4 False 0)
     \<lparr>rr_heap_dump_segments_all_sub_records := 3, rr_heap_dump_segments_gc_instance_dump := 1,
      rr_heap_dump_segments_gc_class_dump := 2,
      rr_utf8_strings_by_id := [(10, ''java/lang/Object''), (11, ''com/example/Child'')],
      rr_class_data :=
        [\<lparr>lc_serial_number = 1, lc_class_object_id = 1, lc_stack_trace_serial_number = 0, lc_class_name_id = 10\<rparr>,
         \<lparr>lc_serial_number = 2, lc_class_object_id = 2, lc_stack_trace_serial_number = 0, lc_class_name_id = 11\<rparr>],
      rr_class_data_by_id := [(1, 0), (2, 1)], rr_class_data_by_serial_number := [(1, 0), (2, 1)],
      rr_classes_single_instance_size_by_id :=
        [(1, class_info_new 0 []), (2, class_info_new 1 [FT_Object, FT_Int, FT_Byte])],
      rr_classes_all_instance_total_size_by_id := [(2, add_instance class_instance_counter_empty)]\<rparr>"

lemma child_recorded: "record_all child_records = Some child_recorder"
  by (simp add: record_all_def child_records_def child_recorder_def result_recorder_new_def hm_empty_def hm_insert_def
      hm_entry_update_def hm_get_def class_dump_fields_new_def Let_def)

lemma child_usage:
  "aggregate_memory_usage insertion_order child_recorder {} =
     Some (Inr ([class_allocation_stats_new ''com.example.Child'' 1 24 24], {}))"
  by code_simp

lemma child_test: instance_size_uses_mat_style_recursive_field_layout
  by (simp add: instance_size_uses_mat_style_recursive_field_layout_def usage_of_def stats_named_def
      child_recorded child_usage class_allocation_stats_new_def)

lemma recorder_tests:
  primitive_array_size_uses_exact_padding_per_array
  object_array_size_uses_exact_padding_per_array
  unknown_class_instance_falls_back_to_object_header_size
  missing_super_class_falls_back_to_object_header_size
  by code_simp+

lemma thread_info_test: thread_info_renders_placeholders_for_missing_frames_and_classes
  by code_simp

lemma warning_tests:
  recorder_thread_reports_missing_classes_as_warning missing_class_warning_lists_sorted_ids_and_caps_display
  by code_simp+

lemma summary_test: summary_renders_capture_time_only_when_present
proof -
  have "\<not> sublist ''captured'' (render_summary (result_recorder_new 4 False 0))" by code_simp
  with utils_tests(2) show ?thesis
    by (simp add: summary_renders_capture_time_only_when_present_def pretty_timestamp_modern_date_def
        render_summary_def result_recorder_new_def Let_def)
qed

section \<open>Results and comparisons\<close>

text \<open>Indexing a document by the names of its fields; a missing field is \<open>null\<close>.\<close>

definition at :: "json \<Rightarrow> string \<Rightarrow> json" where
  "at j name = (case field_of j name of Some v \<Rightarrow> v | None \<Rightarrow> Json_Null)"

definition text_output_describes_raw_shallow_dump_objects :: bool where
  "text_output_describes_raw_shallow_dump_objects \<longleftrightarrow>
     (case render_memory_usage [class_allocation_stats_new ''Thing'' 1 16 16] 1 of
        Inr out \<Rightarrow>
          sublist ''raw shallow heap objects in the dump'' out \<and>
          sublist ''Top 1 raw shallow heap classes:'' out \<and>
          \<not> sublist ''instances allocated on the heap'' out
      | Inl _ \<Rightarrow> False)"

definition json_result_includes_metadata_and_totals :: bool where
  "json_result_includes_metadata_and_totals \<longleftrightarrow>
     (let memory_usage = [class_allocation_stats_new ''A'' 1 16 16, class_allocation_stats_new ''B'' 2 8 24];
          dump_info = dump_info_new ''heap.hprof'' 1234 ''JAVA PROFILE 1.0.1'' 8 1608192273831;
          json = json_of_result (fst (json_result_new \<lparr>ti_name = ''hprof-slurp'', ti_version = ''0.9.0''\<rparr>
            dump_info memory_usage 1))
      in at json ''schema_version'' = Json_Number 1 \<and>
         at (at json ''tool'') ''name'' = Json_String ''hprof-slurp'' \<and>
         at (at json ''dump'') ''file'' = Json_String ''heap.hprof'' \<and>
         at (at json ''dump'') ''file_size_bytes'' = Json_Number 1234 \<and>
         at (at json ''dump'') ''format'' = Json_String ''JAVA PROFILE 1.0.1'' \<and>
         at (at json ''dump'') ''id_size_bytes'' = Json_Number 8 \<and>
         at (at json ''dump'') ''captured_at_epoch_millis'' = Json_Number 1608192273831 \<and>
         at (at json ''dump'') ''captured_at_utc'' = Json_String ''2020-12-17 08:04:33 UTC'' \<and>
         at (at json ''heap'') ''total_shallow_bytes'' = Json_Number 40 \<and>
         at (at json ''heap'') ''class_count'' = Json_Number 2 \<and>
         (case at (at json ''heap'') ''top_allocated_classes'' of
            Json_Array classes \<Rightarrow> length classes = 1
          | _ \<Rightarrow> False))"

definition json_capture_time_is_null_when_absent :: bool where
  "json_capture_time_is_null_when_absent \<longleftrightarrow>
     (let json = json_of_dump (dump_info_new ''heap.hprof'' 1 ''F'' 4 0)
      in at json ''captured_at_epoch_millis'' = Json_Null \<and> at json ''captured_at_utc'' = Json_Null)"

definition serialize_appends_warnings_last :: bool where
  "serialize_appends_warnings_last \<longleftrightarrow>
     (case serialize \<lparr>rs_summary = ''summary'', rs_thread_info = ''threads'',
         rs_memory_usage = [class_allocation_stats_new ''Thing'' 1 16 16], rs_duplicated_strings = None,
         rs_captured_strings = Some ''strings'',
         rs_warnings = Some (newline @ ''Warning: something was off'' @ newline)\<rparr> 1 of
        Inr out \<Rightarrow> suffix (newline @ ''Warning: something was off'' @ newline) out
      | Inl _ \<Rightarrow> False)"

lemma result_tests:
  text_output_describes_raw_shallow_dump_objects json_capture_time_is_null_when_absent serialize_appends_warnings_last
  by code_simp+

lemma json_test: json_result_includes_metadata_and_totals
  using utils_tests(2)
  by (simp add: json_result_includes_metadata_and_totals_def pretty_timestamp_modern_date_def at_def json_of_result_def
      json_of_tool_def json_of_dump_def json_of_heap_def json_of_u64_def json_of_option_def dump_info_new_def
      json_result_new_def JSON_SCHEMA_VERSION_def class_allocation_stats_new_def Let_def)

definition stats :: "string \<Rightarrow> u64 \<Rightarrow> u64 \<Rightarrow> class_allocation_stats" where
  "stats name instances bytes = class_allocation_stats_new name instances 0 bytes"

abbreviation compute_stats :: "class_allocation_stats list \<Rightarrow> class_allocation_stats list \<Rightarrow> diff_entry list" where
  "compute_stats \<equiv> compute (map fst)"

definition compute_reports_growth_shrinkage_added_and_removed :: bool where
  "compute_reports_growth_shrinkage_added_and_removed \<longleftrightarrow>
     (let entries = compute_stats
            [stats ''Grower'' 10 100, stats ''Shrinker'' 20 200, stats ''Stable'' 5 50, stats ''Removed'' 1 10]
            [stats ''Grower'' 30 300, stats ''Shrinker'' 10 100, stats ''Stable'' 5 50, stats ''Added'' 2 20]
      in map de_class_name entries = [''Grower'', ''Added'', ''Removed'', ''Shrinker''] \<and>
         delta_bytes (entries ! 0) = 200 \<and> delta_instances (entries ! 0) = 20 \<and>
         de_bytes_to (entries ! 2) = 0 \<and> delta_bytes (entries ! 2) = -10)"

definition render_reports_identical_dumps :: bool where
  "render_reports_identical_dumps \<longleftrightarrow>
     (let from = [stats ''Same'' 1 10];
          to = [stats ''Same'' 1 10];
          entries = compute_stats from to;
          rendered = render ''a.hprof'' ''b.hprof'' from to entries 20
      in entries = [] \<and> sublist ''No per-class differences'' rendered \<and> sublist ''net:  +0.00bytes'' rendered)"

definition duplicate_class_names_are_summed_per_side :: bool where
  "duplicate_class_names_are_summed_per_side \<longleftrightarrow>
     (let from = [stats ''Dup'' 1 10, stats ''Dup'' 2 20];
          to = [stats ''Dup'' 2 20, stats ''Dup'' 1 10];
          grown = [stats ''Dup'' 1 10, stats ''Dup'' 2 30];
          entries = compute_stats from grown
      in compute_stats from to = [] \<and> length entries = 1 \<and>
         de_bytes_from (entries ! 0) = 30 \<and> de_bytes_to (entries ! 0) = 40 \<and> delta_bytes (entries ! 0) = 10)"

lemma diff_tests:
  compute_reports_growth_shrinkage_added_and_removed render_reports_identical_dumps
  duplicate_class_names_are_summed_per_side
  by code_simp+

end
