(* ===== verification/Spec2Isabelle.thy ===== *)
theory Spec2Isabelle
  imports Record_Format Slurp_Pipeline Slurp_Bounds Debug_Mode Full_Report Command_Line Json_Option Source_Tests
begin

text \<open>
  A verification of hprof-slurp, a command line program that reads a heap dump of a Java or Android
  virtual machine in one pass and reports the memory its classes use.

  \<^bold>\<open>The program.\<close> \<^verbatim>\<open>src/main.rs\<close> reads the arguments (\<^verbatim>\<open>src/args.rs\<close>) and analyses one file or compares
  two. \<open>slurp_file\<close> (\<^verbatim>\<open>src/slurp.rs\<close>) checks the file header and starts three threads: the pre-fetcher
  (\<^verbatim>\<open>src/prefetch_reader.rs\<close>) sends the file in buffers of 64 MiB, the parser
  (\<^verbatim>\<open>src/parser/record_stream_parser.rs\<close> around \<^verbatim>\<open>src/parser/record_parser.rs\<close>) turns them into records,
  and the recorder (\<^verbatim>\<open>src/result_recorder.rs\<close>) gathers statistics and renders the result. They are joined
  by unbounded channels; two pools hand empty buffers and vectors back. \<^verbatim>\<open>src/rendered_result.rs\<close> prints
  a result as text and JSON, \<^verbatim>\<open>src/diff.rs\<close> compares two, \<^verbatim>\<open>src/utils.rs\<close> formats dates and sizes.

  \<^bold>\<open>Theories and sources.\<close>
  \<^item> \<open>Slurp_Prelude\<close>: machine integers, the panics, wrap-around and rounding, big-endian numbers.
    \<open>Rust_Strings\<close>: strings as UTF-8 bytes with the library functions the program uses.
  \<^item> \<open>Gc_Record\<close>, \<open>Hprof_Record\<close>: the types of \<^verbatim>\<open>parser/gc_record.rs\<close> and \<^verbatim>\<open>parser/record.rs\<close>.
  \<^item> \<open>Nom_Interface\<close>: the parser library nom, a record of parsers with the locale \<open>nom_streaming\<close> of
    what its documentation promises, interpreted on a reference implementation. \<open>Primitive_Parsers\<close>
    and \<open>Record_Parser\<close>: \<^verbatim>\<open>parser/primitive_parsers.rs\<close> and \<^verbatim>\<open>parser/record_parser.rs\<close>, function by
    function.
  \<^item> \<open>Incremental_Parsing\<close>: the contract of a parser that is fed piece by piece, a locale, with the
    specification \<open>parses\<close> of parsing a whole input. \<open>Record_Contract\<close> interprets it on the record
    parser. \<open>Record_Stream_Parser\<close>: the parser thread and its refinement of that specification.
    \<open>Record_Format\<close>: an encoder of the format and the round trips.
  \<^item> \<open>File_Header_Parser\<close>: header, error type and \<open>slurp_header\<close>. \<open>Prefetch_Reader\<close>: the reading loop.
  \<^item> \<open>Hash_Map\<close>: a locale of finite maps, interpreted on association lists with distinct keys.
    \<open>Result_Recorder\<close>: state and recording of every record. \<open>Recorder_Laws\<close>, \<open>Recorder_Maps\<close>: the
    invariant, and every counter and map as a function of the records, through the locales
    \<open>recorded_view\<close> and \<open>gc_view\<close>. \<open>Parsed_Records\<close>: the parser sends only what the recorder accepts.
  \<^item> \<open>Instance_Size\<close>: the size of an instance over the chain of super classes, a partial function, with
    exactly the dumps on which it returns. \<open>Memory_Usage\<close>: rows, stack traces, strings and summary,
    with the iteration order of the hash maps as a parameter. \<open>Memory_Laws\<close>: the order does not matter.
    \<open>Report_Spec\<close>: the table of the report as a function of the records alone, and exactly when the recorder
    reports. \<open>Full_Report\<close>: all of the report as a function of the records, with the recorder as its
    refinement.
  \<^item> \<open>Rendered_Result\<close>, \<open>Diff\<close>, \<open>Utils\<close> (with the Gregorian calendar in \<open>Calendar\<close> as the specification
    of dates): the sources of the same names. \<open>Json_Document\<close>: the JSON document.
  \<^item> \<open>Slurp_Threads\<close>: the threads as a step relation on a record of thread states, channels and pools,
    and \<open>slurp_file\<close> as a relation to its outcomes. \<open>Slurp_Invariant\<close>: the invariant of the pipeline.
    \<open>Slurp_Pipeline\<close>: absence of deadlock, termination, errors, and equality with \<open>sequential_slurp\<close>, the
    components run one after the other. \<open>Slurp_Bounds\<close>: how much is under way between the threads, and which
    part of the file and of its records it is.
  \<^item> \<open>Debug_Mode\<close>: what the debug mode prints, as a function of the file and in every run of the threads.
  \<^item> \<open>Command_Line\<close>: arguments, commands, JSON file, error line and exit status. \<open>Json_Option\<close>: what the
    JSON option does to the text of the report.
  \<^item> \<open>Source_Tests\<close>: the unit tests of the sources, evaluated on the model.
  \<^item> This theory: round trips of whole dumps, and the program from the bytes of a file to its report, as
    text and with the JSON document, to the comparison of two files, to the error of a damaged file and to
    the report of a truncated one.

  \<^bold>\<open>Modelling.\<close> Functions of the sources are functions here; a panic is the left side of a sum, and a
  recursion or loop that might not end is a partial function into an option, so that not returning is
  the value \<open>None\<close>. No function uses fuel. Integers have the width of the sources and wrap around as in
  the release build; a \<open>usize\<close> is a natural number, since the lengths that occur are lengths of lists
  in memory, and its one subtraction that could wrap has the wrap-around written out. Floating-point
  values are bit patterns in records; in the formatting of sizes the conversion to \<open>f64\<close> is rounding to
  53 significant bits and the divisions are by powers of two, which are exact.

  \<^bold>\<open>Bounds.\<close> A run of the threads on a file with \<open>n\<close> bytes after its header has at most \<open>20 n + 8\<close> steps
  (\<open>pipeline_terminates\<close>): each step lowers a weight in which an unread byte counts 20, more than all the
  steps the buffer it starts can cause. At most two buffers of 64 MiB and one vector of records are under
  way (\<open>pipeline_invariant\<close>), as many as the pools hand out. The results on sizes need that a size fits
  its integer, which is stated where it is needed; counters are exact modulo their width.

  \<^bold>\<open>Not modelled.\<close> The libraries nom, clap, serde, indicatif, crossbeam and the hash function are
  parameters or are left out: nom by its laws, clap by what a match promises, the hash function by the
  iteration order, channels by lists. Also left out are the progress bar, panic messages,
  failures to spawn a thread, the capacities of buffers, the text of a JSON document, and the texts of the
  errors of libraries. The lines of the debug mode are defined in \<open>Debug_Mode\<close>; in the output of a whole run
  they are a parameter, as the outcome of the threads is. The tests that read a whole sample dump (megabytes
  that the kernel cannot evaluate) and those of the argument library are not evaluated.
\<close>

section \<open>From the bytes of a file to its records\<close>

text \<open>The first \<open>k\<close> records of a dump are the ones that are complete in its beginning \<open>d\<close>: their bytes fit, and
  those of the next record do not.\<close>

definition cut_after :: "u32 \<Rightarrow> dump_item list \<Rightarrow> bytes \<Rightarrow> nat \<Rightarrow> bool" where
  "cut_after z items d k \<longleftrightarrow> length (concat (take k (dump_pieces z items))) \<le> length d \<and>
     (k < length (dump_records z items) \<longrightarrow> length d < length (concat (take (Suc k) (dump_pieces z items))))"

lemma cut_after_all:
  assumes "cut_after z items (enc_dump z items) k"
  shows "take k (dump_records z items) = dump_records z items"
proof -
  have "length (concat (take n ps)) \<le> length (concat ps)" for n and ps :: "bytes list"
    by (metis append_take_drop_id concat_append length_append le_add1)
  from this [of "Suc k" "dump_pieces z items"] assms show ?thesis
    by (auto simp: cut_after_def concat_dump_pieces)
qed

context nom_streaming
begin

lemma whole_dump_parses:
  assumes "supported_id_size z" and "list_all (item_fits z) items"
  shows "\<exists>s. parses (parse_hprof_record N) (hprof_record_parser_new dbg z) (enc_dump z items)
    (dump_records z items) (Waiting s [])"
proof -
  let ?s = "hprof_record_parser_new dbg z" and ?p = "parses (parse_hprof_record N)"
  have "?p ?s [] [] (Waiting ?s [])" using parse_hprof_record_Nil by (rule parses.wait)
  then show ?thesis
    using parses_dump [of ?s items "[]" "[]" "Waiting ?s []"] assms by (auto simp: hprof_record_parser_new_def)
qed

lemma cut_dump_parses:
  assumes "supported_id_size z" and "list_all (item_fits z) items" and "enc_dump z items = d @ missing"
  shows "\<exists>k s r. parses (parse_hprof_record N) (hprof_record_parser_new dbg z) d (take k (dump_records z items)) (Waiting s r) \<and>
    cut_after z items d k"
proof -
  let ?s = "hprof_record_parser_new dbg z"
  have "reads_pieces N ?s (dump_pieces z items) (dump_records z items) ?s"
    using reads_dump [of ?s items] assms(1,2) by (simp add: hprof_record_parser_new_def)
  from reads_pieces_cut [OF this, of d missing] assms(3) show ?thesis
    by (auto simp: concat_dump_pieces cut_after_def)
qed

end

text \<open>Property C4: a dump is read back. A well-formed dump, written as a sequence of top-level records
  and heap dump segments with any identifier size the program supports, and received in buffers cut
  anywhere, gives exactly the records that were written, in order, with no byte left over and no
  panic.\<close>

theorem dump_roundtrip:
  assumes "nom_streaming N" and "supported_id_size z" and "list_all (item_fits z) items"
    and "concat bs = enc_dump z items" and "processed_len + length (concat bs) \<le> file_len"
  shows "stream_outcome N (stream_parser_new dbg z file_len processed_len []) bs =
     Some (Inr (dump_records z items, []))"
proof -
  obtain s where "parses (parse_hprof_record N) (hprof_record_parser_new dbg z) (concat bs)
      (dump_records z items) (Waiting s [])"
    using nom_streaming.whole_dump_parses [OF assms(1-3)] assms(4) by auto
  from nom_streaming.stream_outcome_correct [OF assms(1,5) this] show ?thesis by simp
qed

theorem dump_roundtrip_witness:
  "stream_outcome nom_ref (stream_parser_new True 4 1000 31 [])
     (chunks_of 5 (enc_dump 4 [TopRecord 7 (UnloadClass 3) [],
        Segment 0x1C 8 [\<lparr>gi_record = InstanceDump 1 2 3 2, gi_body = [9, 9], gi_ids = []\<rparr>]])) =
   Some (Inr ([UnloadClass 3, HeapDumpStart 19, GcSegment (InstanceDump 1 2 3 2)], []))"
proof -
  let ?g = "\<lparr>gi_record = InstanceDump 1 2 3 2, gi_body = [9, 9], gi_ids = []\<rparr>"
  let ?items = "[TopRecord 7 (UnloadClass 3) [], Segment 0x1C 8 [?g]]"
  have sz: "supported_id_size 4" by (simp add: supported_id_size_def)
  have len: "length (segment_body 4 [?g]) = 19"
    by (simp add: segment_body_def enc_gc_def enc_id_def)
  have fits: "list_all (item_fits 4) ?items" using len by (simp add: gc_fits_def id_fits_def)
  have cut: "concat (chunks_of 5 (enc_dump 4 ?items)) = enc_dump 4 ?items" by (rule concat_chunks_of) simp
  have fl: "31 + length (concat (chunks_of 5 (enc_dump 4 ?items))) \<le> 1000"
    unfolding cut using len by (simp add: enc_dump_def enc_record_def)
  have "dump_records 4 ?items = [UnloadClass 3, HeapDumpStart 19, GcSegment (InstanceDump 1 2 3 2)]"
    using len by (simp add: dump_records_def)
  with dump_roundtrip [OF ref.nom_streaming_axioms sz fits cut fl] show ?thesis by simp
qed

section \<open>From a file to its report\<close>

context nom_streaming
begin

lemma written_file:
  assumes "supported_id_size z" and "list_all (item_fits z) items" and "length f = 18" and "0 \<notin> set f"
  shows "slurp_header N (enc_file_header f z t @ enc_dump z items) =
      Inr (Inr (file_header_from_bytes f z t, enc_dump z items))"
    and "reads_all N (parser_start dbg (file_header_from_bytes f z t)) (enc_dump z items) (dump_records z items)"
proof -
  show "slurp_header N (enc_file_header f z t @ enc_dump z items) =
      Inr (Inr (file_header_from_bytes f z t, enc_dump z items))"
    using assms by (intro slurp_header_accepts) (auto simp: supported_id_size_def)
  show "reads_all N (parser_start dbg (file_header_from_bytes f z t)) (enc_dump z items) (dump_records z items)"
    using whole_dump_parses [OF assms(1,2), of dbg]
    by (auto simp: reads_all_def parser_start_def file_header_from_bytes_def)
qed

lemma written_file_outcome:
  assumes "supported_id_size z" and "list_all (item_fits z) items" and "length f = 18" and "0 \<notin> set f"
    and "hash_iteration H"
    and rep: "recorder_run insertion_order (result_recorder_new z ls t) [dump_records z items] = Some (Inr r)"
  shows "slurp_file N H (Some (enc_file_header f z t @ enc_dump z items)) dbg ls out \<longleftrightarrow>
    out = Returned (Inr (file_header_from_bytes f z t, r))"
proof -
  have "recorder_run H (recorder_start ls (file_header_from_bytes f z t)) [dump_records z items] = Some (Inr r)"
    using recorder_run_any_order [OF insertion.hash_iteration_axioms assms(5) refl rep]
    by (simp add: recorder_start_def file_header_from_bytes_def)
  with written_file [OF assms(1-4)] good_file_outcome good_file_completes show ?thesis by blast
qed

lemma written_file_report:
  assumes "supported_id_size z" and "list_all (item_fits z) items" and "length f = 18" and "0 \<notin> set f"
    and "hash_iteration H" and "layout_known z bytes undef (dump_records z items)"
    and "\<forall>c \<in> set (array_classes (dump_records z items)). \<exists>n. clean_class_name (name_of (dump_records z items) c) = Inr n"
  shows "slurp_file N H (Some (enc_file_header f z t @ enc_dump z items)) dbg ls out \<longleftrightarrow>
    out = Returned (Inr (file_header_from_bytes f z t, report_of z ls t bytes undef (dump_records z items)))"
proof -
  have z: "z = 4 \<or> z = 8" using assms(1) by (simp add: supported_id_size_def)
  have "list_all recordable (dump_records z items)"
    using written_file(2) [OF assms(1-4)] parses_recordable unfolding reads_all_def by blast
  from reports_of_records [OF insertion.hash_iteration_axioms z this assms(6,7)] written_file_outcome [OF assms(1-5)]
  show ?thesis by blast
qed

lemma written_file_call:
  assumes "supported_id_size z" and "list_all (item_fits z) items" and "length f = 18" and "0 \<notin> set f"
    and "hash_iteration H" and "layout_known z bytes undef (dump_records z items)"
    and "\<forall>c \<in> set (array_classes (dump_records z items)). \<exists>n. clean_class_name (name_of (dump_records z items) c) = Inr n"
    and "w_contents W p = Some b" and b: "b = enc_file_header f z t @ enc_dump z items"
    and "slurp_file N H (Some b) dbg ls (w_slurp W p dbg ls)"
  shows "slurp_call N W p dbg ls = (Stdout (processing_line (length b) (file_header_from_bytes f z t)) #
      map Stdout (if dbg then w_debug_lines W p else []),
    Inr (Inr (file_header_from_bytes f z t, report_of z ls t bytes undef (dump_records z items))))"
proof -
  have "w_slurp W p dbg ls =
      Returned (Inr (file_header_from_bytes f z t, report_of z ls t bytes undef (dump_records z items)))"
    using written_file_report [OF assms(1-7)] assms(10) b by blast
  moreover have "slurp_header N b = Inr (Inr (file_header_from_bytes f z t, enc_dump z items))"
    using written_file(1) [OF assms(1-4)] b by blast
  ultimately show ?thesis using assms(8)
    by (simp add: slurp_call_def slurp_prints_def io_then_def io_return_def io_emit_def)
qed

lemma truncated_file_report:
  assumes "supported_id_size z" and "list_all (item_fits z) items" and "length f = 18" and "0 \<notin> set f"
    and "hash_iteration H" and "enc_dump z items = d @ missing"
  obtains k where "cut_after z items d k"
    and "\<And>bytes undef out. layout_known z bytes undef (take k (dump_records z items)) \<Longrightarrow>
      (\<forall>c \<in> set (array_classes (take k (dump_records z items))).
         \<exists>n. clean_class_name (name_of (take k (dump_records z items)) c) = Inr n) \<Longrightarrow>
      slurp_file N H (Some (enc_file_header f z t @ d)) dbg ls out \<longleftrightarrow>
        out = Returned (Inr (file_header_from_bytes f z t, report_of z ls t bytes undef (take k (dump_records z items))))"
proof -
  let ?h = "file_header_from_bytes f z t"
  have z: "z = 4 \<or> z = 8" using assms(1) by (simp add: supported_id_size_def)
  obtain k s r where p: "parses (parse_hprof_record N) (hprof_record_parser_new dbg z) d (take k (dump_records z items))
      (Waiting s r)" and k: "cut_after z items d k"
    using cut_dump_parses [OF assms(1,2,6)] by blast
  let ?ys = "take k (dump_records z items)"
  have hd: "slurp_header N (enc_file_header f z t @ d) = Inr (Inr (?h, d))"
    using assms(3,4) z by (intro slurp_header_accepts) auto
  from p have reads: "reads_all N (parser_start dbg ?h) d ?ys"
    by (auto simp: reads_all_def parser_start_def file_header_from_bytes_def)
  show thesis
  proof (rule that [OF k])
    fix bytes undef out
    assume lay: "layout_known z bytes undef ?ys"
      and names: "\<forall>c \<in> set (array_classes ?ys). \<exists>n. clean_class_name (name_of ?ys c) = Inr n"
    have "recorder_run H (recorder_start ls ?h) [?ys] = Some (Inr (report_of z ls t bytes undef ?ys))"
      using reports_of_records [OF assms(5) z parses_recordable [OF p] lay names]
      by (simp add: recorder_start_def file_header_from_bytes_def)
    with hd reads good_file_outcome good_file_completes
    show "slurp_file N H (Some (enc_file_header f z t @ d)) dbg ls out \<longleftrightarrow>
        out = Returned (Inr (?h, report_of z ls t bytes undef ?ys))" by blast
  qed
qed

end

text \<open>A well-formed file is reported, whatever the threads and the hash maps do. For a file
  that starts with a supported header and continues with a well-formed dump, \<open>slurp_file\<close> has exactly
  one outcome: the header and the report of the records that were written, for every interleaving of
  the threads and every order in which the recorder's maps iterate.\<close>

lemma well_formed_file_is_reported:
  assumes "nom_streaming N" and "hash_iteration H"
    and "supported_id_size z" and "list_all (item_fits z) items" and "length f = 18" and "0 \<notin> set f"
    and "recorder_run insertion_order (result_recorder_new z ls t) [dump_records z items] = Some (Inr r)"
  shows "slurp_file N H (Some (enc_file_header f z t @ enc_dump z items)) dbg ls out \<longleftrightarrow>
    out = Returned (Inr (file_header_from_bytes f z t, r))"
  by (rule nom_streaming.written_file_outcome [OF assms(1,3-6,2,7)])

text \<open>Property C1: from the records written to a file to the report. For a file that starts with a supported
  header and continues with a well-formed dump, in which the sizes of instances are determined and fit 32
  bits and the names of the classes of object arrays can be cut, \<open>slurp_file\<close> has one outcome, whatever its
  threads and hash maps do: the header and the specified report of the records that were written.\<close>

theorem file_to_report:
  assumes "nom_streaming N" and "hash_iteration H"
    and "supported_id_size z" and "list_all (item_fits z) items" and "length f = 18" and "0 \<notin> set f"
    and "layout_known z bytes undef (dump_records z items)"
    and "\<forall>c \<in> set (array_classes (dump_records z items)). \<exists>n. clean_class_name (name_of (dump_records z items) c) = Inr n"
  shows "slurp_file N H (Some (enc_file_header f z t @ enc_dump z items)) dbg ls out \<longleftrightarrow>
    out = Returned (Inr (file_header_from_bytes f z t, report_of z ls t bytes undef (dump_records z items)))"
  by (rule nom_streaming.written_file_report [OF assms(1,3-6,2,7,8)])

theorem file_to_report_witness:
  "slurp_file nom_ref reversed_order
     (Some (enc_file_header (replicate 18 65) 8 9 @ enc_dump 8 [Segment 0x1C 8
       [\<lparr>gi_record = InstanceDump 1 2 7 2, gi_body = [9, 9], gi_ids = []\<rparr>]])) False True
     (Returned (Inr (file_header_from_bytes (replicate 18 65) 8 9,
        report_of 8 True 9 (\<lambda>_. 16) (\<lambda>c. {c}) [HeapDumpStart 27, GcSegment (InstanceDump 1 2 7 2)])))"
proof -
  let ?g = "\<lparr>gi_record = InstanceDump 1 2 7 2, gi_body = [9, 9], gi_ids = []\<rparr>"
  let ?items = "[Segment 0x1C 8 [?g]]"
  have len: "length (segment_body 8 [?g]) = 27" by (simp add: segment_body_def enc_gc_def enc_id_def)
  have fits: "supported_id_size 8" "list_all (item_fits 8) ?items"
    using len by (simp_all add: supported_id_size_def gc_fits_def id_fits_def)
  have f: "length (replicate 18 (65 :: u8)) = 18" "0 \<notin> set (replicate 18 (65 :: u8))" by simp_all
  have recs: "dump_records 8 ?items = [HeapDumpStart 27, GcSegment (InstanceDump 1 2 7 2)]"
    using len by (simp add: dump_records_def)
  have k: "instance_classes (dump_records 8 ?items) = [7]" "array_classes (dump_records 8 ?items) = []"
    and c: "class_of (dump_records 8 ?items) 7 = None"
    by (simp_all add: recs instance_classes_def array_classes_def keys_by_def class_of_def contributions_def
        classes_under_def first_of_def)
  have lay: "layout_known 8 (\<lambda>_. 16) (\<lambda>c. {c}) (dump_records 8 ?items)"
    using undefined_bytes [of "class_of (dump_records 8 ?items)" 7 8] c
    by (simp add: layout_known_def k header_bytes_def round_up_def)
  show ?thesis
    using file_to_report [OF ref.nom_streaming_axioms reversed.hash_iteration_axioms fits f lay] k recs by simp
qed

text \<open>Property C15: a truncated file is reported as if it were whole. When a file stops anywhere in a
  well-formed dump, the result is the report of exactly the records of the dump that are complete in it,
  with the same header and without an error, in every interleaving of the threads and every iteration
  order: no complete record is lost, the rest of the bytes has no effect, and a file that is not cut gives
  the report of all the records.\<close>

theorem truncated_file_is_reported:
  assumes "nom_streaming N" and "hash_iteration H"
    and "supported_id_size z" and "list_all (item_fits z) items" and "length f = 18" and "0 \<notin> set f"
    and "enc_dump z items = d @ missing"
  shows "\<exists>k ys. ys = take k (dump_records z items) \<and>
    length (concat (take k (dump_pieces z items))) \<le> length d \<and>
    (k < length (dump_records z items) \<longrightarrow> length d < length (concat (take (Suc k) (dump_pieces z items)))) \<and>
    (missing = [] \<longrightarrow> ys = dump_records z items) \<and>
    (\<forall>bytes undef out. layout_known z bytes undef ys \<longrightarrow>
     (\<forall>c \<in> set (array_classes ys). \<exists>n. clean_class_name (name_of ys c) = Inr n) \<longrightarrow>
     (slurp_file N H (Some (enc_file_header f z t @ d)) dbg ls out \<longleftrightarrow>
       out = Returned (Inr (file_header_from_bytes f z t, report_of z ls t bytes undef ys))))"
proof -
  obtain k where k: "cut_after z items d k"
    and out: "\<And>bytes undef out. layout_known z bytes undef (take k (dump_records z items)) \<Longrightarrow>
      (\<forall>c \<in> set (array_classes (take k (dump_records z items))).
         \<exists>n. clean_class_name (name_of (take k (dump_records z items)) c) = Inr n) \<Longrightarrow>
      slurp_file N H (Some (enc_file_header f z t @ d)) dbg ls out \<longleftrightarrow>
        out = Returned (Inr (file_header_from_bytes f z t, report_of z ls t bytes undef (take k (dump_records z items))))"
    using nom_streaming.truncated_file_report [OF assms(1,3-6,2,7), where dbg = dbg and ls = ls and t = t] by blast
  have "missing = [] \<Longrightarrow> take k (dump_records z items) = dump_records z items"
    using cut_after_all k assms(7) by simp
  with k out show ?thesis unfolding cut_after_def by blast
qed

theorem truncated_file_is_reported_witness:
  "slurp_file nom_ref reversed_order
     (Some (enc_file_header (replicate 18 65) 8 9 @ enc_record 8 7 (UnloadClass 3) [] @ [0x0B, 0])) False False
     (Returned (Inr (file_header_from_bytes (replicate 18 65) 8 9, report_of 8 False 9 (\<lambda>_. 0) (\<lambda>_. {}) [UnloadClass 3])))"
proof -
  let ?items = "[TopRecord 7 (UnloadClass 3) [], TopRecord 7 (EndThread 3) []]"
  let ?d = "enc_record 8 7 (UnloadClass 3) [] @ [0x0B, 0]"
  have fits: "supported_id_size 8" "list_all (item_fits 8) ?items" by (simp_all add: supported_id_size_def)
  have f: "length (replicate 18 (65 :: u8)) = 18" "0 \<notin> set (replicate 18 (65 :: u8))" by simp_all
  have cut: "enc_dump 8 ?items = ?d @ [0, 0, 7, 0, 0, 0, 4, 0, 0, 0, 3]" by code_simp
  have recs: "dump_records 8 ?items = [UnloadClass 3, EndThread 3]" by (simp add: dump_records_def)
  have "length (enc_record 8 7 (UnloadClass 3) []) = 13" "length (enc_record 8 7 (EndThread 3) []) = 13"
    by (simp_all add: enc_record_def)
  then have one: "k = 1" if "length (concat (take k (dump_pieces 8 ?items))) \<le> length ?d"
    "k < length (dump_records 8 ?items) \<longrightarrow> length ?d < length (concat (take (Suc k) (dump_pieces 8 ?items)))" for k
    using that by (cases k; cases "k - 1") (auto simp: dump_pieces_def recs)
  have "layout_known 8 (\<lambda>_. 0) (\<lambda>_. {}) [UnloadClass 3]" "array_classes [UnloadClass 3] = []"
    by (simp_all add: layout_known_def instance_classes_def array_classes_def keys_by_def)
  moreover obtain k where "length (concat (take k (dump_pieces 8 ?items))) \<le> length ?d"
    "k < length (dump_records 8 ?items) \<longrightarrow> length ?d < length (concat (take (Suc k) (dump_pieces 8 ?items)))"
    and rep: "\<forall>bytes undef out. layout_known 8 bytes undef (take k (dump_records 8 ?items)) \<longrightarrow>
      (\<forall>c \<in> set (array_classes (take k (dump_records 8 ?items))).
        \<exists>n. clean_class_name (name_of (take k (dump_records 8 ?items)) c) = Inr n) \<longrightarrow>
      (slurp_file nom_ref reversed_order (Some (enc_file_header (replicate 18 65) 8 9 @ ?d)) False False out \<longleftrightarrow>
       out = Returned (Inr (file_header_from_bytes (replicate 18 65) 8 9,
         report_of 8 False 9 bytes undef (take k (dump_records 8 ?items)))))"
    using truncated_file_is_reported [OF ref.nom_streaming_axioms reversed.hash_iteration_axioms fits f cut] by blast
  from one [OF this(1,2)] have "take k (dump_records 8 ?items) = [UnloadClass 3]" by (simp add: recs)
  with rep calculation show ?thesis by simp
qed

text \<open>A dump with one array, for the examples.\<close>

definition sample_array :: "dump_item list" where
  "sample_array = [Segment 0x1C 8 [\<lparr>gi_record = PrimitiveArrayNoDataDump 1 2 3 FT_Byte, gi_body = [], gi_ids = []\<rparr>]]"

lemma sample_array_fits: "supported_id_size 8" "list_all (item_fits 8) sample_array"
  by (simp_all add: sample_array_def supported_id_size_def segment_body_def enc_gc_def enc_id_def gc_fits_def id_fits_def)

lemma sample_array_keys:
  "instance_classes (dump_records 8 sample_array) = []" "array_classes (dump_records 8 sample_array) = []"
  "array_types (dump_records 8 sample_array) = [FT_Byte]"
  by (simp_all add: sample_array_def dump_records_def instance_classes_def array_classes_def array_types_def keys_by_def)

lemma sample_array_known:
  "layout_known 8 (\<lambda>_. 0) (\<lambda>_. {}) (dump_records 8 sample_array)"
  "\<forall>c \<in> set (array_classes (dump_records 8 sample_array)).
     \<exists>n. clean_class_name (name_of (dump_records 8 sample_array) c) = Inr n"
  by (simp_all add: layout_known_def sample_array_keys)

lemma sample_array_serializes:
  assumes "mset (rs_memory_usage r) = mset (usage_rows 8 (\<lambda>_. 0) (dump_records 8 sample_array))"
  shows "\<exists>out. serialize r 20 = Inr out"
proof -
  have "rs_memory_usage r \<noteq> []" using arg_cong [OF assms, of size]
    by (simp add: usage_rows_def sample_array_keys flip: length_0_conv)
  then show ?thesis using render_memory_usage_empty [of "rs_memory_usage r" 20]
    by (cases "render_memory_usage (rs_memory_usage r) 20") (auto simp: serialize_def)
qed

text \<open>A dump with two kinds of arrays of the same total size, for the example of the JSON option.\<close>

definition sample_tie :: "dump_item list" where
  "sample_tie = [Segment 0x1C 8
     [\<lparr>gi_record = PrimitiveArrayDump 1 0 16 FT_Byte, gi_body = replicate 16 0, gi_ids = []\<rparr>,
      \<lparr>gi_record = PrimitiveArrayDump 2 0 0 FT_Char, gi_body = [], gi_ids = []\<rparr>,
      \<lparr>gi_record = PrimitiveArrayDump 3 0 0 FT_Char, gi_body = [], gi_ids = []\<rparr>]]"

lemma sample_tie_fits: "supported_id_size 8" "list_all (item_fits 8) sample_tie"
  by (simp_all add: sample_tie_def supported_id_size_def segment_body_def enc_gc_def enc_id_def gc_fits_def id_fits_def)

lemma sample_tie_records:
  obtains n where "dump_records 8 sample_tie = [HeapDumpStart n, GcSegment (PrimitiveArrayDump 1 0 16 FT_Byte),
    GcSegment (PrimitiveArrayDump 2 0 0 FT_Char), GcSegment (PrimitiveArrayDump 3 0 0 FT_Char)]"
  by (simp add: sample_tie_def dump_records_def)

lemma sample_tie_keys:
  "instance_classes (dump_records 8 sample_tie) = []" "array_classes (dump_records 8 sample_tie) = []"
  "array_types (dump_records 8 sample_tie) = [FT_Byte, FT_Char]"
  by (simp_all add: sample_tie_def dump_records_def instance_classes_def array_classes_def array_types_def keys_by_def)

lemma sample_tie_known:
  "layout_known 8 (\<lambda>_. 0) (\<lambda>_. {}) (dump_records 8 sample_tie)"
  "\<forall>c \<in> set (array_classes (dump_records 8 sample_tie)).
     \<exists>n. clean_class_name (name_of (dump_records 8 sample_tie) c) = Inr n"
  by (simp_all add: layout_known_def sample_tie_keys)

lemma sample_tie_rows: "usage_rows 8 (\<lambda>_. 0) (dump_records 8 sample_tie) =
  [class_allocation_stats_new ''byte[]'' 1 32 32, class_allocation_stats_new ''char[]'' 2 16 32]"
proof -
  obtain n where recs: "dump_records 8 sample_tie = [HeapDumpStart n, GcSegment (PrimitiveArrayDump 1 0 16 FT_Byte),
    GcSegment (PrimitiveArrayDump 2 0 0 FT_Char), GcSegment (PrimitiveArrayDump 3 0 0 FT_Char)]"
    by (rule sample_tie_records)
  show ?thesis
    unfolding usage_rows_def sample_tie_keys
    by (simp add: recs array_row_of_def contributions_def primitive_arrays_under_def array_bytes_def round_up_def)
qed

text \<open>Property C6: an analysis from the command line to the exit status. When the arguments ask for the
  analysis of a file without the JSON output, the file holds a well-formed dump with known
  layouts, and the specified report of its records has a text, the program prints the line that announces
  the file, in debug mode the lines of the parser, then this text, then the line with the time it took, and exits with status 0.\<close>

theorem analysis_end_to_end:
  assumes "nom_streaming N" and "hash_iteration H"
    and "supported_id_size z" and "list_all (item_fits z) items" and "length f = 18" and "0 \<notin> set f"
    and "layout_known z bytes undef (dump_records z items)"
    and "\<forall>c \<in> set (array_classes (dump_records z items)). \<exists>n. clean_class_name (name_of (dump_records z items) c) = Inr n"
    and "get_args (w_is_file W) m = Inr (Inr (Analyze a))" and "\<not> a_json_output a"
    and "w_contents W (a_file_path a) = Some b" and "b = enc_file_header f z t @ enc_dump z items"
    and "slurp_file N H (Some b) (a_debug a) (a_list_strings a)
           (w_slurp W (a_file_path a) (a_debug a) (a_list_strings a))"
    and "serialize (report_of z (a_list_strings a) t bytes undef (dump_records z items)) (a_top a) = Inr out"
  shows "main N W m =
    (Stdout (processing_line (length b) (file_header_from_bytes f z t)) #
      map Stdout (if a_debug a then w_debug_lines W (a_file_path a) else []) @
      [Stdout out, Stdout (''File successfully processed in '' @ w_elapsed W @ newline)], 0)"
  using nom_streaming.written_file_call [OF assms(1,3-6,2,7,8,11,12,13)] assms(9,10,14)
  by (simp add: main_def main_result_def analyze_file_def print_report_def io_then_def io_emit_def)

theorem analysis_end_to_end_witness:
  "\<exists>r b out. main nom_ref \<lparr>w_is_file = (\<lambda>p. p = ''dump''), w_contents = (\<lambda>_. Some b), w_metadata_len = (\<lambda>_. None), w_create = (\<lambda>_. False),
       w_write_json = (\<lambda>_ _. False), w_clock_millis = None, w_elapsed = ''1s'',
       w_tool = \<lparr>ti_name = ''hprof-slurp'', ti_version = ''0.9.0''\<rparr>, w_library_text = (\<lambda>_. []), w_keys = map fst,
       w_slurp = (\<lambda>_ _ _. Returned (Inr (file_header_from_bytes (replicate 18 65) 8 9, r))),
       w_debug_lines = (\<lambda>_. [])\<rparr>
     (Matches [(''file'', Text '' dump ''), (''top'', Number 20), (''debug'', Flag False),
       (''list-strings'', Flag False), (''json'', Flag False)] None) =
   ([Stdout (processing_line (length b) (file_header_from_bytes (replicate 18 65) 8 9)), Stdout out,
     Stdout (''File successfully processed in '' @ ''1s'' @ newline)], 0)"
proof -
  let ?h = "file_header_from_bytes (replicate 18 65) 8 9"
  let ?b = "enc_file_header (replicate 18 65) 8 9 @ enc_dump 8 sample_array"
  let ?a = "\<lparr>a_file_path = ''dump'', a_top = 20, a_debug = False, a_list_strings = False,
     a_json_output = False, a_output_file = None\<rparr>"
  let ?m = "Matches [(''file'', Text '' dump ''), (''top'', Number 20), (''debug'', Flag False),
       (''list-strings'', Flag False), (''json'', Flag False)] None"
  have f: "length (replicate 18 (65 :: u8)) = 18" "0 \<notin> set (replicate 18 (65 :: u8))" by simp_all
  let ?r = "report_of 8 False 9 (\<lambda>_. 0) (\<lambda>_. {}) (dump_records 8 sample_array)"
  obtain out where out: "serialize ?r 20 = Inr out"
    using sample_array_serializes [of ?r] by (auto simp: report_of_def)
  have args: "get_args (\<lambda>p. p = ''dump'') ?m = Inr (Inr (Analyze ?a))" by code_simp
  have s: "slurp_file nom_ref insertion_order (Some ?b) False False (Returned (Inr (?h, ?r)))"
    using ref.written_file_report [OF sample_array_fits f insertion.hash_iteration_axioms sample_array_known] by blast
  show ?thesis
    using analysis_end_to_end [OF ref.nom_streaming_axioms insertion.hash_iteration_axioms sample_array_fits f
        sample_array_known, of
        "\<lparr>w_is_file = (\<lambda>p. p = ''dump''), w_contents = (\<lambda>_. Some ?b), w_metadata_len = (\<lambda>_. None), w_create = (\<lambda>_. False),
          w_write_json = (\<lambda>_ _. False), w_clock_millis = None, w_elapsed = ''1s'',
          w_tool = \<lparr>ti_name = ''hprof-slurp'', ti_version = ''0.9.0''\<rparr>, w_library_text = (\<lambda>_. []), w_keys = map fst,
          w_slurp = (\<lambda>_ _ _. Returned (Inr (?h, ?r))),
       w_debug_lines = (\<lambda>_. [])\<rparr>" ?m ?a ?b 9 out] args s out
    by (intro exI [of _ ?r] exI [of _ ?b] exI [of _ out]) simp
qed

text \<open>Property C16: an analysis with the JSON option. When, besides, the JSON option is given and the file
  can be named, created and written, the document that is written holds the facts of the file and of its
  header, the total size and the number of the classes in the report of the records, and the classes with
  the largest totals and with the largest instances, in this order and as many as asked for; the text
  is the report with its rows in the order the second list left them, and the exit status is 0.\<close>

theorem json_analysis_end_to_end:
  assumes "nom_streaming N" and "hash_iteration H"
    and "supported_id_size z" and "list_all (item_fits z) items" and "length f = 18" and "0 \<notin> set f"
    and "layout_known z bytes undef (dump_records z items)"
    and "\<forall>c \<in> set (array_classes (dump_records z items)). \<exists>n. clean_class_name (name_of (dump_records z items) c) = Inr n"
    and "get_args (w_is_file W) m = Inr (Inr (Analyze a))" and "a_json_output a"
    and "w_contents W (a_file_path a) = Some b" and "b = enc_file_header f z t @ enc_dump z items"
    and "slurp_file N H (Some b) (a_debug a) (a_list_strings a)
           (w_slurp W (a_file_path a) (a_debug a) (a_list_strings a))"
    and "w_metadata_len W (a_file_path a) = Some len" and "json_path W (a_output_file a) = Inr path"
    and "w_create W path"
    and "rows = sort_key stats_key (usage_rows z bytes (dump_records z items))"
    and "doc = json_of_result \<lparr>jr_schema_version = 1, jr_tool = w_tool W,
           jr_dump = dump_info_new (a_file_path a) len (fh_format (file_header_from_bytes f z t)) z t,
           jr_heap = \<lparr>hi_total_shallow_bytes = sum_list (map allocation_size_bytes rows), hi_class_count = length rows,
             hi_top_allocated_classes = take (a_top a) (sort_by_allocation rows),
             hi_top_largest_instances = take (a_top a) (sort_by_largest (sort_by_allocation rows))\<rparr>\<rparr>"
    and "w_write_json W path doc"
    and "serialize ((report_of z (a_list_strings a) t bytes undef (dump_records z items))
           \<lparr>rs_memory_usage := sort_by_largest (sort_by_allocation rows)\<rparr>) (a_top a) = Inr out"
  shows "main N W m =
    (Stdout (processing_line (length b) (file_header_from_bytes f z t)) #
      map Stdout (if a_debug a then w_debug_lines W (a_file_path a) else []) @
      [JsonFile path doc, Stdout (''Output JSON result file '' @ path @ newline), Stdout out,
      Stdout (''File successfully processed in '' @ w_elapsed W @ newline)], 0)"
proof -
  let ?r = "report_of z (a_list_strings a) t bytes undef (dump_records z items)"
  have "rs_memory_usage ?r = rows" by (simp add: report_of_def assms(17))
  moreover have "fh_size_pointers (file_header_from_bytes f z t) = z" "fh_timestamp (file_header_from_bytes f z t) = t"
    by (simp_all add: file_header_from_bytes_def)
  moreover note nom_streaming.written_file_call [OF assms(1,3-6,2,7,8,11,12,13)]
  ultimately show ?thesis using assms(9,10,14-16,18-20)
    by (simp add: main_def main_result_def analyze_file_def json_result_new_def JSON_SCHEMA_VERSION_def save_as_file_def
        print_report_def io_then_def io_emit_def Let_def)
qed

theorem json_analysis_end_to_end_witness:
  "\<exists>r b doc out. main nom_ref \<lparr>w_is_file = (\<lambda>p. p = ''dump''), w_contents = (\<lambda>_. Some b), w_metadata_len = (\<lambda>_. Some 77),
       w_create = (\<lambda>_. True), w_write_json = (\<lambda>_ _. True), w_clock_millis = Some 1234, w_elapsed = ''1s'',
       w_tool = \<lparr>ti_name = ''hprof-slurp'', ti_version = ''0.9.0''\<rparr>, w_library_text = (\<lambda>_. []), w_keys = map fst,
       w_slurp = (\<lambda>_ _ _. Returned (Inr (file_header_from_bytes (replicate 18 65) 8 9, r))),
       w_debug_lines = (\<lambda>_. [])\<rparr>
     (Matches [(''file'', Text '' dump ''), (''top'', Number 20), (''debug'', Flag False),
       (''list-strings'', Flag False), (''json'', Flag True), (''output'', Text ''o.json'')] None) =
   ([Stdout (processing_line (length b) (file_header_from_bytes (replicate 18 65) 8 9)), JsonFile ''o.json'' doc,
     Stdout (''Output JSON result file '' @ ''o.json'' @ newline), Stdout out,
     Stdout (''File successfully processed in '' @ ''1s'' @ newline)], 0)"
proof -
  let ?h = "file_header_from_bytes (replicate 18 65) 8 9"
  let ?b = "enc_file_header (replicate 18 65) 8 9 @ enc_dump 8 sample_array"
  let ?a = "\<lparr>a_file_path = ''dump'', a_top = 20, a_debug = False, a_list_strings = False,
     a_json_output = True, a_output_file = Some ''o.json''\<rparr>"
  let ?m = "Matches [(''file'', Text '' dump ''), (''top'', Number 20), (''debug'', Flag False),
       (''list-strings'', Flag False), (''json'', Flag True), (''output'', Text ''o.json'')] None"
  have f: "length (replicate 18 (65 :: u8)) = 18" "0 \<notin> set (replicate 18 (65 :: u8))" by simp_all
  let ?r = "report_of 8 False 9 (\<lambda>_. 0) (\<lambda>_. {}) (dump_records 8 sample_array)"
  let ?rows = "sort_key stats_key (usage_rows 8 (\<lambda>_. 0) (dump_records 8 sample_array))"
  obtain out where out: "serialize (?r\<lparr>rs_memory_usage := sort_by_largest (sort_by_allocation ?rows)\<rparr>) 20 = Inr out"
    using sample_array_serializes [of "?r\<lparr>rs_memory_usage := sort_by_largest (sort_by_allocation ?rows)\<rparr>"]
    by (auto simp: sort_by_largest_def sort_by_allocation_def)
  have args: "get_args (\<lambda>p. p = ''dump'') ?m = Inr (Inr (Analyze ?a))" by code_simp
  have s: "slurp_file nom_ref insertion_order (Some ?b) False False (Returned (Inr (?h, ?r)))"
    using ref.written_file_report [OF sample_array_fits f insertion.hash_iteration_axioms sample_array_known] by blast
  show ?thesis
    using json_analysis_end_to_end [OF ref.nom_streaming_axioms insertion.hash_iteration_axioms sample_array_fits f
        sample_array_known, of
        "\<lparr>w_is_file = (\<lambda>p. p = ''dump''), w_contents = (\<lambda>_. Some ?b), w_metadata_len = (\<lambda>_. Some 77),
          w_create = (\<lambda>_. True), w_write_json = (\<lambda>_ _. True), w_clock_millis = Some 1234, w_elapsed = ''1s'',
          w_tool = \<lparr>ti_name = ''hprof-slurp'', ti_version = ''0.9.0''\<rparr>, w_library_text = (\<lambda>_. []), w_keys = map fst,
          w_slurp = (\<lambda>_ _ _. Returned (Inr (?h, ?r))),
       w_debug_lines = (\<lambda>_. [])\<rparr>" ?m ?a ?b 9 77 "''o.json''", OF _ _ _ _ _ _ _ _ refl refl] args s out
    by (intro exI [of _ ?r] exI [of _ ?b] exI [of _ out] exI) (simp add: json_path_def)
qed

text \<open>Property C39: the JSON option changes the text report. For the same file and the same arguments, the texts
  printed without and with the option differ in the first table only. Without it, classes with the same
  total are in the order of their names, the last first; with it, they are in the order of their largest
  instance. So of two classes with the same total, a report that has room for one of them can show the one
  without the option and the other with it, as in the example.\<close>

theorem json_option_changes_report:
  assumes "nom_streaming N" and "hash_iteration H"
    and "supported_id_size z" and "list_all (item_fits z) items" and "length f = 18" and "0 \<notin> set f"
    and "layout_known z bytes undef (dump_records z items)"
    and "\<forall>c \<in> set (array_classes (dump_records z items)). \<exists>n. clean_class_name (name_of (dump_records z items) c) = Inr n"
    and "w_contents W (a_file_path a) = Some b" and "b = enc_file_header f z t @ enc_dump z items"
    and "slurp_file N H (Some b) (a_debug a) (a_list_strings a)
           (w_slurp W (a_file_path a) (a_debug a) (a_list_strings a))"
    and "rows = usage_rows z bytes (dump_records z items)" and "rows \<noteq> []" and "0 < a_top a"
    and "w_metadata_len W (a_file_path a) = Some len" and "json_path W (a_output_file a) = Inr path"
    and "w_create W path" and "\<forall>doc. w_write_json W path doc"
  shows "\<exists>begins pre plain json post doc.
    render_table (a_top a) (sort_key (\<lambda>c. (Reverse (allocation_size_bytes c), stats_key c)) rows) = Inr plain \<and>
    render_table (a_top a)
      (sort_key (\<lambda>c. (Reverse (allocation_size_bytes c), Reverse (largest_allocation_bytes c), stats_key c)) rows) = Inr json \<and>
    analyze_file N W (a\<lparr>a_json_output := False\<rparr>) = (begins @ [Stdout (pre @ plain @ post)], Inr (Inr ())) \<and>
    analyze_file N W (a\<lparr>a_json_output := True\<rparr>) = (begins @ [JsonFile path doc,
      Stdout (''Output JSON result file '' @ path @ newline), Stdout (pre @ json @ post)], Inr (Inr ()))"
proof -
  let ?r = "report_of z (a_list_strings a) t bytes undef (dump_records z items)"
  have "rs_memory_usage ?r = sort_key stats_key rows" by (simp add: report_of_def assms(12))
  show ?thesis
    by (rule option_analyses [OF nom_streaming.written_file_call [OF assms(1,3-6,2,7-11)] \<open>rs_memory_usage ?r = _\<close>
        assms(13-18)]) blast
qed

theorem json_option_changes_report_witness:
  "\<exists>W b begins pre plain json post doc.
    w_contents W ''dump'' = Some b \<and> b = enc_file_header (replicate 18 65) 8 9 @ enc_dump 8 sample_tie \<and>
    render_table 1 [class_allocation_stats_new ''char[]'' 2 16 32] = Inr plain \<and>
    render_table 1 [class_allocation_stats_new ''byte[]'' 1 32 32] = Inr json \<and>
    analyze_file nom_ref W \<lparr>a_file_path = ''dump'', a_top = 1, a_debug = False, a_list_strings = False,
      a_json_output = False, a_output_file = Some ''o.json''\<rparr> = (begins @ [Stdout (pre @ plain @ post)], Inr (Inr ())) \<and>
    analyze_file nom_ref W \<lparr>a_file_path = ''dump'', a_top = 1, a_debug = False, a_list_strings = False,
      a_json_output = True, a_output_file = Some ''o.json''\<rparr> = (begins @ [JsonFile ''o.json'' doc,
        Stdout (''Output JSON result file '' @ ''o.json'' @ newline), Stdout (pre @ json @ post)], Inr (Inr ()))"
proof -
  let ?h = "file_header_from_bytes (replicate 18 65) 8 9"
  let ?b = "enc_file_header (replicate 18 65) 8 9 @ enc_dump 8 sample_tie"
  let ?a = "\<lparr>a_file_path = ''dump'', a_top = 1, a_debug = False, a_list_strings = False,
     a_json_output = False, a_output_file = Some ''o.json''\<rparr>"
  let ?r = "report_of 8 False 9 (\<lambda>_. 0) (\<lambda>_. {}) (dump_records 8 sample_tie)"
  let ?W = "\<lparr>w_is_file = (\<lambda>p. p = ''dump''), w_contents = (\<lambda>_. Some ?b), w_metadata_len = (\<lambda>_. Some 77),
     w_create = (\<lambda>_. True), w_write_json = (\<lambda>_ _. True), w_clock_millis = Some 1234, w_elapsed = ''1s'',
     w_tool = \<lparr>ti_name = ''hprof-slurp'', ti_version = ''0.9.0''\<rparr>, w_library_text = (\<lambda>_. []), w_keys = map fst,
     w_slurp = (\<lambda>_ _ _. Returned (Inr (?h, ?r))), w_debug_lines = (\<lambda>_. [])\<rparr>"
  let ?char = "class_allocation_stats_new ''char[]'' 2 16 32" and ?byte = "class_allocation_stats_new ''byte[]'' 1 32 32"
  have f: "length (replicate 18 (65 :: u8)) = 18" "0 \<notin> set (replicate 18 (65 :: u8))" by simp_all
  have s: "slurp_file nom_ref insertion_order (Some ?b) False False (Returned (Inr (?h, ?r)))"
    using ref.written_file_report [OF sample_tie_fits f insertion.hash_iteration_axioms sample_tie_known] by blast
  define rows where "rows = [?byte, ?char]"
  have orders: "sort_key (\<lambda>c. (Reverse (allocation_size_bytes c), stats_key c)) rows = [?char, ?byte]"
    "sort_key (\<lambda>c. (Reverse (allocation_size_bytes c), Reverse (largest_allocation_bytes c), stats_key c)) rows = [?byte, ?char]"
    by (simp_all add: rows_def stats_key_def class_allocation_stats_new_def)
  have tables: "render_table (Suc 0) [?char, ?byte] = render_table (Suc 0) [?char]"
    "render_table (Suc 0) [?byte, ?char] = render_table (Suc 0) [?byte]"
    using render_table_take [of 1 "[?char, ?byte]"] render_table_take [of 1 "[?byte, ?char]"] by simp_all
  have rows: "rows = usage_rows 8 (\<lambda>_. 0) (dump_records 8 sample_tie)" "rows \<noteq> []"
    by (simp_all add: rows_def sample_tie_rows)
  from json_option_changes_report [OF ref.nom_streaming_axioms insertion.hash_iteration_axioms sample_tie_fits f
      sample_tie_known, of ?W ?a ?b 9, OF _ refl _ rows, of 77 "''o.json''"] s
  have "\<exists>begins pre plain json post doc. render_table 1 [?char] = Inr plain \<and> render_table 1 [?byte] = Inr json \<and>
      analyze_file nom_ref ?W ?a = (begins @ [Stdout (pre @ plain @ post)], Inr (Inr ())) \<and>
      analyze_file nom_ref ?W (?a\<lparr>a_json_output := True\<rparr>) = (begins @ [JsonFile ''o.json'' doc,
        Stdout (''Output JSON result file '' @ ''o.json'' @ newline), Stdout (pre @ json @ post)], Inr (Inr ()))"
    by (simp add: orders tables json_path_def del: append_Cons append_Nil)
  moreover have "w_contents ?W ''dump'' = Some ?b" by simp
  ultimately show ?thesis by (intro exI [of _ ?W] exI [of _ ?b]) simp
qed

text \<open>Property C13: a damaged dump from the command line to the exit status. When the file of an analysis
  has a valid header but makes the parser panic, the program prints the line that announces the file
  (and the lines of the debug mode) and no report, in every interleaving of the threads: either it ends with an error line and status 1, or the
  main thread panics with status 101. The error line is the same for every cause.\<close>

theorem damaged_file_end_to_end:
  assumes "nom_streaming N" and "slurp_header N b = Inr (Inr (h, rest))"
    and "fails_after N (parser_start (a_debug a) h) rest [] e"
    and "get_args (w_is_file W) m = Inr (Inr (Analyze a))"
    and "w_contents W (a_file_path a) = Some b"
    and "slurp_file N H (Some b) (a_debug a) (a_list_strings a)
           (w_slurp W (a_file_path a) (a_debug a) (a_list_strings a))"
  shows "let printed = Stdout (processing_line (length b) h) #
        map Stdout (if a_debug a then w_debug_lines W (a_file_path a) else [])
    in main N W m = (printed @ [Stderr (''error: standard thread error (Any { .. })'' @ newline)], 1) \<or>
       main N W m = (printed, 101)"
  using nom_streaming.failing_file_outcome [OF assms(1-3,6)] assms(2,4,5)
  by (auto simp: main_def main_result_def analyze_file_def slurp_call_def slurp_prints_def error_display_def
      io_then_def io_error_def io_panic_def io_emit_def Let_def)

theorem damaged_file_end_to_end_witness:
  "\<exists>out. let ending = main nom_ref \<lparr>w_is_file = (\<lambda>p. p = ''dump''), w_contents = (\<lambda>_. Some (sample_file [0x99])),
         w_metadata_len = (\<lambda>_. None), w_create = (\<lambda>_. False), w_write_json = (\<lambda>_ _. False), w_clock_millis = None,
         w_elapsed = ''1s'', w_tool = \<lparr>ti_name = ''hprof-slurp'', ti_version = ''0.9.0''\<rparr>, w_library_text = (\<lambda>_. []),
         w_keys = map fst, w_slurp = (\<lambda>_ _ _. out),
       w_debug_lines = (\<lambda>_. [])\<rparr>
       (Matches [(''file'', Text '' dump ''), (''top'', Number 20), (''debug'', Flag False),
         (''list-strings'', Flag False), (''json'', Flag False)] None)
     in ending = ([Stdout (processing_line 32 sample_header),
         Stderr (''error: standard thread error (Any { .. })'' @ newline)], 1) \<or>
       ending = ([Stdout (processing_line 32 sample_header)], 101)"
proof -
  let ?m = "Matches [(''file'', Text '' dump ''), (''top'', Number 20), (''debug'', Flag False),
       (''list-strings'', Flag False), (''json'', Flag False)] None" and ?b = "sample_file [0x99]"
  let ?a = "\<lparr>a_file_path = ''dump'', a_top = 20, a_debug = False, a_list_strings = False,
     a_json_output = False, a_output_file = None\<rparr>"
  have args: "get_args (\<lambda>p. p = ''dump'') ?m = Inr (Inr (Analyze ?a))" by code_simp
  have len: "length ?b = 32" by code_simp
  obtain r where "recorder_run insertion_order (recorder_start False sample_header) [[]] = Some (Inr r)"
    by (rule empty_report)
  then obtain out where out: "slurp_file nom_ref insertion_order (Some ?b) False False out"
    using ref.any_file_completes [OF sample_header_read sample_fails_parses] by auto
  show ?thesis
    using damaged_file_end_to_end [OF ref.nom_streaming_axioms sample_header_read, where a = ?a and
          rest = "[0x99]" and e = "UnhandledRecordTag 0x99" and m = ?m and H = insertion_order and W =
        "\<lparr>w_is_file = (\<lambda>p. p = ''dump''), w_contents = (\<lambda>_. Some ?b), w_metadata_len = (\<lambda>_. None), w_create = (\<lambda>_. False),
          w_write_json = (\<lambda>_ _. False), w_clock_millis = None, w_elapsed = ''1s'',
          w_tool = \<lparr>ti_name = ''hprof-slurp'', ti_version = ''0.9.0''\<rparr>, w_library_text = (\<lambda>_. []), w_keys = map fst,
          w_slurp = (\<lambda>_ _ _. out),
       w_debug_lines = (\<lambda>_. [])\<rparr>"] args out sample_fails len
    by (intro exI [of _ out]) (simp add: Let_def)
qed

text \<open>Property C14: a comparison from the command line to the exit status. When the arguments ask for the
  comparison of two files and the sequential program reports on both, the program prints the line that
  announces each file, then the rendering of the classes whose totals differ, by decreasing growth, then
  the line with the time it took, and exits with status 0, whatever the threads and the hash maps do.\<close>

theorem comparison_end_to_end:
  assumes "nom_streaming N" and "key_iteration (w_keys W)"
    and "get_args (w_is_file W) m = Inr (Inr (Diff a))"
    and "w_contents W (d_from a) = Some b\<^sub>1" and "w_contents W (d_to a) = Some b\<^sub>2"
    and "slurp_file N H (Some b\<^sub>1) False False (w_slurp W (d_from a) False False)"
    and "slurp_file N H (Some b\<^sub>2) False False (w_slurp W (d_to a) False False)"
    and "sequential_slurp N H b\<^sub>1 False False = Some (h\<^sub>1, r\<^sub>1)"
    and "sequential_slurp N H b\<^sub>2 False False = Some (h\<^sub>2, r\<^sub>2)"
  shows "main N W m =
    ([Stdout (processing_line (length b\<^sub>1) h\<^sub>1), Stdout (processing_line (length b\<^sub>2) h\<^sub>2),
      Stdout (render (d_from a) (d_to a) (rs_memory_usage r\<^sub>1) (rs_memory_usage r\<^sub>2)
        (sort_key (\<lambda>e. Reverse (sint (delta_bytes e))) (filter changed
          (map (entry_named (rs_memory_usage r\<^sub>1) (rs_memory_usage r\<^sub>2))
            (all_names (rs_memory_usage r\<^sub>1) (rs_memory_usage r\<^sub>2)))))
        (d_top a)),
      Stdout (''Files successfully compared in '' @ w_elapsed W @ newline)], 0)"
proof -
  note only = nom_streaming.sequential_slurp_outcome [OF assms(1)]
  from assms(8,9) obtain rest\<^sub>1 rest\<^sub>2 where
    "slurp_header N b\<^sub>1 = Inr (Inr (h\<^sub>1, rest\<^sub>1))" "slurp_header N b\<^sub>2 = Inr (Inr (h\<^sub>2, rest\<^sub>2))"
    unfolding nom_streaming.sequential_slurp_iff [OF assms(1)] by blast
  moreover have "w_slurp W (d_from a) False False = Returned (Inr (h\<^sub>1, r\<^sub>1))"
    "w_slurp W (d_to a) False False = Returned (Inr (h\<^sub>2, r\<^sub>2))"
    using only [OF assms(8)] only [OF assms(9)] assms(6,7) by blast+
  ultimately show ?thesis
    using assms(3-5) key_iteration.compute_entries [OF assms(2)]
    by (simp add: main_def main_result_def diff_files_def slurp_call_def slurp_prints_def
        io_then_def io_return_def io_emit_def)
qed

theorem comparison_end_to_end_witness:
  "\<exists>r. main nom_ref \<lparr>w_is_file = (\<lambda>p. True), w_contents = (\<lambda>_. Some (sample_file sample_record)),
       w_metadata_len = (\<lambda>_. None), w_create = (\<lambda>_. False), w_write_json = (\<lambda>_ _. False), w_clock_millis = None,
       w_elapsed = ''1s'', w_tool = \<lparr>ti_name = ''hprof-slurp'', ti_version = ''0.9.0''\<rparr>, w_library_text = (\<lambda>_. []),
       w_keys = (\<lambda>m. rev (map fst m)), w_slurp = (\<lambda>_ _ _. Returned (Inr (sample_header, r))),
       w_debug_lines = (\<lambda>_. [])\<rparr>
     (Matches [] (Some (''diff'', Matches [(''from'', Text ''old''), (''to'', Text ''new''), (''top'', Number 20)] None))) =
   ([Stdout (processing_line 40 sample_header), Stdout (processing_line 40 sample_header),
     Stdout (render ''old'' ''new'' (rs_memory_usage r) (rs_memory_usage r) [] 20),
     Stdout (''Files successfully compared in '' @ ''1s'' @ newline)], 0)"
proof -
  let ?m = "Matches [] (Some (''diff'', Matches [(''from'', Text ''old''), (''to'', Text ''new''), (''top'', Number 20)] None))"
  let ?a = "\<lparr>d_from = ''old'', d_to = ''new'', d_top = 20\<rparr>" and ?b = "sample_file sample_record"
  obtain r where "recorder_run insertion_order (recorder_start False sample_header) [[HeapDumpEnd 5]] = Some (Inr r)"
    by (rule sample_report)
  with sample_header_read sample_reads
  have s: "sequential_slurp nom_ref insertion_order ?b False False = Some (sample_header, r)"
    unfolding ref.sequential_slurp_iff by blast
  let ?W = "\<lparr>w_is_file = (\<lambda>p. True), w_contents = (\<lambda>_. Some ?b), w_metadata_len = (\<lambda>_. None), w_create = (\<lambda>_. False),
     w_write_json = (\<lambda>_ _. False), w_clock_millis = None, w_elapsed = ''1s'',
     w_tool = \<lparr>ti_name = ''hprof-slurp'', ti_version = ''0.9.0''\<rparr>, w_library_text = (\<lambda>_. []), w_keys = (\<lambda>m. rev (map fst m)),
     w_slurp = (\<lambda>_ _ _. Returned (Inr (sample_header, r))),
       w_debug_lines = (\<lambda>_. [])\<rparr>"
  have args: "get_args (\<lambda>p. True) ?m = Inr (Inr (Diff ?a))" by code_simp
  have len: "length ?b = 40" by code_simp
  have "filter changed (map (entry_named rows rows) names) = []" for rows names
    by (simp add: filter_empty_conv changed_named)
  with comparison_end_to_end [OF ref.nom_streaming_axioms, of ?W ?m ?a ?b ?b insertion_order sample_header r sample_header r]
    reversed_keys.key_iteration_axioms args s ref.sequential_slurp_outcome [OF s] len
  show ?thesis by (intro exI [of _ r]) simp
qed

end
